(* ===== verification/Prelude.thy ===== *)
theory Prelude
  imports Main "HOL-Library.Word"
begin

text \<open>
  Shared vocabulary of the development: Go's byte strings and errors, the computations of
  the daemon (a Go method that mutates its receiver and may return an error), the loops
  over slices, and the rules with which invariants of such computations are proved.

  A computation keeps the state it reached also when it returns an error, as a Go method
  does: a message buffered before the error stays buffered.
\<close>

subsection \<open>Types\<close>

type_synonym byte = "8 word"
type_synonym u16 = "16 word"
type_synonym u32 = "32 word"
type_synonym u64 = "64 word"

text \<open>
  A Go error value: the two sentinel errors of package os that the code tests for with
  \<^verbatim>\<open>errors.Is\<close>, an error made from a text, an error wrapped with \<^verbatim>\<open>%w\<close>, several errors
  joined by \<^verbatim>\<open>errors.Join\<close>, and a run-time panic. Error texts keep the fixed part of the
  format string; the formatted arguments are dropped.
\<close>

datatype go_error =
    ErrNotExist
  | ErrExist
  | ErrText string
  | Wrap string go_error
  | Joined "go_error list"
  | Panic string

text \<open>\<^verbatim>\<open>errors.Is(err, target)\<close> for the sentinel errors: looks through wrapping and joining.\<close>

fun errors_Is :: "go_error \<Rightarrow> go_error \<Rightarrow> bool" where
  "errors_Is (Wrap t e) target = errors_Is e target"
| "errors_Is (Joined es) target = (\<exists>e \<in> set es. errors_Is e target)"
| "errors_Is e target = (e = target)"

type_synonym 'a result = "go_error + 'a"
type_synonym ('s, 'a) comp = "'s \<Rightarrow> 'a result \<times> 's"

subsection \<open>Computations\<close>

definition ret :: "'a \<Rightarrow> ('s, 'a) comp" where
  "ret x = (\<lambda>s. (Inr x, s))"

definition fail :: "go_error \<Rightarrow> ('s, 'a) comp" where
  "fail e = (\<lambda>s. (Inl e, s))"

text \<open>\<open>seq m f\<close>: run \<open>m\<close>; on an error return it, otherwise go on with \<open>f\<close>.\<close>

definition seq :: "('s, 'a) comp \<Rightarrow> ('a \<Rightarrow> ('s, 'b) comp) \<Rightarrow> ('s, 'b) comp" where
  "seq m f = (\<lambda>s. case m s of (Inl e, s') \<Rightarrow> (Inl e, s') | (Inr x, s') \<Rightarrow> f x s')"

text \<open>
  \<open>wrapped t m\<close>: \<^verbatim>\<open>fmt.Errorf("t: %w", err)\<close> around the error of \<open>m\<close>. A panic is not an
  error value: it passes every caller unchanged.
\<close>

fun wrap_error :: "string \<Rightarrow> go_error \<Rightarrow> go_error" where
  "wrap_error t (Panic p) = Panic p"
| "wrap_error t e = Wrap t e"

definition wrapped :: "string \<Rightarrow> ('s, 'a) comp \<Rightarrow> ('s, 'a) comp" where
  "wrapped t m = (\<lambda>s. case m s of (Inl e, s') \<Rightarrow> (Inl (wrap_error t e), s') | (Inr x, s') \<Rightarrow> (Inr x, s'))"

text \<open>\<open>attempt m\<close>: run \<open>m\<close> and hand its error or value to the caller, as \<^verbatim>\<open>x, err := m()\<close>.\<close>

fun is_panic :: "'a result \<Rightarrow> bool" where
  "is_panic (Inl (Panic p)) = True"
| "is_panic r = False"

definition attempt :: "('s, 'a) comp \<Rightarrow> ('s, 'a result) comp" where
  "attempt m = (\<lambda>s. case m s of (r, s') \<Rightarrow> (if is_panic r then Inl (projl r) else Inr r, s'))"

definition gets :: "('s \<Rightarrow> 'a) \<Rightarrow> ('s, 'a) comp" where
  "gets f = (\<lambda>s. (Inr (f s), s))"

definition modify :: "('s \<Rightarrow> 's) \<Rightarrow> ('s, unit) comp" where
  "modify f = (\<lambda>s. (Inr (), f s))"

definition lift_result :: "'a result \<Rightarrow> ('s, 'a) comp" where
  "lift_result r = (\<lambda>s. (r, s))"

text \<open>A read of the state that may fail.\<close>

definition reads :: "('s \<Rightarrow> 'a result) \<Rightarrow> ('s, 'a) comp" where
  "reads f = (\<lambda>s. (f s, s))"

text \<open>\<open>zoom\<close>: run a computation on a component of the state (a method of a field).\<close>

definition zoom :: "('t \<Rightarrow> 's) \<Rightarrow> ('s \<Rightarrow> 't \<Rightarrow> 't) \<Rightarrow> ('s, 'a) comp \<Rightarrow> ('t, 'a) comp" where
  "zoom get put m = (\<lambda>t. case m (get t) of (r, s') \<Rightarrow> (r, put s' t))"

text \<open>\<^verbatim>\<open>for _, x := range xs\<close> with a body that may return early with an error.\<close>

fun for_each :: "'a list \<Rightarrow> ('a \<Rightarrow> ('s, unit) comp) \<Rightarrow> ('s, unit) comp" where
  "for_each [] f = ret ()"
| "for_each (x # xs) f = seq (f x) (\<lambda>_. for_each xs f)"

text \<open>The same loop with a local variable that the body updates.\<close>

fun for_acc :: "'a list \<Rightarrow> 'b \<Rightarrow> ('a \<Rightarrow> 'b \<Rightarrow> ('s, 'b) comp) \<Rightarrow> ('s, 'b) comp" where
  "for_acc [] b f = ret b"
| "for_acc (x # xs) b f = seq (f x b) (\<lambda>b'. for_acc xs b' f)"

text \<open>\<^verbatim>\<open>defer\<close>: an update of the state that runs on every exit of the body.\<close>

definition deferred :: "('s \<Rightarrow> 's) \<Rightarrow> ('s, 'a) comp \<Rightarrow> ('s, 'a) comp" where
  "deferred f m = (\<lambda>s. case m s of (r, s') \<Rightarrow> (r, f s'))"

subsection \<open>Evaluation of computations\<close>

named_theorems comp_simps \<open>how the combinators act on a state\<close>
named_theorems keeps_intros \<open>which computations keep an invariant\<close>

lemma ret_eq [comp_simps]: "ret x s = (Inr x, s)"
  by (simp add: ret_def)

lemma fail_eq [comp_simps]: "fail e s = (Inl e, s)"
  by (simp add: fail_def)

lemma seq_eq [comp_simps]:
  "seq m f s = (case m s of (Inl e, s') \<Rightarrow> (Inl e, s') | (Inr x, s') \<Rightarrow> f x s')"
  by (simp add: seq_def)

lemma wrapped_eq [comp_simps]:
  "wrapped t m s = (case m s of (Inl e, s') \<Rightarrow> (Inl (wrap_error t e), s') | (Inr x, s') \<Rightarrow> (Inr x, s'))"
  by (simp add: wrapped_def)

lemma attempt_eq [comp_simps]:
  "attempt m s = (case m s of (r, s') \<Rightarrow> (if is_panic r then Inl (projl r) else Inr r, s'))"
  by (simp add: attempt_def)

lemma gets_eq [comp_simps]: "gets f s = (Inr (f s), s)"
  by (simp add: gets_def)

lemma modify_eq [comp_simps]: "modify f s = (Inr (), f s)"
  by (simp add: modify_def)

lemma lift_result_eq [comp_simps]: "lift_result r s = (r, s)"
  by (simp add: lift_result_def)

lemma reads_eq [comp_simps]: "reads f s = (f s, s)"
  by (simp add: reads_def)

lemma zoom_eq [comp_simps]: "zoom get put m t = (case m (get t) of (r, s') \<Rightarrow> (r, put s' t))"
  by (simp add: zoom_def)

lemma deferred_eq [comp_simps]: "deferred f m s = (case m s of (r, s') \<Rightarrow> (r, f s'))"
  by (simp add: deferred_def)

lemma seq_ret [simp]: "seq (ret x) f = f x"
  by (simp add: seq_def ret_def)

lemma seq_fail [simp]: "seq (fail e) f = fail e"
  by (simp add: seq_def fail_def)

lemma seq_Inr: "seq m f s = (Inr y, s'') \<longleftrightarrow> (\<exists>x s'. m s = (Inr x, s') \<and> f x s' = (Inr y, s''))"
  by (auto simp: seq_def split: prod.splits sum.splits)

lemma attempt_Inr: "attempt m s = (Inr r, s') \<longleftrightarrow> m s = (r, s') \<and> \<not> is_panic r"
  by (auto simp: attempt_def split: prod.splits)

lemma seq_assoc: "seq (seq m f) g = seq m (\<lambda>x. seq (f x) g)"
  by (auto simp: seq_def fun_eq_iff split: prod.splits sum.splits)

lemma for_each_append: "for_each (xs @ ys) f = seq (for_each xs f) (\<lambda>_. for_each ys f)"
  by (induction xs) (simp_all add: seq_assoc)

subsection \<open>Invariants of computations\<close>

text \<open>
  \<open>keeps P m\<close>: the computation \<open>m\<close> preserves \<open>P\<close>, whether it returns a value or an
  error. The rules follow the structure of the code, so an invariant of a whole handler is
  proved from the invariants of the few operations that write the state.
\<close>

definition keeps :: "('s \<Rightarrow> bool) \<Rightarrow> ('s, 'a) comp \<Rightarrow> bool" where
  "keeps P m \<longleftrightarrow> (\<forall>s. P s \<longrightarrow> P (snd (m s)))"

lemma keepsI: "(\<And>s. P s \<Longrightarrow> P (snd (m s))) \<Longrightarrow> keeps P m"
  by (simp add: keeps_def)

lemma keepsD: "keeps P m \<Longrightarrow> P s \<Longrightarrow> P (snd (m s))"
  by (simp add: keeps_def)

lemma keeps_ret [keeps_intros]: "keeps P (ret x)"
  by (simp add: keeps_def ret_def)

lemma keeps_fail [keeps_intros]: "keeps P (fail e)"
  by (simp add: keeps_def fail_def)

lemma keeps_seq [keeps_intros]:
  assumes "keeps P m" and "\<And>x. keeps P (f x)"
  shows "keeps P (seq m f)"
proof (rule keepsI)
  fix s assume "P s"
  obtain r s' where m: "m s = (r, s')" by (cases "m s")
  with \<open>P s\<close> assms(1) have "P s'" by (auto dest: keepsD)
  then show "P (snd (seq m f s))"
    using assms(2) m by (auto simp: seq_def keeps_def split: sum.splits)
qed

lemma keeps_wrapped [keeps_intros]: "keeps P m \<Longrightarrow> keeps P (wrapped t m)"
  by (force simp: keeps_def wrapped_def split: prod.splits sum.splits)

lemma keeps_attempt [keeps_intros]: "keeps P m \<Longrightarrow> keeps P (attempt m)"
  by (force simp: keeps_def attempt_def split: prod.splits)

lemma keeps_gets [keeps_intros]: "keeps P (gets f)"
  by (simp add: keeps_def gets_def)

lemma keeps_lift_result [keeps_intros]: "keeps P (lift_result r)"
  by (simp add: keeps_def lift_result_def)

lemma keeps_reads [keeps_intros]: "keeps P (reads f)"
  by (simp add: keeps_def reads_def)

lemma keeps_modify: "(\<And>s. P s \<Longrightarrow> P (f s)) \<Longrightarrow> keeps P (modify f)"
  by (simp add: keeps_def modify_def)

lemma keeps_if [keeps_intros]:
  "(b \<Longrightarrow> keeps P m) \<Longrightarrow> (\<not> b \<Longrightarrow> keeps P m') \<Longrightarrow> keeps P (if b then m else m')"
  by simp

lemma keeps_case_option [keeps_intros]:
  "(x = None \<Longrightarrow> keeps P m) \<Longrightarrow> (\<And>y. x = Some y \<Longrightarrow> keeps P (f y)) \<Longrightarrow>
   keeps P (case x of None \<Rightarrow> m | Some y \<Rightarrow> f y)"
  by (cases x) auto

lemma keeps_case_sum [keeps_intros]:
  "(\<And>e. x = Inl e \<Longrightarrow> keeps P (f e)) \<Longrightarrow> (\<And>y. x = Inr y \<Longrightarrow> keeps P (g y)) \<Longrightarrow>
   keeps P (case x of Inl e \<Rightarrow> f e | Inr y \<Rightarrow> g y)"
  by (cases x) auto

lemma keeps_case_prod [keeps_intros]:
  "(\<And>a b. x = (a, b) \<Longrightarrow> keeps P (f a b)) \<Longrightarrow> keeps P (case x of (a, b) \<Rightarrow> f a b)"
  by (cases x) auto

lemma keeps_case_list [keeps_intros]:
  "(x = [] \<Longrightarrow> keeps P m) \<Longrightarrow> (\<And>y ys. x = y # ys \<Longrightarrow> keeps P (f y ys)) \<Longrightarrow>
   keeps P (case x of [] \<Rightarrow> m | y # ys \<Rightarrow> f y ys)"
  by (cases x) auto

lemma keeps_let [keeps_intros]: "keeps P (f x) \<Longrightarrow> keeps P (let y = x in f y)"
  by (simp add: Let_def)

lemma keeps_for_each [keeps_intros]:
  "(\<And>x. x \<in> set xs \<Longrightarrow> keeps P (f x)) \<Longrightarrow> keeps P (for_each xs f)"
  by (induction xs) (auto intro!: keeps_intros)

lemma keeps_for_acc [keeps_intros]:
  "(\<And>x b. x \<in> set xs \<Longrightarrow> keeps P (f x b)) \<Longrightarrow> keeps P (for_acc xs b f)"
  by (induction xs arbitrary: b) (auto intro!: keeps_intros)

lemma keeps_zoom:
  assumes "\<And>t. P t \<Longrightarrow> P (put (snd (m (get t))) t)"
  shows "keeps P (zoom get put m)"
  using assms by (force simp: keeps_def zoom_def split: prod.splits)

text \<open>
  The result of a loop whose body appends to a local list: the results of the bodies in
  order, provided none fails.
\<close>

lemma for_acc_ret: "for_acc xs b (\<lambda>x b. ret (f x b)) = ret (fold f xs b)"
  by (induction xs arbitrary: b) simp_all

subsection \<open>Invariants with a result\<close>

text \<open>
  \<open>ensures P m R\<close>: \<open>m\<close> preserves \<open>P\<close> on every path, and a value it returns satisfies \<open>R\<close>.
  Handlers whose later steps depend on what an earlier step returned (the chain or the set
  just looked up) are verified with it.
\<close>

definition ensures :: "('s \<Rightarrow> bool) \<Rightarrow> ('s, 'a) comp \<Rightarrow> ('a \<Rightarrow> bool) \<Rightarrow> bool" where
  "ensures P m R \<longleftrightarrow> (\<forall>s. P s \<longrightarrow> P (snd (m s)) \<and> (\<forall>x. fst (m s) = Inr x \<longrightarrow> R x))"

named_theorems ensures_intros \<open>which computations keep an invariant and what they return\<close>

lemma ensuresI:
  "(\<And>s. P s \<Longrightarrow> P (snd (m s))) \<Longrightarrow> (\<And>s x. P s \<Longrightarrow> fst (m s) = Inr x \<Longrightarrow> R x) \<Longrightarrow> ensures P m R"
  by (simp add: ensures_def)

lemma ensures_keeps: "ensures P m R \<Longrightarrow> keeps P m"
  by (simp add: ensures_def keeps_def)

lemma keeps_ensures: "keeps P m \<Longrightarrow> ensures P m (\<lambda>_. True)"
  by (simp add: ensures_def keeps_def)

lemma ensures_weaken: "ensures P m R \<Longrightarrow> (\<And>x. R x \<Longrightarrow> R' x) \<Longrightarrow> ensures P m R'"
  by (auto simp: ensures_def)

lemma ensures_seq [ensures_intros]:
  assumes "ensures P m R" and "\<And>x. R x \<Longrightarrow> ensures P (f x) Q"
  shows "ensures P (seq m f) Q"
proof (rule ensuresI)
  fix s assume "P s"
  obtain r s' where m: "m s = (r, s')" by (cases "m s")
  with \<open>P s\<close> assms(1) have "P s'" "\<And>y. r = Inr y \<Longrightarrow> R y" by (auto simp: ensures_def)
  then show "P (snd (seq m f s))"
    using assms(2) m by (auto simp: seq_def ensures_def split: sum.splits)
next
  fix s x assume "P s" "fst (seq m f s) = Inr x"
  obtain r s' where m: "m s = (r, s')" by (cases "m s")
  with \<open>P s\<close> assms(1) have "P s'" "\<And>y. r = Inr y \<Longrightarrow> R y" by (auto simp: ensures_def)
  then show "Q x"
    using assms(2) m \<open>fst (seq m f s) = Inr x\<close>
    by (auto simp: seq_def ensures_def split: sum.splits)
qed

lemma ensures_wrapped [ensures_intros]: "ensures P m R \<Longrightarrow> ensures P (wrapped t m) R"
  by (force simp: ensures_def wrapped_def split: prod.splits sum.splits)

lemma ensures_ret [ensures_intros]: "R x \<Longrightarrow> ensures P (ret x) R"
  by (simp add: ensures_def ret_def)

lemma ensures_fail [ensures_intros]: "ensures P (fail e) R"
  by (simp add: ensures_def fail_def)

lemma ensures_if [ensures_intros]:
  "(b \<Longrightarrow> ensures P m R) \<Longrightarrow> (\<not> b \<Longrightarrow> ensures P m' R) \<Longrightarrow> ensures P (if b then m else m') R"
  by simp

lemma ensures_let [ensures_intros]: "ensures P (f x) R \<Longrightarrow> ensures P (let y = x in f y) R"
  by (simp add: Let_def)

lemma ensures_case_option [ensures_intros]:
  "(x = None \<Longrightarrow> ensures P m R) \<Longrightarrow> (\<And>y. x = Some y \<Longrightarrow> ensures P (f y) R) \<Longrightarrow>
   ensures P (case x of None \<Rightarrow> m | Some y \<Rightarrow> f y) R"
  by (cases x) auto

lemma ensures_case_sum [ensures_intros]:
  "(\<And>e. x = Inl e \<Longrightarrow> ensures P (f e) R) \<Longrightarrow> (\<And>y. x = Inr y \<Longrightarrow> ensures P (g y) R) \<Longrightarrow>
   ensures P (case x of Inl e \<Rightarrow> f e | Inr y \<Rightarrow> g y) R"
  by (cases x) auto

lemma ensures_case_prod [ensures_intros]:
  "(\<And>a b. x = (a, b) \<Longrightarrow> ensures P (f a b) R) \<Longrightarrow> ensures P (case x of (a, b) \<Rightarrow> f a b) R"
  by (cases x) auto

lemma ensures_case_list [ensures_intros]:
  "(x = [] \<Longrightarrow> ensures P m R) \<Longrightarrow> (\<And>y ys. x = y # ys \<Longrightarrow> ensures P (f y ys) R) \<Longrightarrow>
   ensures P (case x of [] \<Rightarrow> m | y # ys \<Rightarrow> f y ys) R"
  by (cases x) auto

lemma ensures_for_each [ensures_intros]:
  "(\<And>x. x \<in> set xs \<Longrightarrow> ensures P (f x) (\<lambda>_. True)) \<Longrightarrow> ensures P (for_each xs f) (\<lambda>_. True)"
  by (induction xs) (auto intro!: ensures_ret ensures_seq)

lemma ensures_for_acc:
  assumes "\<And>x b. x \<in> set xs \<Longrightarrow> R b \<Longrightarrow> ensures P (f x b) R" and "R b"
  shows "ensures P (for_acc xs b f) R"
  using assms
proof (induction xs arbitrary: b)
  case Nil
  then show ?case by (simp add: ensures_ret)
next
  case (Cons x xs)
  show ?case
    unfolding for_acc.simps
    by (rule ensures_seq [where R = R]) (simp_all add: Cons)
qed

lemma ensures_attempt [ensures_intros]:
  "ensures P m R \<Longrightarrow> ensures P (attempt m) (\<lambda>r. \<forall>x. r = Inr x \<longrightarrow> R x)"
  by (force simp: ensures_def attempt_def split: prod.splits)

lemma ensures_gets: "(\<And>s. P s \<Longrightarrow> R (f s)) \<Longrightarrow> ensures P (gets f) R"
  by (simp add: ensures_def gets_def)

lemma ensures_reads: "(\<And>s x. P s \<Longrightarrow> f s = Inr x \<Longrightarrow> R x) \<Longrightarrow> ensures P (reads f) R"
  by (simp add: ensures_def reads_def)

lemma ensures_lift_result: "(\<And>x. r = Inr x \<Longrightarrow> R x) \<Longrightarrow> ensures P (lift_result r) R"
  by (simp add: ensures_def lift_result_def)

lemma ensures_modify: "(\<And>s. P s \<Longrightarrow> P (f s)) \<Longrightarrow> ensures P (modify f) (\<lambda>_. True)"
  by (simp add: ensures_def modify_def)

lemma ensures_deferred:
  "ensures P m R \<Longrightarrow> (\<And>s. P s \<Longrightarrow> P (f s)) \<Longrightarrow> ensures P (deferred f m) R"
  by (auto simp: ensures_def deferred_def split: prod.splits)

lemma ensures_True: "keeps P m \<Longrightarrow> (\<And>x. R x) \<Longrightarrow> ensures P m R"
  by (simp add: ensures_def keeps_def)

subsection \<open>Lists\<close>

lemma list_all_takeI: "list_all P xs \<Longrightarrow> list_all P (take n xs)"
  by (auto simp: list_all_iff dest: in_set_takeD)

lemma filter_filter_weaker: "(\<And>x. P x \<Longrightarrow> Q x) \<Longrightarrow> filter P (filter Q xs) = filter P xs"
  by (induction xs) auto

end
