(* ===== verification/GoLib.thy ===== *)
theory GoLib
  imports Prelude
begin

text \<open>
  The parts of Go's standard library that the daemon's results depend on: UTF-8 decoding
  as \<^verbatim>\<open>strings.Map\<close> does it, the \<^verbatim>\<open>strings\<close> functions, the number formats of \<^verbatim>\<open>fmt\<close>,
  the 32-bit FNV-1a hash, and the \<^verbatim>\<open>encoding/gob\<close> wire format. A Go string is a list of
  bytes (Isabelle's \<^typ>\<open>char\<close> has exactly 256 values); a \<^verbatim>\<open>[]byte\<close> is a list of
  8-bit words.
\<close>

unbundle bit_operations_syntax

subsection \<open>Strings and bytes\<close>

definition bytes_of :: "string \<Rightarrow> byte list" where
  "bytes_of s = map of_char s"

definition string_of :: "byte list \<Rightarrow> string" where
  "string_of bs = map (\<lambda>b. char_of (unat b)) bs"

lemma length_bytes_of [simp]: "length (bytes_of s) = length s"
  by (simp add: bytes_of_def)

lemma length_string_of [simp]: "length (string_of bs) = length bs"
  by (simp add: string_of_def)

lemma unat_of_char [simp]: "unat (of_char c :: byte) = of_char c"
proof -
  have "unat (of_nat (of_char c) :: byte) = of_char c mod 2 ^ LENGTH(8)"
    by (rule unat_of_nat)
  then show ?thesis
    by (simp add: of_nat_of_char)
qed

lemma char_of_byte_of_char [simp]: "char_of (unat (of_char c :: byte)) = c"
  by simp

lemma string_of_bytes_of [simp]: "string_of (bytes_of s) = s"
  by (simp add: string_of_def bytes_of_def o_def)

lemma bytes_of_inject [simp]: "bytes_of s = bytes_of t \<longleftrightarrow> s = t"
  by (metis string_of_bytes_of)

lemma bytes_of_append: "bytes_of (s @ t) = bytes_of s @ bytes_of t"
  by (simp add: bytes_of_def)

definition HasPrefix :: "string \<Rightarrow> string \<Rightarrow> bool" where
  "HasPrefix s p \<longleftrightarrow> take (length p) s = p"

text \<open>\<^verbatim>\<open>strings.ReplaceAll\<close> of a one-byte string by a one-byte or empty string.\<close>

definition ReplaceAll1 :: "char \<Rightarrow> string \<Rightarrow> string \<Rightarrow> string" where
  "ReplaceAll1 c new s = concat (map (\<lambda>x. if x = c then new else [x]) s)"

text \<open>\<^verbatim>\<open>strings.Split\<close> at a one-byte separator: never empty, and joined again it is the input.\<close>

fun Split :: "char \<Rightarrow> string \<Rightarrow> string list" where
  "Split sep [] = [[]]"
| "Split sep (x # xs) =
     (if x = sep then [] # Split sep xs
      else case Split sep xs of [] \<Rightarrow> [[x]] | w # ws \<Rightarrow> (x # w) # ws)"

lemma Split_not_Nil [simp]: "Split sep s \<noteq> []"
  by (induction s) (auto split: list.splits)

fun join_with :: "string \<Rightarrow> string list \<Rightarrow> string" where
  "join_with sep [] = []"
| "join_with sep [w] = w"
| "join_with sep (w # ws) = w @ sep @ join_with sep ws"

lemma join_with_Cons: "ws \<noteq> [] \<Longrightarrow> join_with sep (w # ws) = w @ sep @ join_with sep ws"
  by (cases ws) auto

lemma join_with_Cons_append: "join_with sep ((u @ w) # ws) = u @ join_with sep (w # ws)"
  by (cases ws) auto

lemma join_Split: "join_with [sep] (Split sep s) = s"
proof (induction s)
  case Nil
  then show ?case by simp
next
  case (Cons x xs)
  obtain w ws where sp: "Split sep xs = w # ws"
    using Split_not_Nil by (cases "Split sep xs") auto
  then show ?case
    using Cons join_with_Cons_append [of "[sep]" "[x]" w ws]
    by (auto simp: join_with_Cons simp del: join_with.simps(3))
qed

lemma Split_no_sep: "w \<in> set (Split sep s) \<Longrightarrow> sep \<notin> set w"
proof (induction s arbitrary: w)
  case Nil
  then show ?case by simp
next
  case (Cons x xs)
  obtain v vs where sp: "Split sep xs = v # vs"
    using Split_not_Nil by (cases "Split sep xs") auto
  with Cons.IH have "sep \<notin> set v" and "\<And>u. u \<in> set vs \<Longrightarrow> sep \<notin> set u"
    by simp_all
  with Cons.prems sp show ?case
    by (auto split: if_splits)
qed

subsection \<open>Runes\<close>

text \<open>
  \<^verbatim>\<open>utf8.DecodeRuneInString\<close>: the first rune of a non-empty string and its width in bytes.
  An invalid or truncated sequence is the replacement rune U+FFFD of width 1. The second
  byte of a three- or four-byte sequence has a restricted range after E0, ED, F0 and F4
  (no overlong forms, no surrogates, nothing beyond U+10FFFF).
\<close>

definition RuneError :: nat where
  "RuneError = 0xFFFD"

definition cont_byte :: "nat \<Rightarrow> bool" where
  "cont_byte b \<longleftrightarrow> 0x80 \<le> b \<and> b \<le> 0xBF"

definition second_ok :: "nat \<Rightarrow> nat \<Rightarrow> bool" where
  "second_ok b0 b1 \<longleftrightarrow>
     (if b0 = 0xE0 then 0xA0 else if b0 = 0xF0 then 0x90 else 0x80) \<le> b1 \<and>
     b1 \<le> (if b0 = 0xED then 0x9F else if b0 = 0xF4 then 0x8F else 0xBF)"

definition DecodeRune :: "string \<Rightarrow> nat \<times> nat" where
  "DecodeRune s =
     (case map of_char s of
        [] \<Rightarrow> (RuneError, 0)
      | b0 # bs \<Rightarrow>
          if b0 < 0x80 then (b0, 1)
          else if 0xC2 \<le> b0 \<and> b0 \<le> 0xDF then
            (case bs of
               b1 # _ \<Rightarrow> if cont_byte b1 then ((b0 - 0xC0) * 64 + (b1 - 0x80), 2) else (RuneError, 1)
             | [] \<Rightarrow> (RuneError, 1))
          else if 0xE0 \<le> b0 \<and> b0 \<le> 0xEF then
            (case bs of
               b1 # b2 # _ \<Rightarrow>
                 if second_ok b0 b1 \<and> cont_byte b2
                 then ((b0 - 0xE0) * 4096 + (b1 - 0x80) * 64 + (b2 - 0x80), 3) else (RuneError, 1)
             | _ \<Rightarrow> (RuneError, 1))
          else if 0xF0 \<le> b0 \<and> b0 \<le> 0xF4 then
            (case bs of
               b1 # b2 # b3 # _ \<Rightarrow>
                 if second_ok b0 b1 \<and> cont_byte b2 \<and> cont_byte b3
                 then ((b0 - 0xF0) * 262144 + (b1 - 0x80) * 4096 + (b2 - 0x80) * 64 + (b3 - 0x80), 4)
                 else (RuneError, 1)
             | _ \<Rightarrow> (RuneError, 1))
          else (RuneError, 1))"

text \<open>The runes of a string, as \<^verbatim>\<open>for _, r := range s\<close> yields them.\<close>

function runes :: "string \<Rightarrow> nat list" where
  "runes [] = []"
| "runes (c # cs) =
     (let (r, w) = DecodeRune (c # cs) in r # runes (drop (w - 1) cs))"
  by pat_completeness auto
termination
  by (relation "measure length") auto

text \<open>\<^verbatim>\<open>utf8.AppendRune\<close>; surrogates and values beyond U+10FFFF become U+FFFD.\<close>

definition EncodeRune :: "nat \<Rightarrow> string" where
  "EncodeRune r0 =
     (let r = (if r0 > 0x10FFFF \<or> (0xD800 \<le> r0 \<and> r0 \<le> 0xDFFF) then RuneError else r0)
      in map char_of
        (if r < 0x80 then [r]
         else if r < 0x800 then [0xC0 + r div 64, 0x80 + r mod 64]
         else if r < 0x10000 then [0xE0 + r div 4096, 0x80 + r div 64 mod 64, 0x80 + r mod 64]
         else [0xF0 + r div 262144, 0x80 + r div 4096 mod 64, 0x80 + r div 64 mod 64, 0x80 + r mod 64]))"

text \<open>\<^verbatim>\<open>strings.Map\<close> for a mapping that drops no rune.\<close>

definition strings_Map :: "(nat \<Rightarrow> nat) \<Rightarrow> string \<Rightarrow> string" where
  "strings_Map f s = concat (map (\<lambda>r. EncodeRune (f r)) (runes s))"

lemma DecodeRune_width: "1 \<le> snd (DecodeRune (c # cs))"
  by (simp add: DecodeRune_def split: list.split)

lemma DecodeRune_ascii: "(of_char c :: nat) < 128 \<Longrightarrow> DecodeRune (c # cs) = (of_char c, 1)"
  by (simp add: DecodeRune_def)

lemma length_runes: "length (runes s) \<le> length s"
proof (induction s rule: runes.induct)
  case 1
  then show ?case by simp
next
  case (2 c cs)
  obtain r w where rw: "DecodeRune (c # cs) = (r, w)" by (cases "DecodeRune (c # cs)")
  have "length (runes (drop (w - 1) cs)) \<le> length (drop (w - 1) cs)"
    using "2.IH" [OF rw [symmetric] refl] by simp
  with rw show ?case by simp
qed

lemma runes_ascii: "\<forall>c \<in> set s. (of_char c :: nat) < 128 \<Longrightarrow> runes s = map of_char s"
  by (induction s) (auto simp: DecodeRune_ascii)

lemma EncodeRune_ascii: "r < 128 \<Longrightarrow> EncodeRune r = [char_of r]"
  by (simp add: EncodeRune_def Let_def)

lemma length_strings_Map_ascii:
  assumes "\<And>r. f r < 128"
  shows "length (strings_Map f s) = length (runes s)"
proof -
  have "concat (map (\<lambda>r. EncodeRune (f r)) rs) = map (\<lambda>r. char_of (f r)) rs" for rs
    by (induction rs) (simp_all add: EncodeRune_ascii assms)
  then show ?thesis by (simp add: strings_Map_def)
qed

lemma strings_Map_ascii_eq:
  assumes "\<And>r. f r < 128"
  shows "strings_Map f s = map (\<lambda>r. char_of (f r)) (runes s)"
proof -
  have "concat (map (\<lambda>r. EncodeRune (f r)) rs) = map (\<lambda>r. char_of (f r)) rs" for rs
    by (induction rs) (simp_all add: EncodeRune_ascii assms)
  then show ?thesis by (simp add: strings_Map_def)
qed

subsection \<open>Cutting and trimming\<close>

text \<open>\<^verbatim>\<open>strings.Cut\<close>: what stands before and after the first separator, and whether there is one.\<close>

fun Cut :: "string \<Rightarrow> string \<Rightarrow> string \<times> string \<times> bool" where
  "Cut [] sep = ([], [], sep = [])"
| "Cut (c # cs) sep =
     (if HasPrefix (c # cs) sep then ([], drop (length sep) (c # cs), True)
      else case Cut cs sep of (before, after, found) \<Rightarrow> (c # before, after, found))"

lemma Cut_found: "Cut s sep = (before, after, True) \<Longrightarrow> s = before @ sep @ after"
proof (induction s arbitrary: before)
  case Nil
  then show ?case by simp
next
  case (Cons c cs)
  show ?case
  proof (cases "HasPrefix (c # cs) sep")
    case True
    with Cons.prems show ?thesis
      by (auto simp: HasPrefix_def) (metis append_take_drop_id)
  next
    case False
    with Cons.prems obtain b where "Cut cs sep = (b, after, True)" "before = c # b"
      by (auto split: prod.splits)
    with Cons.IH show ?thesis by simp
  qed
qed

definition Contains :: "string \<Rightarrow> string \<Rightarrow> bool" where
  "Contains s sub = snd (snd (Cut s sub))"

text \<open>
  \<^verbatim>\<open>strings.TrimSpace\<close>: the runes of unicode.IsSpace are removed at both ends. A string starts
  (ends) with such a rune exactly when it starts (ends) with the rune's encoding; the list holds
  the encodings of U+0009 to U+000D, U+0020, U+0085, U+00A0, U+1680, U+2000 to U+200A, U+2028,
  U+2029, U+202F, U+205F and U+3000.
\<close>

definition space_encodings :: "string list" where
  "space_encodings =
     [[CHR 0x09], [CHR 0x0A], [CHR 0x0B], [CHR 0x0C], [CHR 0x0D], [CHR 0x20],
      [CHR 0xC2, CHR 0x85], [CHR 0xC2, CHR 0xA0], [CHR 0xE1, CHR 0x9A, CHR 0x80]] @
     map (\<lambda>c. [CHR 0xE2, CHR 0x80, c])
       [CHR 0x80, CHR 0x81, CHR 0x82, CHR 0x83, CHR 0x84, CHR 0x85, CHR 0x86, CHR 0x87, CHR 0x88,
        CHR 0x89, CHR 0x8A, CHR 0xA8, CHR 0xA9, CHR 0xAF] @
     [[CHR 0xE2, CHR 0x81, CHR 0x9F], [CHR 0xE3, CHR 0x80, CHR 0x80]]"

function trim_with :: "string list \<Rightarrow> string \<Rightarrow> string" where
  "trim_with encs s =
     (case find (\<lambda>e. e \<noteq> [] \<and> HasPrefix s e) encs of
        None \<Rightarrow> s
      | Some e \<Rightarrow> trim_with encs (drop (length e) s))"
  by pat_completeness auto
termination
proof (relation "measure (\<lambda>(encs, s). length s)", goal_cases)
  case 1
  then show ?case by simp
next
  case (2 encs s e)
  then have "e \<noteq> []" "take (length e) s = e" by (auto simp: find_Some_iff HasPrefix_def)
  then have "0 < length e" "length e \<le> length s"
    by auto (metis length_take min.cobounded1)
  then have "length s - length e < length s" by linarith
  then show ?case by simp
qed

declare trim_with.simps [simp del]

definition TrimSpace :: "string \<Rightarrow> string" where
  "TrimSpace s =
     rev (trim_with (map rev space_encodings) (rev (trim_with space_encodings s)))"

subsection \<open>Number formats\<close>

text \<open>\<^verbatim>\<open>%d\<close> and \<^verbatim>\<open>%x\<close> of an unsigned number: digits without leading zeros.\<close>

definition digit_char :: "int \<Rightarrow> char" where
  "digit_char d = char_of (nat (if d < 10 then 48 + d else 87 + d))"

function digits_base :: "int \<Rightarrow> int \<Rightarrow> string" where
  "digits_base b n =
     (if b < 2 \<or> n < b then [digit_char n] else digits_base b (n div b) @ [digit_char (n mod b)])"
  by pat_completeness auto
termination
proof (relation "measure (\<lambda>(b, n). nat n)")
  fix b n :: int
  assume "\<not> (b < 2 \<or> n < b)"
  then have "n div b < n" and "0 \<le> n div b"
    by (simp_all add: int_div_less_self pos_imp_zdiv_nonneg_iff)
  then show "((b, n div b), (b, n)) \<in> measure (\<lambda>(b, n). nat n)"
    by simp
qed simp

declare digits_base.simps [simp del]

definition fmt_d :: "nat \<Rightarrow> string" where
  "fmt_d n = digits_base 10 (int n)"

definition fmt_int :: "int \<Rightarrow> string" where
  "fmt_int i = (if i < 0 then CHR ''-'' # digits_base 10 (- i) else digits_base 10 i)"

definition fmt_x :: "u32 \<Rightarrow> string" where
  "fmt_x h = digits_base 16 (uint h)"

text \<open>\<^verbatim>\<open>%08x\<close>: padded with zeros to eight digits.\<close>

definition fmt_08x :: "u32 \<Rightarrow> string" where
  "fmt_08x h = (let ds = fmt_x h in replicate (8 - length ds) (CHR ''0'') @ ds)"

lemma digits_base_not_Nil [simp]: "digits_base b n \<noteq> []"
  by (subst digits_base.simps) simp

lemma length_digits_base: "n < b ^ Suc k \<Longrightarrow> 2 \<le> b \<Longrightarrow> length (digits_base b n) \<le> Suc k"
proof (induction k arbitrary: n)
  case 0
  then show ?case by (subst digits_base.simps) simp
next
  case (Suc k)
  show ?case
  proof (cases "n < b")
    case True
    then show ?thesis by (subst digits_base.simps) simp
  next
    case False
    have "n div b < b ^ Suc k"
    proof (rule ccontr)
      assume "\<not> n div b < b ^ Suc k"
      with Suc.prems(2) have "b ^ Suc k * b \<le> n div b * b"
        by (simp add: mult_right_mono)
      also have "\<dots> \<le> n"
        using Suc.prems(2) by (simp add: minus_mod_eq_div_mult [symmetric])
      finally show False
        using Suc.prems(1) by (simp add: mult.commute)
    qed
    from Suc.IH [OF this] Suc.prems(2) False show ?thesis
      by (subst digits_base.simps) simp
  qed
qed

lemma length_fmt_x: "length (fmt_x h) \<le> 8"
proof -
  have "uint h < 16 ^ Suc 7"
    using uint_bounded [of h] by simp
  from length_digits_base [OF this] show ?thesis
    by (simp add: fmt_x_def)
qed

lemma length_fmt_08x [simp]: "length (fmt_08x h) = 8"
  using length_fmt_x [of h] by (simp add: fmt_08x_def Let_def)

lemma digits_base_digits:
  "2 \<le> b \<Longrightarrow> 0 \<le> n \<Longrightarrow> c \<in> set (digits_base b n) \<Longrightarrow> \<exists>d. 0 \<le> d \<and> d < b \<and> c = digit_char d"
proof (induction b n rule: digits_base.induct)
  case (1 b n)
  show ?case
  proof (cases "n < b")
    case True
    with "1.prems" show ?thesis by (auto simp: digits_base.simps [of b n])
  next
    case False
    with "1.prems" consider "c \<in> set (digits_base b (n div b))" | "c = digit_char (n mod b)"
      by (auto simp: digits_base.simps [of b n])
    then show ?thesis
    proof cases
      case 1
      with False "1.prems" "1.IH" show ?thesis by (simp add: pos_imp_zdiv_nonneg_iff)
    next
      case 2
      with "1.prems" show ?thesis by (auto intro!: exI [of _ "n mod b"])
    qed
  qed
qed

subsection \<open>FNV-1a\<close>

text \<open>\<^verbatim>\<open>fnv.New32a()\<close>, \<^verbatim>\<open>Write\<close>, \<^verbatim>\<open>Sum32\<close>: xor each byte into the state, multiply by the prime.\<close>

definition fnv32a :: "byte list \<Rightarrow> u32" where
  "fnv32a bs = fold (\<lambda>b h. (h XOR ucast b) * 16777619) bs 2166136261"

subsection \<open>Gob\<close>

text \<open>
  \<^verbatim>\<open>gob.NewEncoder(&buf).Encode(v)\<close>. An unsigned integer below 128 is one byte; otherwise
  the negated byte count and the value in big-endian order. A signed integer is zig-zag
  encoded. A struct is a list of (field number delta, value) pairs with zero values left
  out, ended by 0. Every message starts with its length and its type number; a message
  whose value is not a struct has a 0 byte before the value.
\<close>

function be_digits :: "int \<Rightarrow> byte list" where
  "be_digits n = (if n < 256 then [of_int n] else be_digits (n div 256) @ [of_int (n mod 256)])"
  by pat_completeness auto
termination
  by (relation "measure nat") auto

declare be_digits.simps [simp del]

definition gob_uint :: "int \<Rightarrow> byte list" where
  "gob_uint n =
     (if n < 128 then [of_int n]
      else let ds = be_digits n in of_int (256 - int (length ds)) # ds)"

definition gob_int :: "int \<Rightarrow> byte list" where
  "gob_int i = gob_uint (if i < 0 then 2 * (- i - 1) + 1 else 2 * i)"

definition gob_bytes :: "byte list \<Rightarrow> byte list" where
  "gob_bytes bs = gob_uint (int (length bs)) @ bs"

text \<open>A field of a struct: \<open>None\<close> for a zero value (not sent), otherwise its encoding.\<close>

type_synonym gob_field = "byte list option"

definition uint_field :: "int \<Rightarrow> gob_field" where
  "uint_field n = (if n = 0 then None else Some (gob_uint n))"

definition int_field :: "int \<Rightarrow> gob_field" where
  "int_field i = (if i = 0 then None else Some (gob_int i))"

definition bool_field :: "bool \<Rightarrow> gob_field" where
  "bool_field b = (if b then Some (gob_uint 1) else None)"

definition bytes_field :: "byte list \<Rightarrow> gob_field" where
  "bytes_field bs = (if bs = [] then None else Some (gob_bytes bs))"

definition strings_field :: "string list \<Rightarrow> gob_field" where
  "strings_field ss =
     (if ss = [] then None
      else Some (gob_uint (int (length ss)) @ concat (map (\<lambda>s. gob_bytes (bytes_of s)) ss)))"

text \<open>The fields in order; \<open>delta\<close> counts from the last field that was sent.\<close>

fun gob_fields :: "nat \<Rightarrow> gob_field list \<Rightarrow> byte list" where
  "gob_fields delta [] = gob_uint 0"
| "gob_fields delta (None # fs) = gob_fields (Suc delta) fs"
| "gob_fields delta (Some v # fs) = gob_uint (int delta) @ v @ gob_fields 1 fs"

definition gob_struct :: "gob_field list \<Rightarrow> byte list" where
  "gob_struct fs = gob_fields 1 fs"

definition gob_message :: "byte list \<Rightarrow> byte list" where
  "gob_message payload = gob_uint (int (length payload)) @ payload"

text \<open>\<^verbatim>\<open>Encode\<close> of a string: its predefined type number is 6.\<close>

definition gob_string :: "string \<Rightarrow> byte list" where
  "gob_string s = gob_message (gob_int 6 @ [0] @ gob_bytes (bytes_of s))"

text \<open>
  \<^verbatim>\<open>Encode\<close> of a struct sends the definition of its type first. The numbers of user types
  are handed out per process in the order of first use, so the type's number and the bytes
  of its definition are a parameter, looked up by the type's name.
\<close>

record gob_types =
  gob_id :: "string \<Rightarrow> int"
  gob_def :: "string \<Rightarrow> byte list"

definition gob_value :: "gob_types \<Rightarrow> string \<Rightarrow> gob_field list \<Rightarrow> byte list" where
  "gob_value G ty fs = gob_def G ty @ gob_message (gob_int (gob_id G ty) @ gob_struct fs)"

end
