(* ===== verification/Nft.thy ===== *)
theory Nft
  imports GoLib
begin

text \<open>
  The vendored package github.com/google/nftables as the daemon uses it: tables, chains,
  sets, rules and expressions, the comment encoding of package userdata, the byte order
  helpers of binaryutil, and the connection, which buffers every change and sends the
  buffer to the kernel in one batch on Flush.

  The kernel is not part of the sources. It is a parameter: a state of any type with the
  list and get requests of the netlink interface, and the commit of a batch. Reads see the
  committed state only, never the buffer.
\<close>

subsection \<open>Data\<close>

type_synonym tableFamily = byte

definition TableFamilyINet :: tableFamily where
  "TableFamilyINet = 1"

record nft_table =
  tName :: string
  tFamily :: tableFamily

record nft_chain =
  cName :: string
  cTable :: nft_table
  cHooknum :: "u32 option"
  cPriority :: "int option"
  cType :: string

text \<open>
  The expressions the daemon builds or inspects, with the fields of package expr in their
  order; \<open>OtherExpr\<close> stands for every other expression a listed rule may hold.
\<close>

datatype nft_expr =
    Meta u32 bool u32
      \<comment> \<open>Key, SourceRegister, Register\<close>
  | Lookup u32 u32 bool u32 string bool
      \<comment> \<open>SourceRegister, DestRegister, IsDestRegSet, SetID, SetName, Invert\<close>
  | Verdict int string
      \<comment> \<open>Kind, Chain\<close>
  | Cmp u32 u32 "byte list"
      \<comment> \<open>Op, Register, Data\<close>
  | Payload u32 u32 u32 u32 u32 u32 u32 u32 u32
      \<comment> \<open>OperationType, DestRegister, SourceRegister, Base, Offset, Len, CsumType, CsumOffset, CsumFlags\<close>
  | Ct u32 bool u32 u32 bool
      \<comment> \<open>Register, SourceRegister, Key, Direction, OptDirection\<close>
  | Bitwise u32 u32 u32 "byte list" "byte list"
      \<comment> \<open>SourceRegister, DestRegister, Len, Mask, Xor\<close>
  | Counter u64 u64
      \<comment> \<open>Bytes, Packets\<close>
  | OtherExpr string "byte list"

text \<open>
  Of a rule's chain the code reads the name only (a rule listed by the kernel carries
  nothing else of it).
\<close>

record nft_rule =
  rTable :: nft_table
  rChain :: string
  rHandle :: u64
  rID :: u32
  rExprs :: "nft_expr list"
  rUserData :: "byte list"

datatype key_order = NoOrder | NativeOrder | BigOrder

record nft_set =
  sTable :: nft_table
  sID :: u32
  sName :: string
  sAnonymous :: bool
  sConstant :: bool
  sInterval :: bool
  sCounter :: bool
  sKeyType :: string
  sKeyByteOrder :: key_order
  sComment :: string

record set_element =
  eKey :: "byte list"
  eIntervalEnd :: bool
  eComment :: string

definition elem :: "byte list \<Rightarrow> set_element" where
  "elem k = \<lparr>eKey = k, eIntervalEnd = False, eComment = ''''\<rparr>"

definition elem_end :: "byte list \<Rightarrow> set_element" where
  "elem_end k = \<lparr>eKey = k, eIntervalEnd = True, eComment = ''''\<rparr>"

text \<open>Constants of the kernel interface (golang.org/x/sys/unix) and of package expr.\<close>

definition MetaKeyMARK :: u32 where "MetaKeyMARK = 3"
definition MetaKeyIIFNAME :: u32 where "MetaKeyIIFNAME = 6"
definition MetaKeyOIFNAME :: u32 where "MetaKeyOIFNAME = 7"
definition MetaKeyNFPROTO :: u32 where "MetaKeyNFPROTO = 15"
definition MetaKeyL4PROTO :: u32 where "MetaKeyL4PROTO = 16"
definition CmpOpEq :: u32 where "CmpOpEq = 0"
definition CmpOpNeq :: u32 where "CmpOpNeq = 1"
definition PayloadBaseNetworkHeader :: u32 where "PayloadBaseNetworkHeader = 1"
definition PayloadBaseTransportHeader :: u32 where "PayloadBaseTransportHeader = 2"
definition CtKeySTATE :: u32 where "CtKeySTATE = 0"
definition CtStateBitESTABLISHED :: u32 where "CtStateBitESTABLISHED = 2"
definition CtStateBitRELATED :: u32 where "CtStateBitRELATED = 4"
definition NFPROTO_IPV4 :: byte where "NFPROTO_IPV4 = 2"
definition NFPROTO_IPV6 :: byte where "NFPROTO_IPV6 = 10"
definition IPPROTO_ICMP :: byte where "IPPROTO_ICMP = 1"
definition IPPROTO_TCP :: byte where "IPPROTO_TCP = 6"
definition IPPROTO_UDP :: byte where "IPPROTO_UDP = 17"
definition IPPROTO_ICMPV6 :: byte where "IPPROTO_ICMPV6 = 58"
definition IPPROTO_SCTP :: byte where "IPPROTO_SCTP = 132"
definition VerdictReturn :: int where "VerdictReturn = -5"
definition VerdictGoto :: int where "VerdictGoto = -4"
definition VerdictJump :: int where "VerdictJump = -3"
definition VerdictDrop :: int where "VerdictDrop = 0"
definition VerdictAccept :: int where "VerdictAccept = 1"

lemmas nft_consts =
  MetaKeyMARK_def MetaKeyIIFNAME_def MetaKeyOIFNAME_def MetaKeyNFPROTO_def MetaKeyL4PROTO_def
  CmpOpEq_def CmpOpNeq_def PayloadBaseNetworkHeader_def PayloadBaseTransportHeader_def
  CtKeySTATE_def CtStateBitESTABLISHED_def CtStateBitRELATED_def NFPROTO_IPV4_def NFPROTO_IPV6_def
  IPPROTO_ICMP_def IPPROTO_TCP_def IPPROTO_UDP_def IPPROTO_ICMPV6_def IPPROTO_SCTP_def
  VerdictReturn_def VerdictGoto_def VerdictJump_def VerdictDrop_def VerdictAccept_def
  TableFamilyINet_def

subsection \<open>Byte order\<close>

definition BigEndian_PutUint16 :: "u16 \<Rightarrow> byte list" where
  "BigEndian_PutUint16 v = [ucast (drop_bit 8 v), ucast v]"

definition BigEndian_PutUint32 :: "u32 \<Rightarrow> byte list" where
  "BigEndian_PutUint32 v =
     [ucast (drop_bit 24 v), ucast (drop_bit 16 v), ucast (drop_bit 8 v), ucast v]"

text \<open>\<^verbatim>\<open>binaryutil.NativeEndian\<close>: the byte order of the host (\<open>True\<close>: big-endian).\<close>

definition NativeEndian_PutUint32 :: "bool \<Rightarrow> u32 \<Rightarrow> byte list" where
  "NativeEndian_PutUint32 be v = (if be then BigEndian_PutUint32 v else rev (BigEndian_PutUint32 v))"

subsection \<open>Comments in user data\<close>

definition TypeComment :: byte where
  "TypeComment = 0"

definition userdata_Append :: "byte list \<Rightarrow> byte \<Rightarrow> byte list \<Rightarrow> byte list" where
  "userdata_Append udata typ data = udata @ [typ, of_nat (length data)] @ data"

definition userdata_AppendString :: "byte list \<Rightarrow> byte \<Rightarrow> string \<Rightarrow> byte list" where
  "userdata_AppendString udata typ str = userdata_Append udata typ (bytes_of str @ [0])"

text \<open>
  \<^verbatim>\<open>userdata.Get\<close>: the first entry of the type. A length byte that points past the end
  makes the slice expression panic.
\<close>

function userdata_Get :: "byte list \<Rightarrow> byte \<Rightarrow> byte list option result" where
  "userdata_Get [] styp = Inr None"
| "userdata_Get [b] styp = Inr None"
| "userdata_Get (typ # len # rest) styp =
     (if length rest < unat len then Inl (Panic ''slice bounds out of range'')
      else if styp = typ then Inr (Some (take (unat len) rest))
      else userdata_Get (drop (unat len) rest) styp)"
  by pat_completeness auto
termination
  by (relation "measure (\<lambda>(u, t). length u)") auto

definition CutSuffix0 :: "byte list \<Rightarrow> byte list" where
  "CutSuffix0 bs = (if bs \<noteq> [] \<and> last bs = 0 then butlast bs else bs)"

definition userdata_GetString :: "byte list \<Rightarrow> byte \<Rightarrow> string option result" where
  "userdata_GetString udata typ =
     (case userdata_Get udata typ of
        Inl e \<Rightarrow> Inl e
      | Inr None \<Rightarrow> Inr None
      | Inr (Some data) \<Rightarrow> Inr (Some (string_of (CutSuffix0 data))))"

lemma userdata_GetString_AppendString:
  assumes "length str \<le> 254"
  shows "userdata_GetString (userdata_AppendString [] typ str) typ = Inr (Some str)"
proof -
  have "unat (of_nat (Suc (length str)) :: byte) = Suc (length str)"
    using assms by (simp add: unat_of_nat del: of_nat_Suc)
  then have "userdata_Get (userdata_AppendString [] typ str) typ = Inr (Some (bytes_of str @ [0]))"
    by (simp add: userdata_AppendString_def userdata_Append_def del: of_nat_Suc)
  then show ?thesis
    by (simp add: userdata_GetString_def CutSuffix0_def)
qed

subsection \<open>The connection\<close>

datatype rule_op = OpAdd | OpInsert | OpReplace

datatype nft_msg =
    MsgNewTable nft_table
  | MsgDelTable nft_table
  | MsgNewChain nft_chain
  | MsgDelChain nft_chain
  | MsgNewRule rule_op nft_rule
  | MsgDelRule nft_rule
  | MsgNewSet nft_set nat
  | MsgDelSet nft_set
  | MsgNewSetElem nft_set "set_element list"
  | MsgDelSetElem nft_set "set_element list"

text \<open>
  The kernel as the connection sees it: reads of the committed state, commit of a batch. What
  it reports is an error number; the two that Go's package os has a name for are matched by
  \<^verbatim>\<open>errors.Is\<close>, and none of them is a panic.
\<close>

datatype nl_error = ENOENT | EEXIST | NlError string

type_synonym 'a answer = "nl_error + 'a"

fun nl_err :: "nl_error \<Rightarrow> go_error" where
  "nl_err ENOENT = ErrNotExist"
| "nl_err EEXIST = ErrExist"
| "nl_err (NlError t) = ErrText t"

fun answer :: "'a answer \<Rightarrow> 'a result" where
  "answer (Inl e) = Inl (nl_err e)"
| "answer (Inr x) = Inr x"

lemma wrap_error_nl_err [simp]: "wrap_error t (nl_err e) = Wrap t (nl_err e)"
  by (cases e) simp_all

lemma is_panic_answer [simp]: "\<not> is_panic (answer r)" "\<not> is_panic (Inl (nl_err e))"
  by (cases r; cases "projl r"; simp) (cases e; simp)

lemma answer_Inr [simp]: "answer r = Inr x \<longleftrightarrow> r = Inr x"
  by (cases r) simp_all

record 'k kernel =
  k_tables :: "'k \<Rightarrow> tableFamily \<Rightarrow> nft_table list answer"
  k_table :: "'k \<Rightarrow> tableFamily \<Rightarrow> string \<Rightarrow> nft_table answer"
  k_chains :: "'k \<Rightarrow> tableFamily \<Rightarrow> nft_chain list answer"
  k_chain :: "'k \<Rightarrow> nft_table \<Rightarrow> string \<Rightarrow> nft_chain answer"
  k_rules :: "'k \<Rightarrow> nft_table \<Rightarrow> string \<Rightarrow> nft_rule list answer"
  k_sets :: "'k \<Rightarrow> nft_table \<Rightarrow> nft_set list answer"
  k_set :: "'k \<Rightarrow> nft_table \<Rightarrow> string \<Rightarrow> nft_set answer"
  k_elems :: "'k \<Rightarrow> nft_set \<Rightarrow> set_element list answer"
  k_commit :: "'k \<Rightarrow> nft_msg list \<Rightarrow> nl_error option \<times> 'k"

record 'k conn =
  kst :: 'k
  messages :: "nft_msg list"
  lastID :: u32
  allocatedIDs :: u32
  connErr :: "go_error option"

definition new_conn :: "'k \<Rightarrow> 'k conn" where
  "new_conn k = \<lparr>kst = k, messages = [], lastID = 0, allocatedIDs = 0, connErr = None\<rparr>"

definition setErr :: "go_error \<Rightarrow> ('k conn, unit) comp" where
  "setErr e = modify (\<lambda>c. case connErr c of None \<Rightarrow> c\<lparr>connErr := Some e\<rparr> | Some _ \<Rightarrow> c)"

definition buffer :: "nft_msg \<Rightarrow> ('k conn, unit) comp" where
  "buffer msg = modify (\<lambda>c. c\<lparr>messages := messages c @ [msg]\<rparr>)"

definition allocateTransactionID :: "('k conn, u32) comp" where
  "allocateTransactionID =
     seq (gets allocatedIDs) (\<lambda>n.
     if n = 0xFFFFFFFF then fail (Panic ''trying to allocate more IDs in a single nftables transaction'')
     else
     seq (modify (\<lambda>c. c\<lparr>allocatedIDs := allocatedIDs c + 1,
                        lastID := (if lastID c + 1 = 0 then 1 else lastID c + 1)\<rparr>)) (\<lambda>_.
     gets lastID))"

definition ListTablesOfFamily :: "'k kernel \<Rightarrow> tableFamily \<Rightarrow> ('k conn, nft_table list) comp" where
  "ListTablesOfFamily K fam = reads (\<lambda>c. answer (k_tables K (kst c) fam))"

definition ListTableOfFamily :: "'k kernel \<Rightarrow> string \<Rightarrow> tableFamily \<Rightarrow> ('k conn, nft_table) comp" where
  "ListTableOfFamily K name fam = reads (\<lambda>c. answer (k_table K (kst c) fam name))"

definition ListChainsOfTableFamily :: "'k kernel \<Rightarrow> tableFamily \<Rightarrow> ('k conn, nft_chain list) comp" where
  "ListChainsOfTableFamily K fam = reads (\<lambda>c. answer (k_chains K (kst c) fam))"

definition ListChain :: "'k kernel \<Rightarrow> nft_table \<Rightarrow> string \<Rightarrow> ('k conn, nft_chain) comp" where
  "ListChain K t name = reads (\<lambda>c. answer (k_chain K (kst c) t name))"

definition GetRules :: "'k kernel \<Rightarrow> nft_table \<Rightarrow> string \<Rightarrow> ('k conn, nft_rule list) comp" where
  "GetRules K t chain = reads (\<lambda>c. answer (k_rules K (kst c) t chain))"

definition GetSets :: "'k kernel \<Rightarrow> nft_table \<Rightarrow> ('k conn, nft_set list) comp" where
  "GetSets K t = reads (\<lambda>c. answer (k_sets K (kst c) t))"

definition GetSetByName :: "'k kernel \<Rightarrow> nft_table \<Rightarrow> string \<Rightarrow> ('k conn, nft_set) comp" where
  "GetSetByName K t name = reads (\<lambda>c. answer (k_set K (kst c) t name))"

definition GetSetElements :: "'k kernel \<Rightarrow> nft_set \<Rightarrow> ('k conn, set_element list) comp" where
  "GetSetElements K s = reads (\<lambda>c. answer (k_elems K (kst c) s))"

definition AddTable :: "nft_table \<Rightarrow> ('k conn, nft_table) comp" where
  "AddTable t = seq (buffer (MsgNewTable t)) (\<lambda>_. ret t)"

definition DelTable :: "nft_table \<Rightarrow> ('k conn, unit) comp" where
  "DelTable t = buffer (MsgDelTable t)"

definition AddChain :: "nft_chain \<Rightarrow> ('k conn, nft_chain) comp" where
  "AddChain c = seq (buffer (MsgNewChain c)) (\<lambda>_. ret c)"

definition DelChain :: "nft_chain \<Rightarrow> ('k conn, unit) comp" where
  "DelChain c = buffer (MsgDelChain c)"

text \<open>A new rule gets a transaction ID; a rule with a handle replaces the rule of that handle.\<close>

definition newRule :: "rule_op \<Rightarrow> nft_rule \<Rightarrow> ('k conn, nft_rule) comp" where
  "newRule op r =
     (if rHandle r \<noteq> 0 then seq (buffer (MsgNewRule op r)) (\<lambda>_. ret r)
      else seq allocateTransactionID (\<lambda>i.
           seq (buffer (MsgNewRule op (r\<lparr>rID := i\<rparr>))) (\<lambda>_. ret (r\<lparr>rID := i\<rparr>))))"

definition AddRule :: "nft_rule \<Rightarrow> ('k conn, nft_rule) comp" where
  "AddRule r = newRule (if rHandle r \<noteq> 0 then OpReplace else OpAdd) r"

definition InsertRule :: "nft_rule \<Rightarrow> ('k conn, nft_rule) comp" where
  "InsertRule r = newRule (if rHandle r \<noteq> 0 then OpReplace else OpInsert) r"

definition DelRule :: "nft_rule \<Rightarrow> ('k conn, unit) comp" where
  "DelRule r =
     (if rHandle r = 0 \<and> rID r = 0
      then seq (setErr (ErrText ''rule must have a handle or ID'')) (\<lambda>_.
           fail (ErrText ''rule must have a handle or ID''))
      else buffer (MsgDelRule r))"

text \<open>
  Elements are sent in as many messages as their encoded size needs; here they are one
  message, since the messages of one call follow each other in the same batch.
\<close>

definition appendElemList :: "(set_element list \<Rightarrow> nft_msg) \<Rightarrow> set_element list \<Rightarrow> ('k conn, unit) comp" where
  "appendElemList mk vals = (if vals = [] then ret () else buffer (mk vals))"

definition SetAddElements :: "nft_set \<Rightarrow> set_element list \<Rightarrow> ('k conn, unit) comp" where
  "SetAddElements s vals =
     (if sAnonymous s
      then seq (setErr (ErrText ''anonymous sets cannot be updated'')) (\<lambda>_.
           fail (ErrText ''anonymous sets cannot be updated''))
      else appendElemList (MsgNewSetElem s) vals)"

definition SetDeleteElements :: "nft_set \<Rightarrow> set_element list \<Rightarrow> ('k conn, unit) comp" where
  "SetDeleteElements s vals =
     (if sAnonymous s
      then seq (setErr (ErrText ''anonymous sets cannot be updated'')) (\<lambda>_.
           fail (ErrText ''anonymous sets cannot be updated''))
      else appendElemList (MsgDelSetElem s) vals)"

text \<open>AddSet numbers a set that has no ID yet and returns the set with its number.\<close>

definition AddSet :: "nft_set \<Rightarrow> set_element list \<Rightarrow> ('k conn, nft_set) comp" where
  "AddSet s vals =
     (if sAnonymous s \<and> \<not> sConstant s
      then seq (setErr (ErrText ''anonymous structs must be constant'')) (\<lambda>_.
           fail (ErrText ''anonymous structs must be constant''))
      else
      seq (if sID s = 0
           then seq allocateTransactionID (\<lambda>i.
                ret (s\<lparr>sID := i, sName := (if sAnonymous s then ''__set%d'' else sName s)\<rparr>))
           else ret s) (\<lambda>s'.
      seq (buffer (MsgNewSet s' (length vals))) (\<lambda>_.
      seq (appendElemList (MsgNewSetElem s') vals) (\<lambda>_.
      ret s'))))"

definition DelSet :: "nft_set \<Rightarrow> ('k conn, unit) comp" where
  "DelSet s = buffer (MsgDelSet s)"

text \<open>
  Flush: nothing to do for an empty buffer, the recorded error if there is one, otherwise
  one batch. The buffer, the ID count and the error are cleared in every case.
\<close>

definition Flush :: "'k kernel \<Rightarrow> ('k conn, unit) comp" where
  "Flush K = (\<lambda>c.
     let c' = c\<lparr>messages := [], allocatedIDs := 0, connErr := None\<rparr> in
     if messages c = [] then (Inr (), c')
     else case connErr c of
            Some e \<Rightarrow> (Inl e, c')
          | None \<Rightarrow>
              (case k_commit K (kst c) (messages c) of
                 (None, k') \<Rightarrow> (Inr (), c'\<lparr>kst := k'\<rparr>)
               | (Some e, k') \<Rightarrow> (Inl (nl_err e), c'\<lparr>kst := k'\<rparr>)))"

end
