(* ===== verification/Addr.thy ===== *)
theory Addr
  imports Nft
begin

text \<open>
  IP addresses and prefixes as the Go packages net/netip, net and strconv and the vendored
  go4.org/netipx handle them: parsing, masking, the last address of a prefix, the successor
  of an address, and the conversion to bytes.
\<close>

subsection \<open>Decimal numbers\<close>

definition is_digit :: "char \<Rightarrow> bool" where
  "is_digit c = (let n = of_char c :: int in 48 \<le> n \<and> n \<le> 57)"

definition digit_val :: "char \<Rightarrow> int" where
  "digit_val c = of_char c - 48"

fun dec_val :: "int \<Rightarrow> string \<Rightarrow> int" where
  "dec_val acc [] = acc"
| "dec_val acc (c # cs) = dec_val (acc * 10 + digit_val c) cs"

text \<open>\<^verbatim>\<open>strconv.Atoi\<close>: an optional sign, at least one digit, and a value that fits an int64.\<close>

definition Atoi :: "string \<Rightarrow> int result" where
  "Atoi s =
     (let (neg, ds) = (case s of c # cs \<Rightarrow> if c = CHR ''-'' then (True, cs)
                                           else if c = CHR ''+'' then (False, cs) else (False, s)
                              | [] \<Rightarrow> (False, [])) in
      if ds = [] \<or> \<not> list_all is_digit ds then Inl (ErrText ''invalid syntax'')
      else let v = (if neg then - dec_val 0 ds else dec_val 0 ds) in
        if v < - (2 ^ 63) \<or> 2 ^ 63 \<le> v then Inl (ErrText ''value out of range'') else Inr v)"

subsection \<open>Addresses\<close>

datatype netip_addr = Addr4 u32 | Addr6 "128 word" string
  \<comment> \<open>the second field of an IPv6 address is its zone\<close>

fun Is4 :: "netip_addr \<Rightarrow> bool" where
  "Is4 (Addr4 w) = True"
| "Is4 (Addr6 w z) = False"

definition Is6 :: "netip_addr \<Rightarrow> bool" where
  "Is6 a = (\<not> Is4 a)"

definition be_bytes :: "nat \<Rightarrow> int \<Rightarrow> byte list" where
  "be_bytes n v = map (\<lambda>i. of_int (v div 256 ^ i)) (rev [0..<n])"

fun AsSlice :: "netip_addr \<Rightarrow> byte list" where
  "AsSlice (Addr4 w) = be_bytes 4 (uint w)"
| "AsSlice (Addr6 w z) = be_bytes 16 (uint w)"

fun ipv4_fields :: "string \<Rightarrow> char option \<Rightarrow> int \<Rightarrow> nat \<Rightarrow> int list \<Rightarrow> int list result" where
  "ipv4_fields [] prev v digLen fs =
     (if length fs < 3 then Inl (ErrText ''IPv4 address too short'') else Inr (fs @ [v]))"
| "ipv4_fields (c # cs) prev v digLen fs =
     (if is_digit c then
        if digLen = 1 \<and> v = 0 then Inl (ErrText ''IPv4 field has octet with leading zero'')
        else let v' = v * 10 + digit_val c in
          if 255 < v' then Inl (ErrText ''IPv4 field has value >255'')
          else ipv4_fields cs (Some c) v' (Suc digLen) fs
      else if c = CHR ''.'' then
        if prev = None \<or> prev = Some (CHR ''.'') \<or> cs = []
        then Inl (ErrText ''IPv4 field must have at least one digit'')
        else if length fs = 3 then Inl (ErrText ''IPv4 address too long'')
        else ipv4_fields cs (Some c) 0 0 (fs @ [v])
      else Inl (ErrText ''unexpected character''))"

definition be_int :: "int list \<Rightarrow> int" where
  "be_int bs = foldl (\<lambda>a b. a * 256 + b) 0 bs"

definition parseIPv4 :: "string \<Rightarrow> netip_addr result" where
  "parseIPv4 s =
     (case ipv4_fields s None 0 0 [] of
        Inl e \<Rightarrow> Inl e
      | Inr fs \<Rightarrow> Inr (Addr4 (of_int (be_int fs))))"

definition hex_val :: "char \<Rightarrow> int" where
  "hex_val c = (let n = of_char c :: int in
     if 48 \<le> n \<and> n \<le> 57 then n - 48
     else if 97 \<le> n \<and> n \<le> 102 then n - 97 + 10
     else if 65 \<le> n \<and> n \<le> 70 then n - 65 + 10 else -1)"

definition is_hex :: "char \<Rightarrow> bool" where
  "is_hex c = (0 \<le> hex_val c)"

definition hex_group :: "string \<Rightarrow> int list" where
  "hex_group ds = (let v = foldl (\<lambda>a c. a * 16 + hex_val c) 0 ds in [v div 256, v mod 256])"

lemma dropWhile_Cons_length: "c # cs = dropWhile P s \<Longrightarrow> Suc (length cs) \<le> length s"
  by (metis length_Cons length_dropWhile_le)

text \<open>
  The loop of parseIPv6 over the colon separated fields: the rest of the string, the bytes
  so far, and where the ellipsis stood.
\<close>

function ipv6_fields :: "string \<Rightarrow> int list \<Rightarrow> nat option \<Rightarrow> (string \<times> int list \<times> nat option) result" where
  "ipv6_fields s ip ell =
     (if 16 \<le> length ip then Inr (s, ip, ell)
      else let ds = takeWhile is_hex s; rest = dropWhile is_hex s in
        if 4 < length ds then Inl (ErrText ''each group must have 4 or fewer digits'')
        else if ds = [] then Inl (ErrText ''each colon-separated field must have at least one digit'')
        else case rest of
          [] \<Rightarrow> Inr ([], ip @ hex_group ds, ell)
        | c # cs \<Rightarrow>
            if c = CHR ''.'' then
              if ell = None \<and> length ip \<noteq> 12
              then Inl (ErrText ''embedded IPv4 address must replace the final 2 fields of the address'')
              else if 16 < length ip + 4
              then Inl (ErrText ''too many hex fields to fit an embedded IPv4 at the end of the address'')
              else (case ipv4_fields s None 0 0 [] of
                      Inl e \<Rightarrow> Inl e
                    | Inr fs \<Rightarrow> Inr ([], ip @ fs, ell))
            else if c \<noteq> CHR '':'' then Inl (ErrText ''unexpected character, want colon'')
            else case cs of
                [] \<Rightarrow> Inl (ErrText ''colon must be followed by more characters'')
              | d # cs' \<Rightarrow>
                  let ip' = ip @ hex_group ds in
                  if d = CHR '':'' then
                    if ell \<noteq> None then Inl (ErrText ''multiple :: in address'')
                    else if cs' = [] then Inr ([], ip', Some (length ip'))
                    else ipv6_fields cs' ip' (Some (length ip'))
                  else ipv6_fields cs ip' ell)"
  by pat_completeness auto
termination
proof (relation "measure (\<lambda>(s, ip, ell). length s)", goal_cases)
  case 1
  then show ?case by simp
next
  case (2 s ip ell ds rest c cs d cs' ip')
  then show ?case using dropWhile_Cons_length [of c cs is_hex s] by simp
next
  case (3 s ip ell ds rest c cs d cs' ip')
  then show ?case using dropWhile_Cons_length [of c cs is_hex s] by simp
qed

definition expand_ellipsis :: "int list \<Rightarrow> nat option \<Rightarrow> int list result" where
  "expand_ellipsis ip ell =
     (if length ip < 16 then
        case ell of
          None \<Rightarrow> Inl (ErrText ''address string too short'')
        | Some e \<Rightarrow> Inr (take e ip @ replicate (16 - length ip) 0 @ drop e ip)
      else if ell \<noteq> None then Inl (ErrText ''the :: must expand to at least one field of zeros'')
      else Inr ip)"

definition cut_zone :: "string \<Rightarrow> (string \<times> string) result" where
  "cut_zone s =
     (let a = takeWhile (\<lambda>c. c \<noteq> CHR ''%'') s; r = dropWhile (\<lambda>c. c \<noteq> CHR ''%'') s in
      case r of [] \<Rightarrow> Inr (s, [])
      | _ # zone \<Rightarrow> if zone = [] then Inl (ErrText ''zone must be a non-empty string'') else Inr (a, zone))"

definition parseIPv6 :: "string \<Rightarrow> netip_addr result" where
  "parseIPv6 inp =
     (case cut_zone inp of
        Inl e \<Rightarrow> Inl e
      | Inr (s, zone) \<Rightarrow>
          let lead = (take 2 s = ''::''); s' = (if lead then drop 2 s else s) in
          if lead \<and> s' = [] then Inr (Addr6 0 zone)
          else case ipv6_fields s' [] (if lead then Some 0 else None) of
              Inl e \<Rightarrow> Inl e
            | Inr (rest, ip, ell) \<Rightarrow>
                if rest \<noteq> [] then Inl (ErrText ''trailing garbage after address'')
                else case expand_ellipsis ip ell of
                    Inl e \<Rightarrow> Inl e
                  | Inr bs \<Rightarrow> Inr (Addr6 (of_int (be_int bs)) zone))"

text \<open>\<^verbatim>\<open>netip.ParseAddr\<close>: the first dot, colon or percent sign decides the kind.\<close>

definition ParseAddr :: "string \<Rightarrow> netip_addr result" where
  "ParseAddr s =
     (case find (\<lambda>c. c = CHR ''.'' \<or> c = CHR '':'' \<or> c = CHR ''%'') s of
        None \<Rightarrow> Inl (ErrText ''unable to parse IP'')
      | Some c \<Rightarrow>
          if c = CHR ''.'' then parseIPv4 s
          else if c = CHR '':'' then parseIPv6 s
          else Inl (ErrText ''missing IPv6 address''))"

subsection \<open>Prefixes\<close>

record netip_prefix =
  pAddr :: netip_addr
  pBits :: nat

text \<open>\<^verbatim>\<open>netip.ParsePrefix\<close>: the last slash separates the address from the number of bits.\<close>

definition ParsePrefix :: "string \<Rightarrow> netip_prefix result" where
  "ParsePrefix s =
     (if CHR ''/'' \<notin> set s then Inl (ErrText ''no slash'')
      else let bitsStr = rev (takeWhile (\<lambda>c. c \<noteq> CHR ''/'') (rev s));
               addr = take (length s - length bitsStr - 1) s in
        case ParseAddr addr of
          Inl e \<Rightarrow> Inl e
        | Inr ip \<Rightarrow>
            if (case ip of Addr4 w \<Rightarrow> False | Addr6 w z \<Rightarrow> z \<noteq> [])
            then Inl (ErrText ''IPv6 zones cannot be present in a prefix'')
            else if 1 < length bitsStr \<and> \<not> (is_digit (hd bitsStr) \<and> hd bitsStr \<noteq> CHR ''0'')
            then Inl (ErrText ''bad bits after slash'')
            else case Atoi bitsStr of
                Inl e \<Rightarrow> Inl (ErrText ''bad bits after slash'')
              | Inr bits \<Rightarrow>
                  if bits < 0 \<or> (if Is6 ip then 128 else 32) < bits
                  then Inl (ErrText ''prefix length out of range'')
                  else Inr \<lparr>pAddr = ip, pBits = nat bits\<rparr>)"

text \<open>\<^verbatim>\<open>Masked().Addr()\<close>: the bits after the prefix length are cleared.\<close>

definition clear_low :: "nat \<Rightarrow> 'a::len word \<Rightarrow> 'a word" where
  "clear_low s w = w AND NOT (mask s)"

fun Masked_Addr :: "netip_addr \<Rightarrow> nat \<Rightarrow> netip_addr" where
  "Masked_Addr (Addr4 w) bits = Addr4 (clear_low (32 - bits) w)"
| "Masked_Addr (Addr6 w z) bits = Addr6 (clear_low (128 - bits) w) []"

text \<open>\<^verbatim>\<open>netipx.PrefixLastIP\<close>: a loop that sets the bits from the prefix length on.\<close>

definition set_bits_from :: "nat \<Rightarrow> nat \<Rightarrow> 'a::len word \<Rightarrow> 'a word" where
  "set_bits_from bits width w = fold (\<lambda>b. set_bit (width - 1 - b)) [bits..<width] w"

fun PrefixLastIP :: "netip_addr \<Rightarrow> nat \<Rightarrow> netip_addr" where
  "PrefixLastIP (Addr4 w) bits = Addr4 (set_bits_from bits 32 w)"
| "PrefixLastIP (Addr6 w z) bits = Addr6 (set_bits_from bits 128 w) []"

text \<open>\<^verbatim>\<open>Next\<close>: the following address; none (the zero Addr) after the last one.\<close>

fun Next :: "netip_addr \<Rightarrow> netip_addr option" where
  "Next (Addr4 w) = (if w + 1 = 0 then None else Some (Addr4 (w + 1)))"
| "Next (Addr6 w z) = (if w + 1 = 0 then None else Some (Addr6 (w + 1) z))"

text \<open>\<^verbatim>\<open>netip.Prefix.Contains\<close>: same family and equal leading bits; a zone never matches.\<close>

fun prefix_Contains :: "netip_prefix \<Rightarrow> netip_addr \<Rightarrow> bool" where
  "prefix_Contains p a =
     (case (pAddr p, a) of
        (Addr4 x, Addr4 y) \<Rightarrow> drop_bit (32 - pBits p) (x XOR y) = 0
      | (Addr6 x z, Addr6 y z') \<Rightarrow> z' = [] \<and> drop_bit (128 - pBits p) (x XOR y) = 0
      | _ \<Rightarrow> False)"

declare prefix_Contains.simps [simp del]

definition valid_prefix :: "netip_prefix \<Rightarrow> bool" where
  "valid_prefix p = (case pAddr p of Addr4 w \<Rightarrow> pBits p \<le> 32 | Addr6 w z \<Rightarrow> z = [] \<and> pBits p \<le> 128)"

subsection \<open>Package net\<close>

text \<open>\<^verbatim>\<open>net.ParseIP\<close>: 16 bytes, an IPv4 address in its IPv6-mapped form; zones are refused.\<close>

definition net_ParseIP :: "string \<Rightarrow> byte list option" where
  "net_ParseIP s =
     (case ParseAddr s of
        Inl e \<Rightarrow> None
      | Inr (Addr4 w) \<Rightarrow> Some (replicate 10 0 @ [0xff, 0xff] @ AsSlice (Addr4 w))
      | Inr (Addr6 w z) \<Rightarrow> if z \<noteq> [] then None else Some (AsSlice (Addr6 w z)))"

definition To4 :: "byte list option \<Rightarrow> byte list option" where
  "To4 ip =
     (case ip of
        None \<Rightarrow> None
      | Some bs \<Rightarrow>
          if length bs = 4 then Some bs
          else if length bs = 16 \<and> take 12 bs = replicate 10 0 @ [0xff, 0xff] then Some (drop 12 bs)
          else None)"

subsection \<open>Masks and ranges\<close>

lemma set_bits_from_eq:
  assumes "bits \<le> width" "width \<le> LENGTH('a)"
  shows "set_bits_from bits width w = (w :: 'a::len word) OR mask (width - bits)"
proof -
  have *: "bit (fold (\<lambda>b. set_bit (width - 1 - b)) bs w) n \<longleftrightarrow>
      bit w n \<or> n < LENGTH('a) \<and> (\<exists>b \<in> set bs. n = width - 1 - b)" for bs n and w :: "'a word"
    by (induction bs arbitrary: w) (auto simp: bit_simps)
  have "(\<exists>b \<in> set [bits..<width]. n = width - 1 - b) \<longleftrightarrow> n < width - bits" for n
    by (auto intro!: bexI [where x = "width - 1 - n"])
  with * show ?thesis
    unfolding set_bits_from_def using assms
    by (intro bit_word_eqI) (auto simp: bit_simps)
qed

lemma int_clear: "(k::int) AND NOT (mask n) = k div 2 ^ n * 2 ^ n"
proof -
  have "k AND NOT (mask n) = push_bit n (drop_bit n k)"
    by (rule bit_eqI) (auto simp: bit_simps)
  then show ?thesis by (simp add: push_bit_eq_mult drop_bit_eq_div)
qed

lemma int_or_mask: "(k::int) OR mask n = k div 2 ^ n * 2 ^ n + (2 ^ n - 1)"
proof -
  have "k OR mask n = (k AND NOT (mask n)) OR mask n"
    by (rule bit_eqI) (auto simp: bit_simps)
  also have "\<dots> = (k AND NOT (mask n)) + mask n"
    by (rule disjunctive_add [symmetric]) (auto simp: bit_simps)
  also have "\<dots> = k div 2 ^ n * 2 ^ n + mask n" by (simp only: int_clear)
  finally show ?thesis by (simp add: mask_eq_exp_minus_1)
qed

lemma uint_mask: "s \<le> LENGTH('a) \<Longrightarrow> uint (mask s :: 'a::len word) = mask s"
  by (rule bit_eqI) (auto simp: bit_simps)

lemma uint_or_mask: "s \<le> LENGTH('a) \<Longrightarrow> uint (w OR mask s) = uint w div 2 ^ s * 2 ^ s + (2 ^ s - 1)" for w :: "'a::len word"
  by (simp only: uint_or uint_mask int_or_mask)

lemma uint_clear_low: "uint (clear_low s w) = uint w div 2 ^ s * 2 ^ s" for w :: "'a::len word"
proof -
  have "uint (w AND NOT (mask s)) = uint w AND NOT (mask s)"
    by (rule bit_eqI) (auto simp: bit_simps dest: bit_imp_le_length)
  then show ?thesis by (simp only: clear_low_def int_clear)
qed

lemma uint_drop_bit: "uint (drop_bit s w) = uint w div 2 ^ s" for w :: "'a::len word"
  by (simp only: drop_bit_eq_div [symmetric]) (rule bit_eqI, auto simp: bit_simps dest: bit_imp_le_length)

lemma int_block:
  assumes "(0::int) < m"
  shows "a div m = b div m \<longleftrightarrow> a div m * m \<le> b \<and> b \<le> a div m * m + (m - 1)"
proof
  assume "a div m = b div m"
  then have "a div m * m = b div m * m" by simp
  moreover have "b = b div m * m + b mod m" by (rule div_mult_mod_eq [symmetric])
  moreover have "0 \<le> b mod m" "b mod m < m" using assms by simp_all
  ultimately show "a div m * m \<le> b \<and> b \<le> a div m * m + (m - 1)" by linarith
next
  assume *: "a div m * m \<le> b \<and> b \<le> a div m * m + (m - 1)"
  then have "(b - a div m * m) div m = 0" by (intro div_pos_pos_trivial) auto
  moreover have "(b - a div m * m + a div m * m) div m = a div m + (b - a div m * m) div m"
    using assms by (intro div_mult_self1) simp
  ultimately show "a div m = b div m" by simp
qed

lemma same_high_bits:
  "s \<le> LENGTH('a) \<Longrightarrow> drop_bit s (x XOR y) = 0 \<longleftrightarrow> 
   uint (clear_low s x) \<le> uint y \<and> uint y \<le> uint (x OR mask s)"  for x y :: "'a::len word"
proof -
  assume s: "s \<le> LENGTH('a)"
  have "drop_bit s (x XOR y) = 0 \<longleftrightarrow> drop_bit s x = drop_bit s y"
    by (auto simp: bit_eq_iff bit_simps)
  also have "\<dots> \<longleftrightarrow> uint x div 2 ^ s = uint y div 2 ^ s"
    by (simp only: word_uint_eq_iff uint_drop_bit)
  also have "\<dots> \<longleftrightarrow> uint x div 2 ^ s * 2 ^ s \<le> uint y \<and> uint y \<le> uint x div 2 ^ s * 2 ^ s + (2 ^ s - 1)"
    by (rule int_block) simp
  finally show ?thesis by (simp only: uint_or_mask [OF s] uint_clear_low)
qed

definition be_val :: "byte list \<Rightarrow> int" where
  "be_val bs = foldl (\<lambda>a b. a * 256 + uint b) 0 bs"

lemma be_val_append: "be_val (bs @ [b]) = be_val bs * 256 + uint b"
  by (simp add: be_val_def)

lemma be_bytes_Suc: "be_bytes (Suc n) v = be_bytes n (v div 256) @ [of_int v]"
proof -
  have "map (\<lambda>i. of_int (v div 256 ^ i) :: byte) (rev [0..<Suc n]) =
        map (\<lambda>i. of_int (v div 256 ^ Suc i)) (rev [0..<n]) @ [of_int v]"
    by (simp add: rev_map [symmetric] map_Suc_upt [symmetric] upt_rec [of 0 "Suc n"] del: upt_Suc)
  then show ?thesis
    by (simp add: be_bytes_def zdiv_zmult2_eq del: upt_Suc)
qed

lemma be_val_be_bytes: "0 \<le> v \<Longrightarrow> be_val (be_bytes n v) = v mod 256 ^ n"
proof (induction n arbitrary: v)
  case 0
  then show ?case by (simp add: be_bytes_def be_val_def)
next
  case (Suc n)
  have "be_val (be_bytes (Suc n) v) = (v div 256) mod 256 ^ n * 256 + v mod 256"
    using Suc by (simp add: be_bytes_Suc be_val_append uint_word_of_int pos_imp_zdiv_nonneg_iff)
  also have "\<dots> = v mod (256 * 256 ^ n)"
    by (simp add: zmod_zmult2_eq)
  finally show ?case by simp
qed

lemma length_be_bytes [simp]: "length (be_bytes n v) = n"
  by (simp add: be_bytes_def)

lemma be_val_PutUint16: "be_val (BigEndian_PutUint16 w) = uint w"
proof -
  have "uint (ucast v :: byte) = uint v mod 256" for v :: u16
    by (simp add: unsigned_ucast_eq take_bit_eq_mod)
  moreover have "uint w div 256 mod 256 = uint w div 256"
    using uint_lt2p [of w] uint_ge_0 [of w] by (intro mod_pos_pos_trivial) (auto simp: pos_imp_zdiv_nonneg_iff)
  ultimately show ?thesis
    by (simp add: be_val_def BigEndian_PutUint16_def uint_drop_bit [where s = 8, simplified])
qed

lemma uint_inc:
  fixes w :: "'a::len word"
  shows "w + 1 = 0 \<longleftrightarrow> uint w + 1 = 2 ^ LENGTH('a)"
    and "w + 1 \<noteq> 0 \<Longrightarrow> uint (w + 1) = uint w + 1"
proof -
  have eq: "uint (w + 1) = (uint w + 1) mod 2 ^ LENGTH('a)"
    by (simp add: uint_word_ariths(1) mod_add_right_eq uint_word_of_int_eq)
  have lt: "0 \<le> uint w" "uint w < 2 ^ LENGTH('a)" by simp_all
  then have "uint w + 1 \<noteq> 2 ^ LENGTH('a) \<Longrightarrow> uint (w + 1) = uint w + 1"
    unfolding eq using lt by (intro mod_pos_pos_trivial) linarith+
  moreover have "uint w + 1 = 2 ^ LENGTH('a) \<Longrightarrow> uint (w + 1) = 0"
    unfolding eq by simp
  ultimately show "w + 1 = 0 \<longleftrightarrow> uint w + 1 = 2 ^ LENGTH('a)"
    and "w + 1 \<noteq> 0 \<Longrightarrow> uint (w + 1) = uint w + 1"
    using lt by (smt (verit) uint_0_iff)+
qed

fun addr_val :: "netip_addr \<Rightarrow> int" where
  "addr_val (Addr4 w) = uint w"
| "addr_val (Addr6 w z) = uint w"

fun addr_lim :: "netip_addr \<Rightarrow> int" where
  "addr_lim (Addr4 w) = 2 ^ 32"
| "addr_lim (Addr6 w z) = 2 ^ 128"

lemma addr_val_bounds: "0 \<le> addr_val a" "addr_val a < addr_lim a"
  using uint_lt2p [of "_ :: 32 word"] uint_lt2p [of "_ :: 128 word"] by (cases a; simp)+

lemma be_val_AsSlice [simp]: "be_val (AsSlice a) = addr_val a"
  using addr_val_bounds [of a] by (cases a) (simp_all add: be_val_be_bytes)

lemma prefix_Contains_range:
  assumes "valid_prefix p" and "Is4 a = Is4 (pAddr p)" and "\<And>w z. a = Addr6 w z \<Longrightarrow> z = []"
  shows "prefix_Contains p a \<longleftrightarrow>
     addr_val (Masked_Addr (pAddr p) (pBits p)) \<le> addr_val a \<and>
     addr_val a \<le> addr_val (PrefixLastIP (pAddr p) (pBits p))"
  using assms
  by (cases "pAddr p"; cases a)
    (auto simp: valid_prefix_def prefix_Contains.simps same_high_bits set_bits_from_eq simp del: drop_bit_xor)

lemma prefix_range_nonempty:
  assumes "valid_prefix p"
  shows "addr_val (Masked_Addr (pAddr p) (pBits p)) \<le> addr_val (PrefixLastIP (pAddr p) (pBits p))"
  using assms
  by (cases "pAddr p") (simp_all add: valid_prefix_def set_bits_from_eq uint_clear_low uint_or_mask)

lemma Next_None_iff: "Next a = None \<longleftrightarrow> addr_val a + 1 = addr_lim a"
  by (cases a) (auto simp: uint_inc(1))

lemma Next_Some_val: "Next a = Some b \<Longrightarrow> addr_val b = addr_val a + 1"
  by (cases a) (auto simp: uint_inc(2) split: if_splits)

end
