(* ===== verification/Elements.thy ===== *)
theory Elements
  imports Addr
begin

text \<open>
  The elements of interval sets (pkg/server/netfilterrules.go): a prefix or a port range
  becomes a start marker and an end marker. The reference is \<open>interval_match\<close>, the meaning
  of such a marker list: a key matches when some start marker is at or below it and no end
  marker lies between that start and the key.
\<close>

subsection \<open>Prefixes\<close>

definition IPv4Unspecified :: netip_addr where
  "IPv4Unspecified = Addr4 0"

definition IPv6Unspecified :: netip_addr where
  "IPv6Unspecified = Addr6 0 []"

definition convertPrefixToSet :: "netip_prefix \<Rightarrow> set_element list" where
  "convertPrefixToSet p =
     (let firstIP = Masked_Addr (pAddr p) (pBits p);
          lastIP = Next (PrefixLastIP (pAddr p) (pBits p));
          elements = [elem (AsSlice firstIP)] in
      case lastIP of
        None \<Rightarrow>
          if Is4 firstIP then elements @ [elem_end (AsSlice IPv4Unspecified)]
          else elements @ [elem_end (AsSlice IPv6Unspecified)]
      | Some ip \<Rightarrow> elements @ [elem_end (AsSlice ip)])"

text \<open>The loop of getPrefixesAsSetInterval, with the index and the two result slices.\<close>

fun prefixes_loop ::
  "nat \<Rightarrow> string list \<Rightarrow> set_element list \<Rightarrow> set_element list \<Rightarrow> (set_element list \<times> set_element list) result" where
  "prefixes_loop index [] v4 v6 = Inr (v4, v6)"
| "prefixes_loop index (addr # rest) v4 v6 =
     (case ParsePrefix addr of
        Inl e \<Rightarrow> Inl (Wrap ''failed to parse CIDR'' e)
      | Inr net \<Rightarrow>
          if Is4 (pAddr net) then
            prefixes_loop (Suc index) rest
              (v4 @ (if index = 0 then [elem_end (AsSlice IPv4Unspecified)] else []) @ convertPrefixToSet net) v6
          else
            prefixes_loop (Suc index) rest v4
              (v6 @ (if index = 0 then [elem_end (AsSlice IPv6Unspecified)] else []) @ convertPrefixToSet net))"

definition getPrefixesAsSetInterval :: "string list \<Rightarrow> (set_element list \<times> set_element list) result" where
  "getPrefixesAsSetInterval prefixes = prefixes_loop 0 prefixes [] []"

subsection \<open>Ports\<close>

datatype int_or_string = IntVal int | StrVal string

record policyPort =
  ppProtocol :: "string option"
  ppPort :: "int_or_string option"
  ppEndPort :: "int option"

definition MaxUint16 :: int where
  "MaxUint16 = 65535"

text \<open>A port given as a string has to be a number in range; it is then used like a number.\<close>

definition portNumber :: "int_or_string \<Rightarrow> int result" where
  "portNumber p =
     (case p of
        IntVal n \<Rightarrow> Inr n
      | StrVal s \<Rightarrow>
          (case Atoi s of
             Inl e \<Rightarrow> Inl (ErrText ''named port is not supported; numeric ports are required'')
           | Inr n \<Rightarrow>
               if n < 1 \<or> MaxUint16 < n
               then Inl (ErrText ''named port is not supported; numeric ports are required'')
               else Inr n))"

definition validatePortSpec :: "policyPort \<Rightarrow> set_element list result" where
  "validatePortSpec port =
     (case ppPort port of
        None \<Rightarrow> Inr []
      | Some p \<Rightarrow>
          (case portNumber p of
             Inl e \<Rightarrow> Inl e
           | Inr portNum \<Rightarrow>
               if portNum < 1 \<or> MaxUint16 < portNum then Inl (ErrText ''port out of range'')
               else
                 let portVal = of_int portNum :: u16;
                     elements = [elem (BigEndian_PutUint16 portVal)] in
                 case ppEndPort port of
                   Some e \<Rightarrow>
                     if portNum < e then
                       if e < 1 \<or> MaxUint16 < e then Inl (ErrText ''port out of range'')
                       else Inr (elements @ [elem_end (BigEndian_PutUint16 (of_int e + 1))])
                     else Inr (elements @ [elem_end (BigEndian_PutUint16 (portVal + 1))])
                 | None \<Rightarrow> Inr (elements @ [elem_end (BigEndian_PutUint16 (portVal + 1))])))"

subsection \<open>What a list of interval markers matches\<close>

definition interval_match :: "set_element list \<Rightarrow> byte list \<Rightarrow> bool" where
  "interval_match els k =
     list_ex (\<lambda>s. \<not> eIntervalEnd s \<and> be_val (eKey s) \<le> be_val k \<and>
       \<not> list_ex (\<lambda>e. eIntervalEnd e \<and> be_val (eKey s) < be_val (eKey e) \<and> be_val (eKey e) \<le> be_val k) els) els"

text \<open>Markers of a family of closed ranges below a limit; the end after the last key is 0.\<close>

definition starts :: "set_element list \<Rightarrow> int set" where
  "starts els = (\<lambda>e. be_val (eKey e)) ` {e \<in> set els. \<not> eIntervalEnd e}"

definition stops :: "set_element list \<Rightarrow> int set" where
  "stops els = (\<lambda>e. be_val (eKey e)) ` {e \<in> set els. eIntervalEnd e}"

lemma starts_simps [simp]:
  "starts [] = {}" "starts (elem k # els) = insert (be_val k) (starts els)"
  "starts (elem_end k # els) = starts els" "starts (els @ els') = starts els \<union> starts els'"
  by (force simp: starts_def elem_def elem_end_def)+

lemma stops_simps [simp]:
  "stops [] = {}" "stops (elem k # els) = stops els"
  "stops (elem_end k # els) = insert (be_val k) (stops els)" "stops (els @ els') = stops els \<union> stops els'"
  by (force simp: stops_def elem_def elem_end_def)+

lemma interval_match_iff:
  "interval_match els k \<longleftrightarrow>
     (\<exists>s \<in> starts els. s \<le> be_val k \<and> \<not> (\<exists>e \<in> stops els. s < e \<and> e \<le> be_val k))"
  by (auto simp: interval_match_def starts_def stops_def list_ex_iff)

definition marks :: "int \<Rightarrow> (int \<times> int) set \<Rightarrow> set_element list \<Rightarrow> bool" where
  "marks lim rs els \<longleftrightarrow>
     (\<forall>(a, l) \<in> rs. 0 \<le> a \<and> a \<le> l \<and> l < lim) \<and>
     starts els = fst ` rs \<and>
     (\<lambda>(a, l). (l + 1) mod lim) ` rs \<subseteq> stops els \<and>
     stops els \<subseteq> insert 0 ((\<lambda>(a, l). (l + 1) mod lim) ` rs)"

definition apart :: "(int \<times> int) set \<Rightarrow> bool" where
  "apart rs \<longleftrightarrow> (\<forall>(a, l) \<in> rs. \<forall>(b, m) \<in> rs. (a, l) \<noteq> (b, m) \<longrightarrow> l < b \<or> m < a)"

lemma apartD:
  "apart rs \<Longrightarrow> (a, l) \<in> rs \<Longrightarrow> (b, m) \<in> rs \<Longrightarrow> (a, l) \<noteq> (b, m) \<Longrightarrow> l < b \<or> m < a"
  unfolding apart_def by blast

lemma range_stop:
  "(0::int) \<le> a \<Longrightarrow> a \<le> l \<Longrightarrow> l < lim \<Longrightarrow> (l + 1) mod lim = (if l + 1 = lim then 0 else l + 1)"
  by (simp add: mod_pos_pos_trivial)

lemma marks_bounds: "marks lim rs els \<Longrightarrow> (a, l) \<in> rs \<Longrightarrow> 0 \<le> a \<and> a \<le> l \<and> l < lim"
  unfolding marks_def by (drule conjunct1, drule bspec, assumption) simp

lemma marks_starts: "marks lim rs els \<Longrightarrow> s \<in> starts els \<longleftrightarrow> (\<exists>l. (s, l) \<in> rs)"
  unfolding marks_def fst_eq_Domain by (simp add: Domain_iff)

lemma marks_stop: "marks lim rs els \<Longrightarrow> (a, l) \<in> rs \<Longrightarrow> (l + 1) mod lim \<in> stops els"
  unfolding marks_def by (drule conjunct2, drule conjunct2, drule conjunct1) (erule subsetD, erule rev_image_eqI, simp)

lemma marks_stops:
  "marks lim rs els \<Longrightarrow> e \<in> stops els \<Longrightarrow> e = 0 \<or> (\<exists>b j. (b, j) \<in> rs \<and> e = (j + 1) mod lim)"
  unfolding marks_def by (drule conjunct2, drule conjunct2, drule conjunct2) (drule (1) subsetD, auto)

lemma interval_match_marks:
  assumes m: "marks lim rs els" and "apart rs" and k: "be_val k < lim"
  shows "interval_match els k \<longleftrightarrow> (\<exists>(a, l) \<in> rs. a \<le> be_val k \<and> be_val k \<le> l)"
proof
  assume "interval_match els k"
  then obtain s where s: "s \<in> starts els" "s \<le> be_val k"
    and no: "\<not> (\<exists>e \<in> stops els. s < e \<and> e \<le> be_val k)"
    unfolding interval_match_iff by blast
  from s(1) obtain l where l: "(s, l) \<in> rs" using marks_starts [OF m] by blast
  note r = marks_bounds [OF m l] marks_stop [OF m l]
  have "be_val k \<le> l"
  proof (cases "l + 1 = lim")
    case True
    with k show ?thesis by linarith
  next
    case False
    with r have "l + 1 \<in> stops els" using range_stop [of s l lim] by simp
    with no have "\<not> (s < l + 1 \<and> l + 1 \<le> be_val k)" by blast
    with r(1) show ?thesis by linarith
  qed
  with l s(2) show "\<exists>(a, l) \<in> rs. a \<le> be_val k \<and> be_val k \<le> l" by blast
next
  assume "\<exists>(a, l) \<in> rs. a \<le> be_val k \<and> be_val k \<le> l"
  then obtain a l where al: "(a, l) \<in> rs" "a \<le> be_val k" "be_val k \<le> l" by blast
  have "\<not> (a < e \<and> e \<le> be_val k)" if stop: "e \<in> stops els" for e
  proof
    assume e: "a < e \<and> e \<le> be_val k"
    with marks_bounds [OF m al(1)] have "e \<noteq> 0" by linarith
    with marks_stops [OF m stop] obtain b j where bj: "(b, j) \<in> rs" "e = (j + 1) mod lim" by blast
    from marks_bounds [OF m bj(1)] range_stop [of b j lim] bj(2) \<open>e \<noteq> 0\<close> have "e = j + 1"
      by (simp split: if_splits)
    with e al have "a \<le> j" "j < l" by linarith+
    with apartD [OF \<open>apart rs\<close> al(1) bj(1)] marks_bounds [OF m bj(1)] show False by auto
  qed
  moreover have "a \<in> starts els" using al(1) marks_starts [OF m] by blast
  ultimately show "interval_match els k" unfolding interval_match_iff using al(2) by blast
qed

lemma marks_append: "marks lim rs els \<Longrightarrow> marks lim rs' els' \<Longrightarrow> marks lim (rs \<union> rs') (els @ els')"
  by (auto simp: marks_def image_Un)

lemma marks_Nil [simp]: "marks lim {} []"
  by (simp add: marks_def)

lemma marks_zero: "be_val k = 0 \<Longrightarrow> marks lim {} [elem_end k]"
  by (simp add: marks_def)

subsection \<open>Prefix elements\<close>

definition prefix_range :: "netip_prefix \<Rightarrow> int \<times> int" where
  "prefix_range p = (addr_val (Masked_Addr (pAddr p) (pBits p)), addr_val (PrefixLastIP (pAddr p) (pBits p)))"

lemma addr_lim_simps [simp]:
  "addr_lim (Masked_Addr a b) = addr_lim a" "addr_lim (PrefixLastIP a b) = addr_lim a"
  "Is4 (Masked_Addr a b) = Is4 a"
  by (cases a; simp)+

lemma marks_convertPrefixToSet:
  assumes "valid_prefix p"
  shows "marks (addr_lim (pAddr p)) {prefix_range p} (convertPrefixToSet p)"
proof -
  let ?l = "PrefixLastIP (pAddr p) (pBits p)"
  have bounds: "0 \<le> fst (prefix_range p)" "fst (prefix_range p) \<le> snd (prefix_range p)"
    "snd (prefix_range p) < addr_lim (pAddr p)"
    using addr_val_bounds [of "Masked_Addr (pAddr p) (pBits p)"] addr_val_bounds [of ?l]
      prefix_range_nonempty [OF assms] by (simp_all add: prefix_range_def)
  show ?thesis
  proof (cases "Next ?l")
    case None
    then have "snd (prefix_range p) + 1 = addr_lim (pAddr p)"
      by (simp add: Next_None_iff prefix_range_def)
    with None bounds show ?thesis
      by (auto simp: marks_def convertPrefixToSet_def prefix_range_def IPv4Unspecified_def IPv6Unspecified_def
          Let_def simp del: AsSlice.simps)
  next
    case (Some ip)
    then have "snd (prefix_range p) + 1 \<noteq> addr_lim (pAddr p)"
      using Next_None_iff [of ?l] by (auto simp: prefix_range_def)
    with Some bounds Next_Some_val [OF Some] show ?thesis
      by (auto simp: marks_def convertPrefixToSet_def prefix_range_def)
  qed
qed

lemma ParsePrefix_valid: "ParsePrefix s = Inr p \<Longrightarrow> valid_prefix p"
  by (auto simp: ParsePrefix_def valid_prefix_def Let_def Is6_def
      split: if_splits sum.splits netip_addr.splits)

definition ranges4 :: "netip_prefix set \<Rightarrow> (int \<times> int) set" where
  "ranges4 ps = prefix_range ` {p \<in> ps. Is4 (pAddr p)}"

definition ranges6 :: "netip_prefix set \<Rightarrow> (int \<times> int) set" where
  "ranges6 ps = prefix_range ` {p \<in> ps. \<not> Is4 (pAddr p)}"

lemma ranges_simps [simp]:
  "ranges4 {} = {}" "ranges6 {} = {}"
  "Is4 (pAddr p) \<Longrightarrow> ranges4 (insert p ps) = insert (prefix_range p) (ranges4 ps)"
  "\<not> Is4 (pAddr p) \<Longrightarrow> ranges4 (insert p ps) = ranges4 ps"
  "Is4 (pAddr p) \<Longrightarrow> ranges6 (insert p ps) = ranges6 ps"
  "\<not> Is4 (pAddr p) \<Longrightarrow> ranges6 (insert p ps) = insert (prefix_range p) (ranges6 ps)"
  by (auto simp: ranges4_def ranges6_def)

lemma addr_lim_cases: "addr_lim a = (if Is4 a then 2 ^ 32 else 2 ^ 128)"
  by (cases a) simp_all

lemma marks_lead:
  assumes "valid_prefix p" and "lim = addr_lim (pAddr p)" and "be_val z = 0" and "marks lim rs els"
  shows "marks lim (insert (prefix_range p) rs) (els @ (if b then [elem_end z] else []) @ convertPrefixToSet p)"
proof -
  have "marks lim ({} \<union> {prefix_range p}) ((if b then [elem_end z] else []) @ convertPrefixToSet p)"
    using assms marks_zero marks_convertPrefixToSet by (intro marks_append) auto
  from marks_append [OF assms(4) this] show ?thesis by (simp add: Un_commute)
qed

lemma prefixes_loop_marks:
  assumes "map ParsePrefix ps = map Inr nets"
    and "marks (2 ^ 32) r4 v4" and "marks (2 ^ 128) r6 v6"
  shows "\<exists>w4 w6. prefixes_loop i ps v4 v6 = Inr (w4, w6) \<and>
     marks (2 ^ 32) (r4 \<union> ranges4 (set nets)) w4 \<and> marks (2 ^ 128) (r6 \<union> ranges6 (set nets)) w6"
  using assms
proof (induction ps arbitrary: i nets v4 v6 r4 r6)
  case Nil
  then show ?case by simp
next
  case (Cons s ps)
  then obtain p nets' where nets: "nets = p # nets'" "ParsePrefix s = Inr p" "map ParsePrefix ps = map Inr nets'"
    by (cases nets) auto
  have valid: "valid_prefix p" using nets ParsePrefix_valid by blast
  have zero: "be_val (AsSlice IPv4Unspecified) = 0" "be_val (AsSlice IPv6Unspecified) = 0"
    by (simp_all add: IPv4Unspecified_def IPv6Unspecified_def del: AsSlice.simps)
  show ?case
  proof (cases "Is4 (pAddr p)")
    case True
    from Cons.IH [OF nets(3) marks_lead [OF valid _ zero(1) Cons.prems(2)] Cons.prems(3), of "Suc i" "i = 0"]
    show ?thesis using True nets by (simp add: addr_lim_cases)
  next
    case False
    from Cons.IH [OF nets(3) Cons.prems(2) marks_lead [OF valid _ zero(2) Cons.prems(3)], of "Suc i" "i = 0"]
    show ?thesis using False nets by (simp add: addr_lim_cases)
  qed
qed

lemma prefixes_loop_error:
  "\<exists>s \<in> set ps. \<exists>e. ParsePrefix s = Inl e \<Longrightarrow> \<exists>e. prefixes_loop i ps v4 v6 = Inl e"
proof (induction ps arbitrary: i v4 v6)
  case Nil
  then show ?case by simp
next
  case (Cons s ps)
  show ?case
  proof (cases "ParsePrefix s")
    case (Inr p)
    then have "\<exists>s \<in> set ps. \<exists>e. ParsePrefix s = Inl e" using Cons.prems by auto
    note Cons.IH [OF this]
    then show ?thesis using Inr by (simp only: prefixes_loop.simps sum.case) (simp split: if_split)
  qed simp
qed

lemma prefix_range_inject:
  assumes "valid_prefix p" "valid_prefix q" "Is4 (pAddr p) = Is4 (pAddr q)"
    and "\<And>a. \<not> (prefix_Contains p a \<and> prefix_Contains q a)"
  shows "snd (prefix_range p) < fst (prefix_range q) \<or> snd (prefix_range q) < fst (prefix_range p)"
proof (rule ccontr)
  assume no: "\<not> ?thesis"
  define a where "a = (if fst (prefix_range p) \<le> fst (prefix_range q)
    then Masked_Addr (pAddr q) (pBits q) else Masked_Addr (pAddr p) (pBits p))"
  have fam: "Is4 a = Is4 (pAddr p)" "Is4 a = Is4 (pAddr q)" using assms(3) by (simp_all add: a_def)
  have zone: "a = Addr6 w z \<Longrightarrow> z = []" for w z
    by (cases "pAddr p"; cases "pAddr q") (auto simp: a_def split: if_splits)
  have "fst (prefix_range p) \<le> addr_val a \<and> addr_val a \<le> snd (prefix_range p)"
    "fst (prefix_range q) \<le> addr_val a \<and> addr_val a \<le> snd (prefix_range q)"
    using no prefix_range_nonempty [OF assms(1)] prefix_range_nonempty [OF assms(2)]
    by (auto simp: a_def prefix_range_def)
  then have "prefix_Contains p a" "prefix_Contains q a"
    using prefix_Contains_range [OF assms(1) fam(1) zone] prefix_Contains_range [OF assms(2) fam(2) zone]
    by (simp_all add: prefix_range_def)
  with assms(4) show False by blast
qed

lemma apart_ranges:
  assumes "\<And>p. p \<in> ps \<Longrightarrow> valid_prefix p"
    and "\<And>p q a. p \<in> ps \<Longrightarrow> q \<in> ps \<Longrightarrow> p \<noteq> q \<Longrightarrow> \<not> (prefix_Contains p a \<and> prefix_Contains q a)"
  shows "apart (ranges4 ps)" "apart (ranges6 ps)"
  using prefix_range_inject assms by (fastforce simp: apart_def ranges4_def ranges6_def)+

subsection \<open>Properties of prefix and port elements\<close>

text \<open>
  C18. The set elements of a prefix match exactly the addresses of the prefix: for every
  prefix a CIDR string parses to, an address of its family is in the half-open interval
  convertPrefixToSet builds if and only if the prefix contains it. This includes the prefixes
  that end at the last address, where the end marker wraps to zero.
\<close>

theorem convertPrefixToSet_exact:
  assumes "ParsePrefix cidr = Inr p"
  shows "(Is4 (pAddr p) \<longrightarrow>
            interval_match (convertPrefixToSet p) (AsSlice (Addr4 w)) = prefix_Contains p (Addr4 w)) \<and>
         (\<not> Is4 (pAddr p) \<longrightarrow>
            interval_match (convertPrefixToSet p) (AsSlice (Addr6 v [])) = prefix_Contains p (Addr6 v []))"
proof -
  have valid: "valid_prefix p" using assms by (rule ParsePrefix_valid)
  have "apart {prefix_range p}" by (auto simp: apart_def)
  note match = interval_match_marks [OF marks_convertPrefixToSet [OF valid] this]
  show ?thesis
    using match [of "AsSlice (Addr4 w)"] match [of "AsSlice (Addr6 v [])"]
      addr_val_bounds [of "Addr4 w"] addr_val_bounds [of "Addr6 v []"]
      prefix_Contains_range [OF valid, of "Addr4 w"] prefix_Contains_range [OF valid, of "Addr6 v []"]
    by (auto simp: prefix_range_def addr_lim_cases simp del: AsSlice.simps)
qed

theorem convertPrefixToSet_exact_witness:
  "interval_match (convertPrefixToSet \<lparr>pAddr = Addr4 0xFFFFFF00, pBits = 24\<rparr>) (AsSlice (Addr4 0xFFFFFFFF)) =
   prefix_Contains \<lparr>pAddr = Addr4 0xFFFFFF00, pBits = 24\<rparr> (Addr4 0xFFFFFFFF)"
proof -
  have "ParsePrefix ''255.255.255.0/24'' = Inr \<lparr>pAddr = Addr4 0xFFFFFF00, pBits = 24\<rparr>"
    by code_simp
  from convertPrefixToSet_exact [OF this, of "0xFFFFFFFF"] show ?thesis
    by (simp del: AsSlice.simps)
qed

lemma getPrefixes_match:
  assumes "\<And>p q a. p \<in> set nets \<Longrightarrow> q \<in> set nets \<Longrightarrow> p \<noteq> q \<Longrightarrow> \<not> (prefix_Contains p a \<and> prefix_Contains q a)"
    and parsed: "map ParsePrefix prefixes = map Inr nets"
  shows "(\<exists>v4 v6. getPrefixesAsSetInterval prefixes = Inr (v4, v6) \<and>
        (\<forall>w. interval_match v4 (AsSlice (Addr4 w)) \<longleftrightarrow> (\<exists>p \<in> set nets. prefix_Contains p (Addr4 w))) \<and>
        (\<forall>w. interval_match v6 (AsSlice (Addr6 w [])) \<longleftrightarrow> (\<exists>p \<in> set nets. prefix_Contains p (Addr6 w []))))"
proof -
  have valid: "valid_prefix p" if "p \<in> set nets" for p
  proof -
    from that have "Inr p \<in> set (map ParsePrefix prefixes)" unfolding parsed by simp
    then show ?thesis using ParsePrefix_valid by auto
  qed
  obtain v4 v6 where v: "getPrefixesAsSetInterval prefixes = Inr (v4, v6)"
    "marks (2 ^ 32) (ranges4 (set nets)) v4" "marks (2 ^ 128) (ranges6 (set nets)) v6"
    using prefixes_loop_marks [OF parsed marks_Nil marks_Nil, of 0] by (auto simp: getPrefixesAsSetInterval_def)
  have ap: "apart (ranges4 (set nets))" "apart (ranges6 (set nets))"
    using apart_ranges [of "set nets"] valid assms(1) by blast+
  have c4: "prefix_Contains p (Addr4 w) \<longleftrightarrow>
      Is4 (pAddr p) \<and> fst (prefix_range p) \<le> uint w \<and> uint w \<le> snd (prefix_range p)" if "p \<in> set nets" for p w
    using prefix_Contains_range [OF valid [OF that], of "Addr4 w"]
    by (cases "pAddr p") (auto simp: prefix_Contains.simps prefix_range_def)
  have c6: "prefix_Contains p (Addr6 w []) \<longleftrightarrow>
      \<not> Is4 (pAddr p) \<and> fst (prefix_range p) \<le> uint w \<and> uint w \<le> snd (prefix_range p)" if "p \<in> set nets" for p w
    using prefix_Contains_range [OF valid [OF that], of "Addr6 w []"]
    by (cases "pAddr p") (auto simp: prefix_Contains.simps prefix_range_def)
  show ?thesis
  proof (intro exI conjI allI)
    show "getPrefixesAsSetInterval prefixes = Inr (v4, v6)" by (rule v)
    show "interval_match v4 (AsSlice (Addr4 w)) \<longleftrightarrow> (\<exists>p \<in> set nets. prefix_Contains p (Addr4 w))" for w
      using interval_match_marks [OF v(2) ap(1), of "AsSlice (Addr4 w)"] addr_val_bounds [of "Addr4 w"] c4
      by (auto simp: ranges4_def case_prod_unfold simp del: AsSlice.simps)
    show "interval_match v6 (AsSlice (Addr6 w [])) \<longleftrightarrow> (\<exists>p \<in> set nets. prefix_Contains p (Addr6 w []))" for w
      using interval_match_marks [OF v(3) ap(2), of "AsSlice (Addr6 w [])"] addr_val_bounds [of "Addr6 w []"] c6
      by (auto simp: ranges6_def case_prod_unfold simp del: AsSlice.simps)
  qed
qed

text \<open>
  C16. A list of prefixes becomes two marker lists that match exactly the addresses of the
  IPv4 and of the IPv6 prefixes, provided every prefix parses and no two different prefixes
  overlap (overlapping intervals of one set are refused by the kernel). One prefix that does
  not parse makes the whole conversion fail.
\<close>

theorem getPrefixesAsSetInterval_exact:
  assumes "\<And>p q a. p \<in> set nets \<Longrightarrow> q \<in> set nets \<Longrightarrow> p \<noteq> q \<Longrightarrow> \<not> (prefix_Contains p a \<and> prefix_Contains q a)"
  shows "(map ParsePrefix prefixes = map Inr nets \<longrightarrow>
     (\<exists>v4 v6. getPrefixesAsSetInterval prefixes = Inr (v4, v6) \<and>
        (\<forall>w. interval_match v4 (AsSlice (Addr4 w)) \<longleftrightarrow> (\<exists>p \<in> set nets. prefix_Contains p (Addr4 w))) \<and>
        (\<forall>w. interval_match v6 (AsSlice (Addr6 w [])) \<longleftrightarrow> (\<exists>p \<in> set nets. prefix_Contains p (Addr6 w []))))) \<and>
     ((\<exists>s \<in> set prefixes. \<exists>e. ParsePrefix s = Inl e) \<longrightarrow> (\<exists>e. getPrefixesAsSetInterval prefixes = Inl e))"
  using getPrefixes_match [OF assms] prefixes_loop_error [of prefixes 0 "[]" "[]"]
  unfolding getPrefixesAsSetInterval_def by blast

theorem getPrefixesAsSetInterval_exact_witness:
  "\<exists>v4 v6. getPrefixesAsSetInterval [''10.0.0.0/8'', ''fd00::/8''] = Inr (v4, v6) \<and>
     interval_match v4 (AsSlice (Addr4 0x0A010203)) \<and> \<not> interval_match v4 (AsSlice (Addr4 0x0B000000))"
proof -
  let ?nets = "[\<lparr>pAddr = Addr4 0x0A000000, pBits = 8\<rparr>, \<lparr>pAddr = Addr6 (push_bit 120 0xfd) [], pBits = 8\<rparr>]"
  have "map ParsePrefix [''10.0.0.0/8'', ''fd00::/8''] = map Inr ?nets" by code_simp
  moreover have "p \<in> set ?nets \<Longrightarrow> q \<in> set ?nets \<Longrightarrow> p \<noteq> q \<Longrightarrow> \<not> (prefix_Contains p a \<and> prefix_Contains q a)" for p q a
    by (auto simp: prefix_Contains.simps split: netip_addr.splits)
  ultimately show ?thesis
    using getPrefixesAsSetInterval_exact [of ?nets "[''10.0.0.0/8'', ''fd00::/8'']"]
    by (force simp: prefix_Contains.simps simp del: AsSlice.simps)
qed

lemma port_marks:
  assumes "1 \<le> n" "n \<le> h" "h \<le> 65535"
  shows "marks 65536 {(n, h)}
     [elem (BigEndian_PutUint16 (of_int n)), elem_end (BigEndian_PutUint16 (of_int h + 1))]"
proof -
  have n: "uint (of_int n :: u16) = n" using assms by (simp add: uint_word_of_int)
  have h: "uint (of_int h + 1 :: u16) = (h + 1) mod 65536"
    using assms by (simp add: uint_word_ariths(1) uint_word_of_int_eq take_bit_eq_mod mod_simps)
  show ?thesis using assms by (simp add: marks_def be_val_PutUint16 n h)
qed

text \<open>The closed range of ports of a specification.\<close>

definition portRange :: "policyPort \<Rightarrow> (int \<times> int) option" where
  "portRange port =
     (case ppPort port of
        None \<Rightarrow> None
      | Some p \<Rightarrow>
          (case portNumber p of
             Inl e \<Rightarrow> None
           | Inr n \<Rightarrow> Some (n, case ppEndPort port of Some e \<Rightarrow> max n e | None \<Rightarrow> n)))"

lemma validatePortSpec_marks:
  "validatePortSpec port = Inr els \<Longrightarrow> marks 65536 (set_option (portRange port)) els \<and> (els = [] \<longleftrightarrow> ppPort port = None)"
  using port_marks
  by (auto simp: validatePortSpec_def portRange_def Let_def MaxUint16_def max_def split: option.splits sum.splits if_splits)

lemma validatePortSpec_ok:
  assumes "ppPort port = Some p" and "portNumber p = Inr n"
  shows "(\<exists>els. validatePortSpec port = Inr els) \<longleftrightarrow>
     1 \<le> n \<and> (case ppEndPort port of Some e \<Rightarrow> max n e | None \<Rightarrow> n) \<le> 65535"
  using assms by (auto simp: validatePortSpec_def Let_def MaxUint16_def max_def split: option.splits)

text \<open>
  C17. A port specification is translated exactly: a numeric port n with an optional end port
  gives the elements that match the ports from n to the end port (an end port below n is
  ignored), including the range that ends at 65535; a port or an end port outside 1 to 65535
  is an error.
\<close>

theorem validatePortSpec_exact:
  assumes "ppPort port = Some p" and "portNumber p = Inr n"
  shows "let hi = (case ppEndPort port of Some e \<Rightarrow> max n e | None \<Rightarrow> n) in
     if 1 \<le> n \<and> hi \<le> 65535
     then \<exists>els. validatePortSpec port = Inr els \<and>
            (\<forall>k. interval_match els (BigEndian_PutUint16 k) \<longleftrightarrow> n \<le> uint k \<and> uint k \<le> hi)
     else \<exists>e. validatePortSpec port = Inl e"
proof (cases "\<exists>els. validatePortSpec port = Inr els")
  case False
  then obtain e where "validatePortSpec port = Inl e" by (cases "validatePortSpec port") auto
  with False validatePortSpec_ok [OF assms] show ?thesis by (auto simp: Let_def)
next
  case True
  then obtain els where els: "validatePortSpec port = Inr els" by blast
  have "be_val (BigEndian_PutUint16 k) < 65536" for k
    using uint_lt2p [of k] by (simp add: be_val_PutUint16)
  with interval_match_marks [OF conjunct1 [OF validatePortSpec_marks [OF els]]] assms
  have "interval_match els (BigEndian_PutUint16 k) \<longleftrightarrow>
      n \<le> uint k \<and> uint k \<le> (case ppEndPort port of Some e \<Rightarrow> max n e | None \<Rightarrow> n)" for k
    by (simp add: apart_def portRange_def be_val_PutUint16)
  with els validatePortSpec_ok [OF assms] show ?thesis by (auto simp: Let_def)
qed

theorem validatePortSpec_exact_witness:
  "\<exists>els. validatePortSpec \<lparr>ppProtocol = Some ''TCP'', ppPort = Some (StrVal ''8080''), ppEndPort = Some 65535\<rparr> = Inr els \<and>
     interval_match els (BigEndian_PutUint16 65535) \<and> \<not> interval_match els (BigEndian_PutUint16 8079)"
proof -
  have "portNumber (StrVal ''8080'') = Inr 8080" by code_simp
  with validatePortSpec_exact
    [of "\<lparr>ppProtocol = Some ''TCP'', ppPort = Some (StrVal ''8080''), ppEndPort = Some 65535\<rparr>" "StrVal ''8080''" 8080]
  show ?thesis by auto
qed

end
