(* ===== verification/Objects.thy ===== *)
theory Objects
  imports Elements
begin

text \<open>
  The Kubernetes objects the daemon reads (the fields it uses of them), label selectors, the
  pod information of pkg/controllers, and the cluster lookups that rule generation depends
  on. Go maps are association lists with distinct keys.
\<close>

type_synonym labels = "(string \<times> string) list"

subsection \<open>Label selectors\<close>

record selectorExpr =
  exKey :: string
  exOperator :: string
  exValues :: "string list"

record labelSelector =
  matchLabels :: labels
  matchExpressions :: "selectorExpr list"

datatype sel_op = SelEquals | SelIn | SelNotIn | SelExists | SelDoesNotExist

record requirement =
  rqKey :: string
  rqOp :: sel_op
  rqValues :: "string list"

text \<open>A selector is the list of its requirements; the empty list matches everything.\<close>

type_synonym selector = "requirement list"

text \<open>The syntax checks of label keys and values are parameters (package validation).\<close>

record label_syntax =
  isLabelKey :: "string \<Rightarrow> bool"
  isLabelValue :: "string \<Rightarrow> bool"

definition NewRequirement :: "label_syntax \<Rightarrow> string \<Rightarrow> sel_op \<Rightarrow> string list \<Rightarrow> requirement result" where
  "NewRequirement L key op vals =
     (if isLabelKey L key \<and>
         (case op of
            SelEquals \<Rightarrow> length vals = 1
          | SelIn \<Rightarrow> vals \<noteq> []
          | SelNotIn \<Rightarrow> vals \<noteq> []
          | SelExists \<Rightarrow> vals = []
          | SelDoesNotExist \<Rightarrow> vals = []) \<and>
         list_all (isLabelValue L) vals
      then Inr \<lparr>rqKey = key, rqOp = op, rqValues = vals\<rparr>
      else Inl (ErrText ''invalid label requirement''))"

fun selector_op :: "string \<Rightarrow> sel_op result" where
  "selector_op s =
     (if s = ''In'' then Inr SelIn
      else if s = ''NotIn'' then Inr SelNotIn
      else if s = ''Exists'' then Inr SelExists
      else if s = ''DoesNotExist'' then Inr SelDoesNotExist
      else Inl (ErrText ''not a valid label selector operator''))"

fun collect :: "('a \<Rightarrow> 'b result) \<Rightarrow> 'a list \<Rightarrow> 'b list result" where
  "collect f [] = Inr []"
| "collect f (x # xs) =
     (case f x of
        Inl e \<Rightarrow> Inl e
      | Inr y \<Rightarrow> (case collect f xs of Inl e \<Rightarrow> Inl e | Inr ys \<Rightarrow> Inr (y # ys)))"

definition LabelSelectorAsSelector :: "label_syntax \<Rightarrow> labelSelector \<Rightarrow> selector result" where
  "LabelSelectorAsSelector L ps =
     (case collect (\<lambda>(k, v). NewRequirement L k SelEquals [v]) (matchLabels ps) of
        Inl e \<Rightarrow> Inl e
      | Inr rs \<Rightarrow>
          (case collect (\<lambda>x. case selector_op (exOperator x) of
                              Inl e \<Rightarrow> Inl e
                            | Inr op \<Rightarrow> NewRequirement L (exKey x) op (exValues x)) (matchExpressions ps) of
             Inl e \<Rightarrow> Inl e
           | Inr rs' \<Rightarrow> Inr (rs @ rs')))"

definition req_Matches :: "requirement \<Rightarrow> labels \<Rightarrow> bool" where
  "req_Matches r ls =
     (case rqOp r of
        SelEquals \<Rightarrow> (case map_of ls (rqKey r) of None \<Rightarrow> False | Some v \<Rightarrow> v \<in> set (rqValues r))
      | SelIn \<Rightarrow> (case map_of ls (rqKey r) of None \<Rightarrow> False | Some v \<Rightarrow> v \<in> set (rqValues r))
      | SelNotIn \<Rightarrow> (case map_of ls (rqKey r) of None \<Rightarrow> True | Some v \<Rightarrow> v \<notin> set (rqValues r))
      | SelExists \<Rightarrow> map_of ls (rqKey r) \<noteq> None
      | SelDoesNotExist \<Rightarrow> map_of ls (rqKey r) = None)"

definition sel_Matches :: "selector \<Rightarrow> labels \<Rightarrow> bool" where
  "sel_Matches s ls = list_all (\<lambda>r. req_Matches r ls) s"

definition Everything :: selector where
  "Everything = []"

text \<open>\<^verbatim>\<open>LabelSelector.Size()\<close> is the encoded size; it is zero exactly for the empty selector.\<close>

definition selector_nonempty :: "labelSelector \<Rightarrow> bool" where
  "selector_nonempty s = (matchLabels s \<noteq> [] \<or> matchExpressions s \<noteq> [])"

subsection \<open>Pods\<close>

record containerStatus =
  csName :: string
  csContainerID :: string
  csRunning :: bool

record pod =
  podName :: string
  podNamespace :: string
  podLabels :: labels
  podAnnotations :: labels
  podPhase :: string
  podHostNetwork :: bool
  podNodeName :: string
  podContainers :: "containerStatus list"

record interfaceInfo =
  NetattachName :: string
  InterfaceName :: string
  InterfaceType :: string
  IPs :: "string list"

definition intf_CheckPolicyNetwork :: "interfaceInfo \<Rightarrow> string list \<Rightarrow> bool" where
  "intf_CheckPolicyNetwork info policyNetworks = list_ex (\<lambda>n. n = NetattachName info) policyNetworks"

record networkStatus =
  nsName :: string
  nsInterface :: string
  nsIPs :: "string list"

record podInfo =
  piName :: string
  piNamespace :: string
  piNetNSPath :: string
  piNetworkStatus :: "networkStatus list"
  piNodeName :: string
  piInterfaces :: "interfaceInfo list"

definition pod_CheckPolicyNetwork :: "podInfo \<Rightarrow> string list \<Rightarrow> bool" where
  "pod_CheckPolicyNetwork info policyNetworks =
     list_ex (\<lambda>intf. list_ex (\<lambda>n. n = NetattachName intf) policyNetworks) (piInterfaces info)"

definition IsMultiNetworkpolicyTarget :: "pod \<Rightarrow> bool" where
  "IsMultiNetworkpolicyTarget p =
     (if podPhase p \<noteq> ''Running'' then False else if podHostNetwork p then False else True)"

subsection \<open>Policies\<close>

record ipBlock =
  ipCIDR :: string
  ipExcept :: "string list"

record policyPeer =
  peerPodSelector :: "labelSelector option"
  peerNsSelector :: "labelSelector option"
  peerIPBlock :: "ipBlock option"

text \<open>An ingress rule (ports and from) or an egress rule (ports and to).\<close>

record policyRule =
  prPorts :: "policyPort list"
  prPeers :: "policyPeer list"

text \<open>A nil slice and an empty slice of rules are different: \<open>None\<close> and \<open>Some []\<close>.\<close>

record policySpec =
  spPodSelector :: labelSelector
  spIngress :: "policyRule list option"
  spEgress :: "policyRule list option"
  spPolicyTypes :: "string list"

record policy =
  polName :: string
  polNamespace :: string
  polAnnotations :: labels
  polGeneration :: int
  polSpec :: policySpec

text \<open>The callers never pass nil, for which these functions return a fixed text.\<close>

definition policyNamespacedName :: "policy \<Rightarrow> string" where
  "policyNamespacedName x = polNamespace x @ ''/'' @ polName x"

definition policyRuleNamespacedName :: "policy \<Rightarrow> string" where
  "policyRuleNamespacedName x = polNamespace x @ ''-'' @ polName x"

definition podNamespacedName :: "pod \<Rightarrow> string" where
  "podNamespacedName x = podNamespace x @ ''/'' @ podName x"

subsection \<open>Cluster lookups and configuration\<close>

record CommonRuleConfig =
  AcceptICMPv6 :: bool
  AcceptICMP :: bool
  AllowSrcPrefix :: "string list"
  AllowDstPrefix :: "string list"

text \<open>
  PolicyDeps, with three more parameters the rule generator needs: the syntax check of
  labels, the text of a selector (generated code, hashed into set names), and the order in
  which Go iterates over the keys of a map.
\<close>

record policyDeps =
  ListPods :: "selector \<Rightarrow> pod list result"
  GetNamespaceInfo :: "string \<Rightarrow> labels result"
  GetPodInfo :: "pod \<Rightarrow> podInfo option result"
  labelSyntax :: label_syntax
  selectorString :: "labelSelector \<Rightarrow> string"
  iterOrder :: "string list \<Rightarrow> string list"

end
