(* ===== verification/NodeInfo.thy ===== *)
theory NodeInfo
  imports Objects "HOL-Library.List_Lexorder" "HOL-Library.Char_ord"
begin

text \<open>
  What the daemon finds out about a pod (pkg/controllers/netns.go, pod.go and
  pkg/utils/node.go): the container whose process has the pod's network namespace, the path
  of that namespace, and the pod's interfaces with the plugin type of their network. The
  annotation of the selected networks is parsed by the vendored
  network-attachment-definition-client.

  Parameters: the container runtime's answer to a status request, the JSON decoder, the list
  of network statuses a pod's annotation decodes to (the code uses the list and only logs an
  error), and the unstable sort of package slices.
\<close>

subsection \<open>Node names and runtime kinds\<close>

definition CheckNodeNameIdentical :: "string \<Rightarrow> string \<Rightarrow> bool" where
  "CheckNodeNameIdentical s1 s2 = (hd (Split (CHR ''.'') s1) = hd (Split (CHR ''.'') s2))"

text \<open>
  \<^verbatim>\<open>strings.ToLower\<close> as far as an ASCII result is concerned: besides the capital letters, the
  dotted capital I and the Kelvin sign become ASCII letters.
\<close>

definition lower_rune :: "nat \<Rightarrow> nat" where
  "lower_rune r =
     (if 65 \<le> r \<and> r \<le> 90 then r + 32 else if r = 0x130 then 105 else if r = 0x212A then 107 else r)"

definition lowers_to :: "string \<Rightarrow> string \<Rightarrow> bool" where
  "lowers_to s t = (map lower_rune (runes s) = map of_char t)"

definition Cri :: string where
  "Cri = ''cri''"

definition RuntimeKind_Set :: "string \<Rightarrow> string result" where
  "RuntimeKind_Set s =
     (if lowers_to s Cri then Inr Cri else Inl (ErrText ''invalid container-runtime option''))"

subsection \<open>The network namespace of a pod\<close>

text \<open>A decoded JSON value; a number is given by its integer part, all the code uses of it.\<close>

datatype json =
    JNull
  | JBool bool
  | JNum int
  | JStr string
  | JList "json list"
  | JObj "(string \<times> json) list"

text \<open>The container runtime: the text under "info" in the verbose status of a container.\<close>

record criService =
  ContainerStatus :: "string \<Rightarrow> string result"
  json_Unmarshal :: "string \<Rightarrow> json result"

definition selectContainerID :: "containerStatus list \<Rightarrow> string" where
  "selectContainerID statuses =
     (case find (\<lambda>s. csContainerID s \<noteq> [] \<and> csRunning s) statuses of
        Some s \<Rightarrow> csContainerID s
      | None \<Rightarrow>
          (case find (\<lambda>s. csContainerID s \<noteq> []) statuses of
             Some s \<Rightarrow> csContainerID s
           | None \<Rightarrow> []))"

text \<open>
  The process ID in the decoded status. The type assertion to a JSON object is unchecked: any
  other value makes it panic.
\<close>

definition pidOf :: "json \<Rightarrow> int result" where
  "pidOf infop =
     (case infop of
        JObj kvs \<Rightarrow>
          (case map_of kvs ''pid'' of
             Some (JNum pid) \<Rightarrow> Inr pid
           | _ \<Rightarrow> Inl (ErrText ''cannot get pid from containerStatus info''))
      | _ \<Rightarrow> Inl (Panic ''interface conversion''))"

definition GetPodNetNSPathWithContext :: "criService option \<Rightarrow> pod \<Rightarrow> string result" where
  "GetPodNetNSPathWithContext criClient p =
     (if podPhase p \<noteq> ''Running'' then Inl (ErrText ''pod is not running'')
      else if length (podContainers p) = 0 then Inl (ErrText ''no container status'')
      else
        let containerIDRaw = selectContainerID (podContainers p) in
        if containerIDRaw = [] then Inl (ErrText ''no container ID'')
        else
          case Cut containerIDRaw ''://'' of (runtimeKind, containerID, ok) \<Rightarrow>
          if \<not> ok \<or> containerID = [] then Inl (ErrText ''invalid container ID'')
          else
            case criClient of
              None \<Rightarrow> Inl (ErrText ''cannot find cri client'')
            | Some cri \<Rightarrow>
                (case ContainerStatus cri containerID of
                   Inl e \<Rightarrow> Inl (wrap_error ''cannot get containerStatus'' e)
                 | Inr info \<Rightarrow>
                     (case json_Unmarshal cri info of
                        Inl e \<Rightarrow> Inl (wrap_error ''cannot unmarshal containerStatus info'' e)
                      | Inr infop \<Rightarrow>
                          (case pidOf infop of
                             Inl e \<Rightarrow> Inl e
                           | Inr pid \<Rightarrow> Inr (''/proc/'' @ fmt_int pid @ ''/ns/net'')))))"

subsection \<open>The networks a pod selects\<close>

definition dns_alnum :: "char \<Rightarrow> bool" where
  "dns_alnum c = (let n = of_char c :: int in (97 \<le> n \<and> n \<le> 122) \<or> (48 \<le> n \<and> n \<le> 57))"

text \<open>The pattern \<^verbatim>\<open>^[a-z0-9]([-a-z0-9]*[a-z0-9])?$\<close>, or the empty text.\<close>

definition dns_item :: "string \<Rightarrow> bool" where
  "dns_item s =
     (s = [] \<or> (dns_alnum (hd s) \<and> dns_alnum (last s) \<and> list_all (\<lambda>c. dns_alnum c \<or> c = CHR ''-'') s))"

definition parsePodNetworkObjectText :: "string \<Rightarrow> (string \<times> string \<times> string) result" where
  "parsePodNetworkObjectText podnetwork =
     (case (case Split (CHR ''/'') podnetwork of
              [n] \<Rightarrow> Inr ([], n)
            | [ns, n] \<Rightarrow> Inr (TrimSpace ns, n)
            | _ \<Rightarrow> Inl (ErrText ''Invalid network object (failed at '/')'')) of
        Inl e \<Rightarrow> Inl e
      | Inr (netNsName, name0) \<Rightarrow>
          (case (case Split (CHR ''@'') name0 of
                   [n] \<Rightarrow> Inr (TrimSpace n, [])
                 | [n, i] \<Rightarrow> Inr (TrimSpace n, TrimSpace i)
                 | _ \<Rightarrow> Inl (ErrText ''Invalid network object (failed at '@')'')) of
             Inl e \<Rightarrow> Inl e
           | Inr (networkName, netIfName) \<Rightarrow>
               if list_all dns_item [netNsName, networkName, netIfName]
               then Inr (netNsName, networkName, netIfName)
               else Inl (ErrText ''Failed to parse: one or more items did not match'')))"

text \<open>
  What is read of a pod: the JSON form of the selected networks (namespace and name of each;
  a null element is dereferenced and panics), and the list of network statuses.
\<close>

record podSource =
  decodeNetworks :: "string \<Rightarrow> (string \<times> string) option list result"
  GetNetworkStatus :: "pod \<Rightarrow> networkStatus list"
  sortInterfaces :: "interfaceInfo list \<Rightarrow> interfaceInfo list"

definition NetworkAttachmentAnnot :: string where
  "NetworkAttachmentAnnot = ''k8s.v1.cni.cncf.io/networks''"

definition ParseNetworkAnnotation :: "podSource \<Rightarrow> string \<Rightarrow> string \<Rightarrow> (string \<times> string) list result" where
  "ParseNetworkAnnotation L podNetworks defaultNamespace =
     (let dflt = (\<lambda>(ns, n). (if ns = [] then defaultNamespace else ns, n)) in
      if podNetworks = [] then Inl (ErrText ''parsePodNetworkAnnotation: pod annotation not having network as key'')
      else if list_ex (\<lambda>c. c \<in> {CHR ''['', CHR ''{'', CHR 0x22}) podNetworks then
        (case decodeNetworks L podNetworks of
           Inl e \<Rightarrow> Inl (ErrText ''parsePodNetworkAnnotation: failed to parse'')
         | Inr es \<Rightarrow>
             if None \<in> set es then Inl (Panic ''nil pointer dereference'') else Inr (map (dflt \<circ> the) es))
      else
        (case collect (\<lambda>item. parsePodNetworkObjectText (TrimSpace item)) (Split (CHR '','') podNetworks) of
           Inl e \<Rightarrow> Inl (ErrText ''parsePodNetworkAnnotation'')
         | Inr es \<Rightarrow> Inr (map (\<lambda>(ns, n, i). dflt (ns, n)) es)))"

text \<open>Without the annotation no network is selected; the error is of a type that is not logged.\<close>

definition ParsePodNetworkAnnotation :: "podSource \<Rightarrow> pod \<Rightarrow> (string \<times> string) list result" where
  "ParsePodNetworkAnnotation L p =
     (let netAnnot = (case map_of (podAnnotations p) NetworkAttachmentAnnot of None \<Rightarrow> [] | Some a \<Rightarrow> a) in
      if length netAnnot = 0 then Inl (ErrText ''no kubernetes network found'')
      else ParseNetworkAnnotation L netAnnot (podNamespace p))"

subsection \<open>The pod information\<close>

type_synonym namespacedName = "string \<times> string"

text \<open>The loop that resolves the plugin type of every selected network once.\<close>

fun resolvePlugins ::
  "(namespacedName \<Rightarrow> string result) \<Rightarrow> string \<Rightarrow> (string \<times> string) list \<Rightarrow>
   (namespacedName \<times> string) list \<Rightarrow> (namespacedName \<times> string) list result" where
  "resolvePlugins GetPluginType podNs [] networkPluginsMap = Inr networkPluginsMap"
| "resolvePlugins GetPluginType podNs (n # networks) networkPluginsMap =
     (let name = (if fst n \<noteq> [] then fst n else podNs, snd n) in
      if map_of networkPluginsMap name \<noteq> None
      then resolvePlugins GetPluginType podNs networks networkPluginsMap
      else
        case GetPluginType name of
          Inl e \<Rightarrow> Inl (wrap_error ''resolve plugin type for network attachment'' e)
        | Inr pluginType \<Rightarrow>
            resolvePlugins GetPluginType podNs networks ((name, pluginType) # networkPluginsMap))"

definition statusNetwork :: "string \<Rightarrow> networkStatus \<Rightarrow> namespacedName" where
  "statusNetwork podNs s =
     (case Split (CHR ''/'') (nsName s) of
        [a, b] \<Rightarrow> (TrimSpace a, b)
      | _ \<Rightarrow> (podNs, nsName s))"

definition pluginOf :: "(namespacedName \<times> string) list \<Rightarrow> namespacedName \<Rightarrow> string" where
  "pluginOf m name = (case map_of m name of None \<Rightarrow> [] | Some t \<Rightarrow> t)"

definition statusInterfaces ::
  "string \<Rightarrow> string list \<Rightarrow> (namespacedName \<times> string) list \<Rightarrow> networkStatus list \<Rightarrow> interfaceInfo list" where
  "statusInterfaces podNs networkPlugins m statuses =
     concat (map (\<lambda>s.
       let name = statusNetwork podNs s in
       map (\<lambda>_. \<lparr>NetattachName = nsName s, InterfaceName = nsInterface s,
                  InterfaceType = pluginOf m name, IPs = nsIPs s\<rparr>)
         (filter (\<lambda>pluginName. pluginOf m name = pluginName) networkPlugins)) statuses)"

definition NewPodInfoFromPod ::
  "podSource \<Rightarrow> pod \<Rightarrow> criService option \<Rightarrow> string \<Rightarrow> string list \<Rightarrow> (namespacedName \<Rightarrow> string result) \<Rightarrow>
   podInfo result" where
  "NewPodInfoFromPod L p criClient hostname networkPlugins GetPluginType =
     (let info = (\<lambda>statuses path netifs.
            \<lparr>piName = podName p, piNamespace = podNamespace p, piNetNSPath = path,
             piNetworkStatus = statuses, piNodeName = podNodeName p, piInterfaces = sortInterfaces L netifs\<rparr>) in
      if \<not> IsMultiNetworkpolicyTarget p then Inr (info [] [] [])
      else
        let parsed = ParsePodNetworkAnnotation L p in
        if is_panic parsed then Inl (projl parsed)
        else
          let networks = (case parsed of Inl e \<Rightarrow> [] | Inr ns \<Rightarrow> ns); statuses = GetNetworkStatus L p in
          case resolvePlugins GetPluginType (podNamespace p) networks [] of
            Inl e \<Rightarrow> Inl e
          | Inr m \<Rightarrow>
              let netifs = statusInterfaces (podNamespace p) networkPlugins m statuses in
              if 0 < length netifs \<and> CheckNodeNameIdentical hostname (podNodeName p) \<and> criClient \<noteq> None
              then
                (case GetPodNetNSPathWithContext criClient p of
                   Inl e \<Rightarrow> Inl (wrap_error ''resolve pod network namespace'' e)
                 | Inr path \<Rightarrow> Inr (info statuses path netifs))
              else Inr (info statuses [] netifs))"

subsection \<open>Properties of pod lookups\<close>

lemma selectContainerID_in:
  assumes "selectContainerID ss = raw" "raw \<noteq> []"
  shows "\<exists>s \<in> set ss. csContainerID s = raw \<and> ((\<exists>s' \<in> set ss. csContainerID s' \<noteq> [] \<and> csRunning s') \<longrightarrow> csRunning s)"
  using assms
  by (auto simp: selectContainerID_def find_None_iff find_Some_iff split: option.splits)


definition demo_cri :: "json \<Rightarrow> criService" where
  "demo_cri v = \<lparr>ContainerStatus = (\<lambda>cid. if cid = ''c1'' then Inr ''{}'' else Inl ErrNotExist),
                 json_Unmarshal = (\<lambda>_. Inr v)\<rparr>"

definition demo_running :: pod where
  "demo_running = \<lparr>podName = ''p'', podNamespace = ''ns'', podLabels = [], podAnnotations = [],
     podPhase = ''Running'', podHostNetwork = False, podNodeName = ''n1'',
     podContainers = [\<lparr>csName = ''init'', csContainerID = ''containerd://c0'', csRunning = False\<rparr>,
                      \<lparr>csName = ''app'', csContainerID = ''containerd://c1'', csRunning = True\<rparr>]\<rparr>"

lemmas demo_cri_simps = demo_cri_def demo_running_def GetPodNetNSPathWithContext_def selectContainerID_def
  pidOf_def HasPrefix_def fmt_int_def digits_base.simps digit_char_def

lemma demo_path:
  "GetPodNetNSPathWithContext (Some (demo_cri (JObj [(''pid'', JNum 42)]))) demo_running = Inr ''/proc/42/ns/net''"
  by code_simp


text \<open>
  C35. The reply of the runtime is trusted to be a JSON object: for a container the runtime
  knows, the lookup ends in a value or an error exactly when the decoded reply is an object,
  and any other reply, for instance null, makes the daemon panic.
\<close>

theorem GetPodNetNSPath_panics:
  assumes "podPhase p = ''Running''" and "Cut (selectContainerID (podContainers p)) ''://'' = (kind, cid, True)"
    and "cid \<noteq> []" and "ContainerStatus cri cid = Inr info" and "json_Unmarshal cri info = Inr v"
  shows "is_panic (GetPodNetNSPathWithContext (Some cri) p) \<longleftrightarrow> (\<nexists>kvs. v = JObj kvs)"
proof -
  have ne: "selectContainerID (podContainers p) \<noteq> []" "podContainers p \<noteq> []"
    using assms(2) by (auto simp: selectContainerID_def)
  then show ?thesis
    using assms
    by (cases v) (auto simp: GetPodNetNSPathWithContext_def Let_def pidOf_def split: option.splits json.splits)
qed

theorem GetPodNetNSPath_panics_witness:
  "is_panic (GetPodNetNSPathWithContext (Some (demo_cri JNull)) demo_running)"
  using GetPodNetNSPath_panics [of demo_running "''containerd''" "''c1''" "demo_cri JNull" "''{}''" JNull]
  by (simp add: demo_cri_simps)

definition selectedName :: "string \<Rightarrow> string \<times> string \<Rightarrow> namespacedName" where
  "selectedName podNs n = (if fst n \<noteq> [] then fst n else podNs, snd n)"

lemma resolvePlugins_map:
  assumes "resolvePlugins G podNs networks m0 = Inr m"
    and "\<And>name t. map_of m0 name = Some t \<Longrightarrow> G name = Inr t"
  shows "map_of m name = Some t \<longleftrightarrow>
     (map_of m0 name \<noteq> None \<or> name \<in> selectedName podNs ` set networks) \<and> G name = Inr t"
  using assms
proof (induction networks arbitrary: m0)
  case Nil
  then have m: "m0 = m" by simp
  show ?case
  proof (cases "map_of m name")
    case (Some u)
    with Nil.prems(2) m have "G name = Inr u" by blast
    with Some m show ?thesis by auto
  qed (simp add: m)
next
  case (Cons n ns)
  let ?k = "selectedName podNs n"
  show ?case
  proof (cases "map_of m0 ?k")
    case None
    with Cons.prems obtain u where u: "G ?k = Inr u" "resolvePlugins G podNs ns ((?k, u) # m0) = Inr m"
      by (auto simp: selectedName_def Let_def split: sum.splits)
    have "G name' = Inr t'" if "map_of ((?k, u) # m0) name' = Some t'" for name' t'
      using that u(1) Cons.prems(2) by (cases "name' = ?k") simp_all
    from Cons.IH [OF u(2) this] show ?thesis
      using None by (cases "name = ?k") simp_all
  next
    case (Some u)
    with Cons.prems have "resolvePlugins G podNs ns m0 = Inr m"
      by (auto simp: selectedName_def Let_def)
    from Cons.IH [OF this Cons.prems(2)] Some show ?thesis by (cases "name = ?k") simp_all
  qed
qed

text \<open>The networks a pod's annotation selects; none if it does not parse.\<close>

definition selectedNetworks :: "podSource \<Rightarrow> pod \<Rightarrow> namespacedName set" where
  "selectedNetworks L p =
     (case ParsePodNetworkAnnotation L p of Inl e \<Rightarrow> {} | Inr ns \<Rightarrow> selectedName (podNamespace p) ` set ns)"

text \<open>
  C36. A pod's interfaces are exactly those of the configured plugins: a status entry of the
  pod becomes an interface if and only if the pod selects its network and the network's
  plugin type is one of the configured ones; name, addresses and type are carried over. A
  pod that is not running or uses the host network has no interface.
\<close>

theorem NewPodInfo_interfaces:
  assumes "NewPodInfoFromPod L p criClient hostname networkPlugins G = Inr info"
    and "\<And>ifs. set (sortInterfaces L ifs) = set ifs" and "[] \<notin> set networkPlugins"
  shows "i \<in> set (piInterfaces info) \<longleftrightarrow>
    IsMultiNetworkpolicyTarget p \<and>
    (\<exists>s \<in> set (GetNetworkStatus L p). \<exists>t \<in> set networkPlugins.
       statusNetwork (podNamespace p) s \<in> selectedNetworks L p \<and> G (statusNetwork (podNamespace p) s) = Inr t \<and>
       i = \<lparr>NetattachName = nsName s, InterfaceName = nsInterface s, InterfaceType = t, IPs = nsIPs s\<rparr>)"
proof (cases "IsMultiNetworkpolicyTarget p")
  case False
  with assms(1,2) show ?thesis by (auto simp: NewPodInfoFromPod_def Let_def)
next
  case True
  define networks where "networks = (case ParsePodNetworkAnnotation L p of Inl e \<Rightarrow> [] | Inr ns \<Rightarrow> ns)"
  from assms(1) True obtain m where
    m: "resolvePlugins G (podNamespace p) networks [] = Inr m" and
    ifs: "piInterfaces info = sortInterfaces L (statusInterfaces (podNamespace p) networkPlugins m (GetNetworkStatus L p))"
    by (auto simp: NewPodInfoFromPod_def Let_def networks_def split: if_splits sum.splits)
  have sel: "selectedNetworks L p = selectedName (podNamespace p) ` set networks"
    by (simp add: selectedNetworks_def networks_def split: sum.splits)
  have mm: "map_of m name = Some u \<longleftrightarrow> name \<in> selectedNetworks L p \<and> G name = Inr u" for name u
    using resolvePlugins_map [OF m] by (simp add: sel)
  have plugin: "pluginOf m name = t \<longleftrightarrow> name \<in> selectedNetworks L p \<and> G name = Inr t" if "t \<noteq> []" for name t
    using mm [of name] that by (cases "map_of m name") (auto simp: pluginOf_def)
  have "i \<in> set (statusInterfaces (podNamespace p) networkPlugins m ss) \<longleftrightarrow>
      (\<exists>s \<in> set ss. \<exists>t \<in> set networkPlugins. pluginOf m (statusNetwork (podNamespace p) s) = t \<and>
         i = \<lparr>NetattachName = nsName s, InterfaceName = nsInterface s, InterfaceType = t, IPs = nsIPs s\<rparr>)" for ss
    by (auto simp: statusInterfaces_def Let_def)
  moreover have "t \<noteq> []" if "t \<in> set networkPlugins" for t using that assms(3) by auto
  ultimately show ?thesis
    using True plugin by (simp add: ifs assms(2))
qed

definition demo_source :: podSource where
  "demo_source = \<lparr>decodeNetworks = (\<lambda>_. Inl (ErrText ''json'')),
     GetNetworkStatus = (\<lambda>p. [\<lparr>nsName = ''cbr0'', nsInterface = ''eth0'', nsIPs = [''10.0.0.1'']\<rparr>,
                             \<lparr>nsName = ''ns/mac'', nsInterface = ''net1'', nsIPs = [''10.1.0.1'']\<rparr>]),
     sortInterfaces = sort_key InterfaceName\<rparr>"

definition demo_networks :: pod where
  "demo_networks = demo_running\<lparr>podAnnotations := [(NetworkAttachmentAnnot, ''mac, other'')]\<rparr>"

definition demo_plugins :: "namespacedName \<Rightarrow> string result" where
  "demo_plugins n = (if n = (''ns'', ''mac'') then Inr ''macvlan'' else Inr ''bridge'')"

definition demo_interface :: interfaceInfo where
  "demo_interface = \<lparr>NetattachName = ''ns/mac'', InterfaceName = ''net1'', InterfaceType = ''macvlan'', IPs = [''10.1.0.1'']\<rparr>"

lemma demo_info_eq:
  "map_sum id piInterfaces (NewPodInfoFromPod demo_source demo_networks None ''n1'' [''macvlan''] demo_plugins) = Inr [demo_interface]"
  by code_simp

lemma demo_TrimSpace: "TrimSpace ''ns'' = ''ns''"
  by code_simp

theorem NewPodInfo_interfaces_witness:
  "\<exists>info. NewPodInfoFromPod demo_source demo_networks None ''n1'' [''macvlan''] demo_plugins = Inr info \<and>
     demo_interface \<in> set (piInterfaces info) \<and> (''ns'', ''mac'') \<in> selectedNetworks demo_source demo_networks"
proof -
  obtain info where i: "NewPodInfoFromPod demo_source demo_networks None ''n1'' [''macvlan''] demo_plugins = Inr info"
    "piInterfaces info = [demo_interface]"
    using demo_info_eq by (cases "NewPodInfoFromPod demo_source demo_networks None ''n1'' [''macvlan''] demo_plugins") auto
  have "set (sortInterfaces demo_source ifs) = set ifs" for ifs by (simp add: demo_source_def)
  from NewPodInfo_interfaces [OF i(1) this, of demo_interface] i
  obtain s where "s \<in> set (GetNetworkStatus demo_source demo_networks)" "nsName s = ''ns/mac''"
     "statusNetwork ''ns'' s \<in> selectedNetworks demo_source demo_networks"
    by (auto simp: demo_interface_def demo_networks_def demo_running_def)
  moreover from this have "statusNetwork ''ns'' s = (''ns'', ''mac'')"
    by (simp add: statusNetwork_def demo_TrimSpace)
  ultimately show ?thesis using i by auto
qed

end
