(* ===== verification/Names.thy ===== *)
theory Names
  imports Nft
begin

text \<open>
  Naming of nftables objects (pkg/server/netfilterrules.go, pkg/server/doc.go,
  pkg/server/server.go): sanitising and shortening of chain and set names, the hash that
  replaces names over 31 bytes, direction tests on chain names, comments and interface
  names as register contents.
\<close>

subsection \<open>Constants of pkg/server/doc.go\<close>

definition FilterTableName :: string where "FilterTableName = ''multi-networkpolicy-filter''"
definition NatTableName :: string where "NatTableName = ''multi-networkpolicy-nat''"
definition legacyFilterTableName :: string where "legacyFilterTableName = ''filter''"
definition legacyNatTableName :: string where "legacyNatTableName = ''nat''"
definition ingressChain :: string where "ingressChain = ''multi-ingress''"
definition egressChain :: string where "egressChain = ''multi-egress''"
definition portsChainSuffix :: string where "portsChainSuffix = ''ports''"
definition peersChainSuffix :: string where "peersChainSuffix = ''peers''"
definition peerIPBlockExceptPrefix :: string where "peerIPBlockExceptPrefix = ''peer_ipblock_except''"
definition peerIPBlockPrefix :: string where "peerIPBlockPrefix = ''peer_ipblock''"
definition protoIPv4 :: string where "protoIPv4 = ''ipv4''"
definition protoIPv6 :: string where "protoIPv6 = ''ipv6''"
definition allowConntrackRuleName :: string where "allowConntrackRuleName = ''allow-conntracked''"
definition common :: string where "common = ''common''"
definition destinationAddressSuffix :: string where "destinationAddressSuffix = ''daddrs''"
definition sourceAddressSuffix :: string where "sourceAddressSuffix = ''saddrs''"
definition podInterfacesName :: string where "podInterfacesName = ''pod_interfaces''"
definition PolicyNetworkAnnotation :: string where
  "PolicyNetworkAnnotation = ''k8s.v1.cni.cncf.io/policy-for''"
definition peerRuleMark :: u32 where "peerRuleMark = 0x20000"
definition portRuleMark :: u32 where "portRuleMark = 0x10000"
definition matchRuleMark :: u32 where "matchRuleMark = 0x30000"
definition zeroRuleMark :: u32 where "zeroRuleMark = 0"

lemmas name_consts =
  FilterTableName_def NatTableName_def legacyFilterTableName_def legacyNatTableName_def
  ingressChain_def egressChain_def portsChainSuffix_def peersChainSuffix_def
  peerIPBlockExceptPrefix_def peerIPBlockPrefix_def protoIPv4_def protoIPv6_def
  allowConntrackRuleName_def common_def destinationAddressSuffix_def sourceAddressSuffix_def
  podInterfacesName_def PolicyNetworkAnnotation_def

lemmas mark_consts = peerRuleMark_def portRuleMark_def matchRuleMark_def zeroRuleMark_def

subsection \<open>Sanitising and shortening\<close>

definition nftNameMaxLen :: nat where
  "nftNameMaxLen = 255"

definition sanitizeNftChar :: "nat \<Rightarrow> nat" where
  "sanitizeNftChar r =
     (if (97 \<le> r \<and> r \<le> 122) \<or> (65 \<le> r \<and> r \<le> 90) \<or> (48 \<le> r \<and> r \<le> 57)
         \<or> r = 95 \<or> r = 45 \<or> r = 46
      then r else 95)"

definition truncateNftName :: "string \<Rightarrow> int \<Rightarrow> string" where
  "truncateNftName name maxLen =
     (if maxLen \<le> 0 then ''''
      else let sanitized = strings_Map sanitizeNftChar name in
        if int (length sanitized) \<le> maxLen then sanitized
        else let suffix = ''-'' @ fmt_08x (fnv32a (bytes_of name)) in
          if maxLen \<le> int (length suffix)
          then let hash = drop 1 suffix in
            if maxLen < int (length hash) then take (nat maxLen) hash else hash
          else take (nat (maxLen - int (length suffix))) sanitized @ suffix)"

definition nftNameWithSuffix :: "string \<Rightarrow> string \<Rightarrow> string \<Rightarrow> string" where
  "nftNameWithSuffix base separator suffix =
     (let sanitizedSeparator = strings_Map sanitizeNftChar separator;
          sanitizedSuffix = strings_Map sanitizeNftChar suffix;
          suffixLen = length sanitizedSeparator + length sanitizedSuffix in
      if suffixLen = 0 then truncateNftName base (int nftNameMaxLen)
      else if nftNameMaxLen \<le> suffixLen
      then truncateNftName (base @ sanitizedSeparator @ sanitizedSuffix) (int nftNameMaxLen)
      else truncateNftName base (int nftNameMaxLen - int suffixLen)
             @ sanitizedSeparator @ sanitizedSuffix)"

definition getSetName :: "string \<Rightarrow> string" where
  "getSetName str = ReplaceAll1 (CHR ''-'') ''_'' str"

definition isIngressChain :: "string \<Rightarrow> bool" where
  "isIngressChain chainName = HasPrefix chainName ingressChain"

definition getMetaKeyInterface :: "string \<Rightarrow> u32" where
  "getMetaKeyInterface chainName =
     (if isIngressChain chainName then MetaKeyIIFNAME else MetaKeyOIFNAME)"

definition getAddressSuffix :: "string \<Rightarrow> string" where
  "getAddressSuffix chainName =
     (if isIngressChain chainName then sourceAddressSuffix else destinationAddressSuffix)"

definition getProtocolInfo :: "string \<Rightarrow> string \<times> byte list" where
  "getProtocolInfo protocol =
     (if protocol = ''UDP'' then (''udp'', [IPPROTO_UDP])
      else if protocol = ''SCTP'' then (''sctp'', [IPPROTO_SCTP])
      else (''tcp'', [IPPROTO_TCP]))"

text \<open>An interface name as the 16 bytes of the kernel's IFNAMSIZ buffer.\<close>

definition ifname :: "string \<Rightarrow> byte list" where
  "ifname n = (let src = bytes_of n @ [0] in take 16 src @ replicate (16 - length src) 0)"

definition userDataCommentMaxLen :: nat where
  "userDataCommentMaxLen = 254"

definition userDataComment :: "string \<Rightarrow> byte list" where
  "userDataComment comment =
     userdata_AppendString [] TypeComment
       (if userDataCommentMaxLen < length comment then take userDataCommentMaxLen comment else comment)"

subsection \<open>Sanitised names are valid and bounded\<close>

definition nft_char :: "char \<Rightarrow> bool" where
  "nft_char c \<longleftrightarrow> (let r = of_char c :: nat in
     (97 \<le> r \<and> r \<le> 122) \<or> (65 \<le> r \<and> r \<le> 90) \<or> (48 \<le> r \<and> r \<le> 57) \<or> r = 95 \<or> r = 45 \<or> r = 46)"

definition valid_nft_name :: "string \<Rightarrow> bool" where
  "valid_nft_name s \<longleftrightarrow> list_all nft_char s"

lemma valid_nft_name_append [simp]:
  "valid_nft_name (s @ t) \<longleftrightarrow> valid_nft_name s \<and> valid_nft_name t"
  by (simp add: valid_nft_name_def)

lemma valid_nft_name_Nil [simp]: "valid_nft_name []"
  by (simp add: valid_nft_name_def)

lemma valid_nft_name_Cons [simp]: "valid_nft_name (c # s) \<longleftrightarrow> nft_char c \<and> valid_nft_name s"
  by (simp add: valid_nft_name_def)

lemma nft_char_dash [simp]: "nft_char (CHR ''-'')"
  by (simp add: nft_char_def)

lemma valid_nft_name_take: "valid_nft_name s \<Longrightarrow> valid_nft_name (take n s)"
  by (simp add: valid_nft_name_def list_all_takeI)

lemma sanitizeNftChar_ascii: "sanitizeNftChar r < 128"
  by (simp add: sanitizeNftChar_def)

lemma nft_char_sanitize: "nft_char (char_of (sanitizeNftChar r))"
  by (auto simp: nft_char_def sanitizeNftChar_def Let_def)

lemma sanitize_valid [simp]: "valid_nft_name (strings_Map sanitizeNftChar s)"
  by (simp add: valid_nft_name_def strings_Map_ascii_eq [OF sanitizeNftChar_ascii]
      list_all_iff nft_char_sanitize)

lemma length_sanitize: "length (strings_Map sanitizeNftChar s) \<le> length s"
  by (simp add: length_strings_Map_ascii [OF sanitizeNftChar_ascii] length_runes)

lemma nft_char_ascii: "nft_char c \<Longrightarrow> (of_char c :: nat) < 128"
  by (auto simp: nft_char_def Let_def)

lemma sanitize_id: "valid_nft_name s \<Longrightarrow> strings_Map sanitizeNftChar s = s"
proof -
  assume v: "valid_nft_name s"
  then have "runes s = map of_char s"
    by (intro runes_ascii) (auto simp: valid_nft_name_def list_all_iff dest: nft_char_ascii)
  moreover have "c \<in> set s \<Longrightarrow> sanitizeNftChar (of_char c) = of_char c" for c
    using v by (auto simp: valid_nft_name_def list_all_iff nft_char_def sanitizeNftChar_def Let_def)
  ultimately show ?thesis
    by (simp add: strings_Map_ascii_eq [OF sanitizeNftChar_ascii] map_idI)
qed

lemma nft_char_digit: "0 \<le> d \<Longrightarrow> d < 16 \<Longrightarrow> nft_char (digit_char d)"
  by (auto simp: nft_char_def digit_char_def Let_def)

lemma fmt_x_valid [simp]: "valid_nft_name (fmt_x h)"
  by (auto simp: valid_nft_name_def list_all_iff fmt_x_def
      dest!: digits_base_digits [rotated 2] intro: nft_char_digit)

lemma fmt_08x_valid [simp]: "valid_nft_name (fmt_08x h)"
  using fmt_x_valid [of h]
  by (auto simp: fmt_08x_def Let_def valid_nft_name_def list_all_iff nft_char_def)

lemma truncateNftName_valid: "valid_nft_name (truncateNftName name maxLen)"
  by (simp add: truncateNftName_def Let_def valid_nft_name_take)

lemma truncateNftName_length: "int (length (truncateNftName name maxLen)) \<le> max 0 maxLen"
  by (auto simp: truncateNftName_def Let_def)

lemma truncateNftName_short:
  "valid_nft_name name \<Longrightarrow> int (length name) \<le> maxLen \<Longrightarrow> truncateNftName name maxLen = name"
  by (cases name) (auto simp: truncateNftName_def sanitize_id)

lemma nftNameWithSuffix_valid: "valid_nft_name (nftNameWithSuffix base sep suf)"
  by (simp add: nftNameWithSuffix_def Let_def truncateNftName_valid)

lemma length_truncateNftName_le: "length (truncateNftName name m) \<le> nat m"
  using truncateNftName_length [of name m] by linarith

lemma nftNameWithSuffix_length: "length (nftNameWithSuffix base sep suf) \<le> nftNameMaxLen"
proof -
  define a b where "a = strings_Map sanitizeNftChar sep" and "b = strings_Map sanitizeNftChar suf"
  consider "length a + length b = 0" | "nftNameMaxLen \<le> length a + length b" "length a + length b \<noteq> 0"
    | "length a + length b < nftNameMaxLen" "length a + length b \<noteq> 0"
    by linarith
  then show ?thesis
  proof cases
    case 1
    with length_truncateNftName_le [of base "int nftNameMaxLen"] show ?thesis
      by (auto simp: nftNameWithSuffix_def Let_def a_def b_def)
  next
    case 2
    with length_truncateNftName_le [of "base @ a @ b" "int nftNameMaxLen"] show ?thesis
      by (auto simp: nftNameWithSuffix_def Let_def a_def b_def)
  next
    case 3
    have "length (truncateNftName base (int nftNameMaxLen - int (length a + length b)))
        \<le> nftNameMaxLen - (length a + length b)"
      using length_truncateNftName_le [of base "int nftNameMaxLen - int (length a + length b)"]
      by linarith
    with 3 show ?thesis
      by (auto simp: nftNameWithSuffix_def Let_def a_def [symmetric] b_def [symmetric])
  qed
qed

lemma length_ifname: "length (ifname n) = 16"
  by (simp add: ifname_def Let_def)

subsection \<open>Properties of names and comments\<close>

text \<open>
  C32. Every name built by nftNameWithSuffix is accepted by nftables: it has at most 255 bytes
  and consists of letters, digits, dash, dot and underscore, whatever bytes the policy
  namespace, the policy name or the suffix contain.
\<close>

theorem nftNameWithSuffix_safe:
  "valid_nft_name (nftNameWithSuffix base separator suffix) \<and>
   length (nftNameWithSuffix base separator suffix) \<le> 255"
  using nftNameWithSuffix_valid nftNameWithSuffix_length by (simp add: nftNameMaxLen_def)

text \<open>
  truncateNftName returns at most the length asked for, only valid characters, and
  returns a name that is valid and short enough unchanged.
\<close>

lemma truncateNftName_bounded:
  "int (length (truncateNftName name maxLen)) \<le> max 0 maxLen \<and>
   valid_nft_name (truncateNftName name maxLen) \<and>
   (valid_nft_name name \<and> int (length name) \<le> maxLen \<longrightarrow> truncateNftName name maxLen = name)"
  using truncateNftName_length truncateNftName_valid truncateNftName_short by simp

text \<open>
  C33. A comment survives the encoding of rule user data: reading the comment back gives its
  first 254 bytes, the most that fit the one-byte length field with the terminator.
\<close>

theorem userDataComment_roundtrip:
  "userdata_GetString (userDataComment comment) TypeComment = Inr (Some (take 254 comment))"
  by (simp add: userDataComment_def userdata_GetString_AppendString userDataCommentMaxLen_def)

end
