(* ===== verification/Kernel.thy ===== *)
theory Kernel
  imports Nft
begin

text \<open>
  What the daemon relies on of the kernel's netlink interface, as a locale over the kernel
  parameter of theory Nft, and a small in-memory kernel that satisfies it. The in-memory
  kernel is executable: concrete runs of the daemon are evaluated on it.
\<close>

subsection \<open>Laws of the list and get requests\<close>

text \<open>
  An object that is returned is the one asked for; a listed object belongs to the table
  asked for; listed rules carry the handle the kernel gave them.
\<close>

locale netlink_reads =
  fixes K :: "'k kernel"
  assumes table_found: "k_table K k fam name = Inr t \<Longrightarrow> tName t = name \<and> tFamily t = fam"
    and chain_found: "k_chain K k t name = Inr c \<Longrightarrow> cTable c = t \<and> cName c = name"
    and set_found: "k_set K k t name = Inr s \<Longrightarrow> sTable s = t \<and> sName s = name"
    and rules_listed: "k_rules K k t ch = Inr rs \<Longrightarrow> r \<in> set rs \<Longrightarrow>
          rTable r = t \<and> rChain r = ch \<and> rHandle r \<noteq> 0"
    and sets_listed: "k_sets K k t = Inr ss \<Longrightarrow> s \<in> set ss \<Longrightarrow> sTable s = t"
    and tables_listed: "k_tables K k fam = Inr ts \<Longrightarrow> t \<in> set ts \<Longrightarrow> tFamily t = fam"
    and chains_listed: "k_chains K k fam = Inr cs \<Longrightarrow> c \<in> set cs \<Longrightarrow> tFamily (cTable c) = fam"

subsection \<open>Guarded batches\<close>

text \<open>
  The table a message is about. A batch is guarded by \<open>ok\<close> when all its messages satisfy
  \<open>ok\<close>; the locale assumes that committing such a batch keeps a property of the kernel
  state. Its lemmas lift this to every operation of the connection, so a handler that only
  buffers \<open>ok\<close> messages keeps the property, however often it flushes.
\<close>

fun msg_table :: "nft_msg \<Rightarrow> nft_table" where
  "msg_table (MsgNewTable t) = t"
| "msg_table (MsgDelTable t) = t"
| "msg_table (MsgNewChain c) = cTable c"
| "msg_table (MsgDelChain c) = cTable c"
| "msg_table (MsgNewRule op r) = rTable r"
| "msg_table (MsgDelRule r) = rTable r"
| "msg_table (MsgNewSet s n) = sTable s"
| "msg_table (MsgDelSet s) = sTable s"
| "msg_table (MsgNewSetElem s es) = sTable s"
| "msg_table (MsgDelSetElem s es) = sTable s"

definition guarded :: "(nft_msg \<Rightarrow> bool) \<Rightarrow> ('k \<Rightarrow> bool) \<Rightarrow> 'k conn \<Rightarrow> bool" where
  "guarded ok I c \<longleftrightarrow> list_all ok (messages c) \<and> I (kst c)"

named_theorems guarded_intros \<open>connection operations that keep the guard\<close>

locale guarded_batches =
  fixes K :: "'k kernel" and ok :: "nft_msg \<Rightarrow> bool" and I :: "'k \<Rightarrow> bool"
  assumes commit: "I k \<Longrightarrow> list_all ok ms \<Longrightarrow> I (snd (k_commit K k ms))"
begin

lemma guarded_Flush: "keeps (guarded ok I) (Flush K)"
  using commit
  by (auto intro!: keepsI simp: guarded_def Flush_def Let_def split: option.splits prod.splits) fastforce+

end

lemma guarded_new_conn: "I k \<Longrightarrow> guarded ok I (new_conn k)"
  by (simp add: guarded_def new_conn_def)

lemma guarded_buffer [guarded_intros]: "ok m \<Longrightarrow> keeps (guarded ok I) (buffer m)"
  by (simp add: keeps_def buffer_def modify_def guarded_def)

lemma guarded_modify: 
  "(\<And>c. messages (f c) = messages c) \<Longrightarrow> (\<And>c. kst (f c) = kst c) \<Longrightarrow> keeps (guarded ok I) (modify f)"
  by (simp add: keeps_def modify_def guarded_def)

lemma guarded_setErr [guarded_intros]: "keeps (guarded ok I) (setErr e)"
  unfolding setErr_def by (rule guarded_modify) (auto split: option.splits)

lemma guarded_allocateTransactionID [guarded_intros]: "keeps (guarded ok I) allocateTransactionID"
  unfolding allocateTransactionID_def by (intro keeps_intros guarded_modify) auto

lemma guarded_reads [guarded_intros]:
  "keeps (guarded ok I) (ListTablesOfFamily K fam)" "keeps (guarded ok I) (ListTableOfFamily K n fam)"
  "keeps (guarded ok I) (ListChainsOfTableFamily K fam)" "keeps (guarded ok I) (ListChain K t n)"
  "keeps (guarded ok I) (GetRules K t n)" "keeps (guarded ok I) (GetSets K t)"
  "keeps (guarded ok I) (GetSetByName K t n)" "keeps (guarded ok I) (GetSetElements K s)"
  by (simp_all add: ListTablesOfFamily_def ListTableOfFamily_def ListChainsOfTableFamily_def ListChain_def
      GetRules_def GetSets_def GetSetByName_def GetSetElements_def keeps_reads)

lemma guarded_AddTable [guarded_intros]: "ok (MsgNewTable t) \<Longrightarrow> keeps (guarded ok I) (AddTable t)"
  unfolding AddTable_def by (intro keeps_intros guarded_intros)

lemma guarded_DelTable [guarded_intros]: "ok (MsgDelTable t) \<Longrightarrow> keeps (guarded ok I) (DelTable t)"
  unfolding DelTable_def by (intro guarded_intros)

lemma guarded_AddChain [guarded_intros]: "ok (MsgNewChain c) \<Longrightarrow> keeps (guarded ok I) (AddChain c)"
  unfolding AddChain_def by (intro keeps_intros guarded_intros)

lemma guarded_DelChain [guarded_intros]: "ok (MsgDelChain c) \<Longrightarrow> keeps (guarded ok I) (DelChain c)"
  unfolding DelChain_def by (intro guarded_intros)

lemma guarded_DelSet [guarded_intros]: "ok (MsgDelSet s) \<Longrightarrow> keeps (guarded ok I) (DelSet s)"
  unfolding DelSet_def by (intro guarded_intros)

lemma guarded_DelRule [guarded_intros]: "ok (MsgDelRule r) \<Longrightarrow> keeps (guarded ok I) (DelRule r)"
  unfolding DelRule_def by (intro keeps_intros guarded_intros)

lemma guarded_newRule [guarded_intros]:
  "(\<And>i. ok (MsgNewRule op (r\<lparr>rID := i\<rparr>))) \<Longrightarrow> keeps (guarded ok I) (newRule op r)"
  using spec [of "\<lambda>i. ok (MsgNewRule op (r\<lparr>rID := i\<rparr>))" "rID r"]
  unfolding newRule_def by (intro keeps_intros guarded_intros) auto

lemma guarded_AddRule [guarded_intros]:
  "(\<And>op i. ok (MsgNewRule op (r\<lparr>rID := i\<rparr>))) \<Longrightarrow> keeps (guarded ok I) (AddRule r)"
  unfolding AddRule_def by (intro guarded_intros)

lemma guarded_InsertRule [guarded_intros]:
  "(\<And>op i. ok (MsgNewRule op (r\<lparr>rID := i\<rparr>))) \<Longrightarrow> keeps (guarded ok I) (InsertRule r)"
  unfolding InsertRule_def by (intro guarded_intros)

lemma guarded_SetAddElements [guarded_intros]:
  "(\<And>es. ok (MsgNewSetElem s es)) \<Longrightarrow> keeps (guarded ok I) (SetAddElements s els)"
  unfolding SetAddElements_def appendElemList_def by (intro keeps_intros guarded_intros)

lemma guarded_SetDeleteElements [guarded_intros]:
  "(\<And>es. ok (MsgDelSetElem s es)) \<Longrightarrow> keeps (guarded ok I) (SetDeleteElements s els)"
  unfolding SetDeleteElements_def appendElemList_def by (intro keeps_intros guarded_intros)

text \<open>A guard owns a table when it admits every message about it except its deletion.\<close>

fun is_DelTable :: "nft_msg \<Rightarrow> bool" where
  "is_DelTable (MsgDelTable t) = True"
| "is_DelTable m = False"

definition owns :: "(nft_msg \<Rightarrow> bool) \<Rightarrow> nft_table \<Rightarrow> bool" where
  "owns ok t \<longleftrightarrow> (\<forall>m. msg_table m = t \<and> \<not> is_DelTable m \<longrightarrow> ok m)"

lemma ownsD: "owns ok t \<Longrightarrow> msg_table m = t \<Longrightarrow> \<not> is_DelTable m \<Longrightarrow> ok m"
  by (simp add: owns_def)

lemma guarded_AddSet:
  assumes "owns ok (sTable s)"
  shows "ensures (guarded ok I) (AddSet s els) (\<lambda>s'. sTable s' = sTable s)"
proof -
  have id: "ensures (guarded ok I) allocateTransactionID (\<lambda>_. True)"
    by (intro keeps_ensures guarded_intros)
  have b: "ensures (guarded ok I) (buffer m) (\<lambda>_. True)" if "msg_table m = sTable s" "\<not> is_DelTable m" for m
    using that ownsD [OF assms] by (intro keeps_ensures guarded_intros) auto
  have e: "ensures (guarded ok I) (setErr e) (\<lambda>_. True)" for e
    by (intro keeps_ensures guarded_intros)
  show ?thesis
    unfolding AddSet_def appendElemList_def
    apply (rule ensures_if)
     apply (rule ensures_seq [OF e ensures_fail])
    apply (rule ensures_seq [where R = "\<lambda>s'. sTable s' = sTable s"])
     apply (rule ensures_if)
      apply (rule ensures_seq [OF id ensures_ret])
      apply simp
     apply (simp add: ensures_ret)
    apply (rule ensures_seq [OF b])
      apply simp_all
    apply (intro conjI impI)
     apply (simp add: ensures_ret)
    apply (rule ensures_seq [OF b ensures_ret])
      apply simp_all
    done
qed

subsection \<open>An in-memory kernel\<close>

record mem =
  m_tables :: "nft_table list"
  m_chains :: "nft_chain list"
  m_rules :: "nft_rule list"
  m_sets :: "nft_set list"
  m_elems :: "(nft_table \<times> string \<times> set_element) list"
  m_next :: nat

definition mem_empty :: mem where
  "mem_empty = \<lparr>m_tables = [], m_chains = [], m_rules = [], m_sets = [], m_elems = [], m_next = 0\<rparr>"

definition found :: "'a option \<Rightarrow> 'a answer" where
  "found x = (case x of None \<Rightarrow> Inl ENOENT | Some y \<Rightarrow> Inr y)"

lemma found_Inr [simp]: "found x = Inr y \<longleftrightarrow> x = Some y"
  by (simp add: found_def split: option.splits)

text \<open>The kernel does not report the ID of a set in a lookup expression.\<close>

fun listed_expr :: "nft_expr \<Rightarrow> nft_expr" where
  "listed_expr (Lookup s d isd sid sn ivt) = Lookup s d isd 0 sn ivt"
| "listed_expr e = e"

definition handle_of :: "nat \<Rightarrow> u64" where
  "handle_of n = (if of_nat n = (0 :: u64) then 1 else of_nat n)"

lemma handle_of_neq_0 [simp]: "handle_of n \<noteq> 0"
  by (simp add: handle_of_def)

definition listed_rule :: "nat \<Rightarrow> nft_rule \<Rightarrow> nft_rule" where
  "listed_rule h r = r\<lparr>rHandle := handle_of h, rID := 0, rExprs := map listed_expr (rExprs r)\<rparr>"

definition same_elem :: "nft_set \<Rightarrow> set_element list \<Rightarrow> nft_table \<times> string \<times> set_element \<Rightarrow> bool" where
  "same_elem s es x = (fst x = sTable s \<and> fst (snd x) = sName s \<and>
     list_ex (\<lambda>e. eKey e = eKey (snd (snd x)) \<and> eIntervalEnd e = eIntervalEnd (snd (snd x))) es)"

definition same_rule :: "nft_rule \<Rightarrow> nft_rule \<Rightarrow> bool" where
  "same_rule r q = (rTable q = rTable r \<and> rChain q = rChain r \<and> rHandle q = rHandle r)"

fun mem_apply :: "nft_msg \<Rightarrow> mem \<Rightarrow> mem option" where
  "mem_apply (MsgNewTable t) m =
     Some (if t \<in> set (m_tables m) then m else m\<lparr>m_tables := m_tables m @ [t]\<rparr>)"
| "mem_apply (MsgDelTable t) m =
     Some (m\<lparr>m_tables := filter (\<lambda>t'. t' \<noteq> t) (m_tables m),
             m_chains := filter (\<lambda>c. cTable c \<noteq> t) (m_chains m),
             m_rules := filter (\<lambda>r. rTable r \<noteq> t) (m_rules m),
             m_sets := filter (\<lambda>s. sTable s \<noteq> t) (m_sets m),
             m_elems := filter (\<lambda>x. fst x \<noteq> t) (m_elems m)\<rparr>)"
| "mem_apply (MsgNewChain c) m =
     Some (if list_ex (\<lambda>c'. cTable c' = cTable c \<and> cName c' = cName c) (m_chains m) then m
           else m\<lparr>m_chains := m_chains m @ [c]\<rparr>)"
| "mem_apply (MsgDelChain c) m =
     (if list_ex (\<lambda>r. rTable r = cTable c \<and> rChain r = cName c) (m_rules m) then None
      else Some (m\<lparr>m_chains := filter (\<lambda>c'. \<not> (cTable c' = cTable c \<and> cName c' = cName c)) (m_chains m)\<rparr>))"
| "mem_apply (MsgNewRule op r) m =
     (let r' = listed_rule (Suc (m_next m)) r; m' = m\<lparr>m_next := Suc (m_next m)\<rparr> in
      case op of
        OpAdd \<Rightarrow> Some (m'\<lparr>m_rules := m_rules m @ [r']\<rparr>)
      | OpInsert \<Rightarrow> Some (m'\<lparr>m_rules := r' # m_rules m\<rparr>)
      | OpReplace \<Rightarrow> Some (m'\<lparr>m_rules := map (\<lambda>q. if same_rule r q then r' else q) (m_rules m)\<rparr>))"
| "mem_apply (MsgDelRule r) m =
     (if list_ex (same_rule r) (m_rules m)
      then Some (m\<lparr>m_rules := filter (\<lambda>q. \<not> same_rule r q) (m_rules m)\<rparr>) else None)"
| "mem_apply (MsgNewSet s k) m = Some (m\<lparr>m_sets := m_sets m @ [s\<lparr>sID := 0\<rparr>]\<rparr>)"
| "mem_apply (MsgDelSet s) m =
     Some (m\<lparr>m_sets := filter (\<lambda>s'. \<not> (sTable s' = sTable s \<and> sName s' = sName s)) (m_sets m),
             m_elems := filter (\<lambda>x. \<not> (fst x = sTable s \<and> fst (snd x) = sName s)) (m_elems m)\<rparr>)"
| "mem_apply (MsgNewSetElem s es) m =
     Some (m\<lparr>m_elems := m_elems m @ map (\<lambda>e. (sTable s, sName s, e)) es\<rparr>)"
| "mem_apply (MsgDelSetElem s es) m =
     Some (m\<lparr>m_elems := filter (\<lambda>x. \<not> same_elem s es x) (m_elems m)\<rparr>)"

fun mem_batch :: "nft_msg list \<Rightarrow> mem \<Rightarrow> mem option" where
  "mem_batch [] m = Some m"
| "mem_batch (x # xs) m = (case mem_apply x m of None \<Rightarrow> None | Some m' \<Rightarrow> mem_batch xs m')"

definition memK :: "mem kernel" where
  "memK = \<lparr>
     k_tables = (\<lambda>m fam. Inr (filter (\<lambda>t. tFamily t = fam) (m_tables m))),
     k_table = (\<lambda>m fam name. found (find (\<lambda>t. tName t = name \<and> tFamily t = fam) (m_tables m))),
     k_chains = (\<lambda>m fam. Inr (filter (\<lambda>c. tFamily (cTable c) = fam) (m_chains m))),
     k_chain = (\<lambda>m t name. found (find (\<lambda>c. cTable c = t \<and> cName c = name) (m_chains m))),
     k_rules = (\<lambda>m t ch. Inr (filter (\<lambda>r. rTable r = t \<and> rChain r = ch \<and> rHandle r \<noteq> 0) (m_rules m))),
     k_sets = (\<lambda>m t. Inr (filter (\<lambda>s. sTable s = t) (m_sets m))),
     k_set = (\<lambda>m t name. found (find (\<lambda>s. sTable s = t \<and> sName s = name) (m_sets m))),
     k_elems = (\<lambda>m s. Inr (map (snd \<circ> snd) (filter (\<lambda>x. fst x = sTable s \<and> fst (snd x) = sName s) (m_elems m)))),
     k_commit = (\<lambda>m ms. case mem_batch ms m of
                           None \<Rightarrow> (Some (NlError ''netlink''), m)
                         | Some m' \<Rightarrow> (None, m'))\<rparr>"

interpretation memK: netlink_reads memK
  by unfold_locales (auto simp: memK_def find_Some_iff)

end
