(* ===== verification/NftState.thy ===== *)
theory NftState
  imports Names Kernel
begin

text \<open>
  The rule generator's state and its three primitive updates (pkg/server/netfilterrules.go,
  pkg/server/encoder.go): a rule, a set or a chain is looked up in the kernel, created or
  adapted when needed, and recorded in the maps that the later cleanup consults.

  The parameters that do not come from the sources (the kernel, the process's gob type
  numbers, the byte order of the host) are the fields of \<open>env\<close>.
\<close>

record 'k env =
  kern :: "'k kernel"
  gobT :: gob_types
  hostBE :: bool

record 'k nftState =
  nft :: "'k conn"
  nfilter :: nft_table
  nnat :: nft_table
  interfaceFilterSet :: nft_set
  interfaceNatSet :: nft_set
  input_ch :: nft_chain
  output_ch :: nft_chain
  prerouting_ch :: nft_chain
  ingress_ch :: nft_chain
  egress_ch :: nft_chain
  commonIngress_ch :: nft_chain
  commonEgress_ch :: nft_chain
  nrules :: "string \<rightharpoonup> nft_rule"
  nsets :: "string \<rightharpoonup> nft_set"
  nchains :: "string \<rightharpoonup> nft_chain"

text \<open>
  The state bootstrapNetfilterRules starts with: the chain and interface set fields are nil
  there (here: the zero value) until they are assigned, and none is read before.
\<close>

definition zero_table :: nft_table where
  "zero_table = \<lparr>tName = [], tFamily = 0\<rparr>"

definition zero_chain :: nft_chain where
  "zero_chain = \<lparr>cName = [], cTable = zero_table, cHooknum = None, cPriority = None, cType = []\<rparr>"

definition zero_set :: nft_set where
  "zero_set = \<lparr>sTable = zero_table, sID = 0, sName = [], sAnonymous = False, sConstant = False,
     sInterval = False, sCounter = False, sKeyType = [], sKeyByteOrder = NoOrder, sComment = []\<rparr>"

definition new_nftState :: "'k conn \<Rightarrow> nft_table \<Rightarrow> nft_table \<Rightarrow> 'k nftState" where
  "new_nftState c ft nt =
     \<lparr>nft = c, nfilter = ft, nnat = nt, interfaceFilterSet = zero_set, interfaceNatSet = zero_set,
      input_ch = zero_chain, output_ch = zero_chain, prerouting_ch = zero_chain,
      ingress_ch = zero_chain, egress_ch = zero_chain, commonIngress_ch = zero_chain,
      commonEgress_ch = zero_chain, nrules = (\<lambda>_. None), nsets = (\<lambda>_. None), nchains = (\<lambda>_. None)\<rparr>"

definition mkRule :: "nft_table \<Rightarrow> string \<Rightarrow> string \<Rightarrow> nft_expr list \<Rightarrow> nft_rule" where
  "mkRule t ch comment es =
     \<lparr>rTable = t, rChain = ch, rHandle = 0, rID = 0, rExprs = es, rUserData = userDataComment comment\<rparr>"

lemma mkRule_simps [simp]:
  "rTable (mkRule t ch c es) = t" "rChain (mkRule t ch c es) = ch" "rHandle (mkRule t ch c es) = 0"
  "rExprs (mkRule t ch c es) = es" "rUserData (mkRule t ch c es) = userDataComment c"
  "rID (mkRule t ch c es) = 0"
  by (simp_all add: mkRule_def)

type_synonym ('k, 'a) stm = "('k nftState, 'a) comp"

definition inConn :: "('k conn, 'a) comp \<Rightarrow> ('k, 'a) stm" where
  "inConn m = zoom nft (\<lambda>c n. n\<lparr>nft := c\<rparr>) m"

subsection \<open>Hashing (encoder.go)\<close>

record ruleData =
  rdTable :: string
  rdChain :: string
  rdFamily :: tableFamily
  rdUserData :: "byte list"
  rdExprs :: "string list"

text \<open>The gob encoding of the expressions that newRuleData hashes; the others are skipped.\<close>

definition string_field :: "string \<Rightarrow> gob_field" where
  "string_field s = bytes_field (bytes_of s)"

definition u32_field :: "u32 \<Rightarrow> gob_field" where
  "u32_field w = uint_field (uint w)"

fun gob_expr :: "gob_types \<Rightarrow> nft_expr \<Rightarrow> byte list option" where
  "gob_expr G (Meta k sr r) = Some (gob_value G ''Meta'' [u32_field k, bool_field sr, u32_field r])"
| "gob_expr G (Lookup s d isd sid sn ivt) =
     Some (gob_value G ''Lookup''
       [u32_field s, u32_field d, bool_field isd, u32_field sid, string_field sn, bool_field ivt])"
| "gob_expr G (Verdict k c) = Some (gob_value G ''Verdict'' [int_field k, string_field c])"
| "gob_expr G (Cmp op r d) = Some (gob_value G ''Cmp'' [u32_field op, u32_field r, bytes_field d])"
| "gob_expr G (Payload ot d s b off l ct co cf) =
     Some (gob_value G ''Payload'' (map u32_field [ot, d, s, b, off, l, ct, co, cf]))"
| "gob_expr G (Ct r sr k d od) =
     Some (gob_value G ''Ct'' [u32_field r, bool_field sr, u32_field k, u32_field d, bool_field od])"
| "gob_expr G (Bitwise s d l m x) =
     Some (gob_value G ''Bitwise'' [u32_field s, u32_field d, u32_field l, bytes_field m, bytes_field x])"
| "gob_expr G (Counter b p) = None"
| "gob_expr G (OtherExpr n d) = None"

definition gob_hash :: "byte list \<Rightarrow> string" where
  "gob_hash bs = fmt_x (fnv32a bs)"

definition newRuleData :: "gob_types \<Rightarrow> nft_rule \<Rightarrow> ruleData" where
  "newRuleData G rule =
     \<lparr>rdTable = tName (rTable rule), rdChain = rChain rule, rdFamily = tFamily (rTable rule),
      rdUserData = rUserData rule,
      rdExprs = map gob_hash (List.map_filter (gob_expr G) (rExprs rule))\<rparr>"

definition gob_ruleData :: "gob_types \<Rightarrow> ruleData \<Rightarrow> byte list" where
  "gob_ruleData G d =
     gob_value G ''ruleData''
       [string_field (rdTable d), string_field (rdChain d), uint_field (uint (rdFamily d)),
        bytes_field (rdUserData d), strings_field (rdExprs d)]"

text \<open>
  \<^verbatim>\<open>hash\<close> returns an error when gob cannot encode its argument. It can encode every type it is
  called with here (strings and structs with exported fields, into a memory buffer), so
  the error branch of the callers is never taken; the callers keep it.
\<close>

definition hash_string :: "string \<Rightarrow> string result" where
  "hash_string s = Inr (gob_hash (gob_string s))"

definition hash_rule :: "gob_types \<Rightarrow> nft_rule \<Rightarrow> string result" where
  "hash_rule G rule = Inr (gob_hash (gob_ruleData G (newRuleData G rule)))"

subsection \<open>Comparing and updating rules\<close>

fun is_Counter :: "nft_expr \<Rightarrow> bool" where
  "is_Counter (Counter b p) = True"
| "is_Counter e = False"

text \<open>
  One round of the loop in ruleEqual: the two expressions have the same kind and the same
  fields; counters are equal whatever their values; expressions of any other kind are not.
\<close>

fun exprEqual :: "nft_expr \<Rightarrow> nft_expr \<Rightarrow> bool" where
  "exprEqual (Counter b p) e = is_Counter e"
| "exprEqual (OtherExpr n d) e = False"
| "exprEqual a b = (a = b)"

definition ruleEqual :: "nft_rule \<Rightarrow> nft_rule \<Rightarrow> bool" where
  "ruleEqual a b =
     (if rChain a \<noteq> rChain b then False
      else if tName (rTable a) \<noteq> tName (rTable b) then False
      else if length (rExprs a) \<noteq> length (rExprs b) then False
      else if rUserData a \<noteq> rUserData b then False
      else list_all2 exprEqual (rExprs a) (rExprs b))"

definition findRule :: "'k env \<Rightarrow> nft_rule \<Rightarrow> ('k, nft_rule option) stm" where
  "findRule E rule =
     seq (wrapped ''failed to list rules in table'' (inConn (GetRules (kern E) (rTable rule) (rChain rule)))) (\<lambda>rules.
     ret (find (ruleEqual rule) rules))"

text \<open>A forced update keeps the counter: the first counter of the old rule replaces the new rule's.\<close>

fun first_counter :: "nft_expr list \<Rightarrow> nft_expr option" where
  "first_counter [] = None"
| "first_counter (e # es) = (if is_Counter e then Some e else first_counter es)"

fun put_counter :: "nft_expr \<Rightarrow> nft_expr list \<Rightarrow> nft_expr list" where
  "put_counter c [] = []"
| "put_counter c (e # es) = (if is_Counter e then c # es else e # put_counter c es)"

definition copy_counter :: "nft_rule \<Rightarrow> nft_rule \<Rightarrow> nft_rule" where
  "copy_counter existing rule =
     (case first_counter (rExprs existing) of
        None \<Rightarrow> rule
      | Some c \<Rightarrow> rule\<lparr>rExprs := put_counter c (rExprs rule)\<rparr>)"

definition updateRule ::
  "'k env \<Rightarrow> nft_rule \<Rightarrow> (nft_rule \<Rightarrow> ('k conn, nft_rule) comp) \<Rightarrow> bool \<Rightarrow> ('k, bool) stm" where
  "updateRule E rule action forceUpdate =
     seq (lift_result (userdata_GetString (rUserData rule) TypeComment)) (\<lambda>comment.
     seq (wrapped ''failed to get rule by comment'' (findRule E rule)) (\<lambda>existingRule.
     seq (case existingRule of
            Some existing \<Rightarrow>
              if \<not> forceUpdate then ret (existing, False)
              else
                seq (wrapped ''failed to delete existing rule'' (inConn (DelRule existing))) (\<lambda>_.
                seq (inConn (action (copy_counter existing rule))) (\<lambda>r.
                ret (r, False)))
          | None \<Rightarrow>
              seq (inConn (action rule)) (\<lambda>r. ret (r, True))) (\<lambda>(rule', isNew).
     seq (wrapped ''failed to get hash for rule'' (lift_result (hash_rule (gobT E) rule'))) (\<lambda>key.
     seq (modify (\<lambda>n. n\<lparr>nrules := (nrules n)(key \<mapsto> rule')\<rparr>)) (\<lambda>_.
     ret isNew)))))"

subsection \<open>Updating sets\<close>

fun isPresent :: "set_element \<Rightarrow> set_element list \<Rightarrow> bool" where
  "isPresent toCheck [] = False"
| "isPresent toCheck (e # es) = (if eKey toCheck = eKey e then True else isPresent toCheck es)"

definition findNonCommon :: "set_element list \<Rightarrow> set_element list \<Rightarrow> set_element list" where
  "findNonCommon a b = filter (\<lambda>x. \<not> isPresent x b) a"

definition processElements ::
  "set_element list \<Rightarrow> set_element list \<Rightarrow> set_element list \<times> set_element list" where
  "processElements newEls existingEls =
     (findNonCommon newEls existingEls, findNonCommon existingEls newEls)"

definition setKey :: "nft_set \<Rightarrow> string" where
  "setKey s = tName (sTable s) @ ''-'' @ sName s"

text \<open>
  The caller's set object is updated in place (name, ID); the model returns it. An existing
  set keeps its kernel object in the map and the caller's set keeps ID 0.
\<close>

definition updateSet :: "'k env \<Rightarrow> nft_set \<Rightarrow> set_element list \<Rightarrow> ('k, nft_set) stm" where
  "updateSet E set0 elements =
     seq (if 31 < length (sName set0)
          then seq (wrapped ''failed to hash set name'' (lift_result (hash_string (sName set0)))) (\<lambda>h.
               ret (set0\<lparr>sName := h\<rparr>))
          else ret set0) (\<lambda>set.
     seq (attempt (inConn (GetSetByName (kern E) (sTable set) (sName set)))) (\<lambda>r.
     case r of
       Inl e \<Rightarrow>
         if \<not> errors_Is e ErrNotExist then fail (Wrap ''failed to get set'' e)
         else
           seq (wrapped ''failed to add set'' (inConn (AddSet set elements))) (\<lambda>set'.
           seq (modify (\<lambda>n. n\<lparr>nsets := (nsets n)(setKey set' \<mapsto> set')\<rparr>)) (\<lambda>_.
           ret set'))
     | Inr existingSet \<Rightarrow>
         seq (attempt (inConn (GetSetElements (kern E) existingSet))) (\<lambda>re.
         case re of
           Inl e \<Rightarrow> fail (ErrText ''failed to get elements for set'')
         | Inr existingElements \<Rightarrow>
             let (toAdd, toDel) = processElements elements existingElements in
             seq (if toDel \<noteq> []
                  then wrapped ''failed to remove elements from set'' (inConn (SetDeleteElements existingSet toDel))
                  else ret ()) (\<lambda>_.
             seq (if toAdd \<noteq> []
                  then wrapped ''failed to add elements to set'' (inConn (SetAddElements existingSet toAdd))
                  else ret ()) (\<lambda>_.
             seq (modify (\<lambda>n. n\<lparr>nsets := (nsets n)(setKey set \<mapsto> existingSet)\<rparr>)) (\<lambda>_.
             ret set))))))"

subsection \<open>Adding chains\<close>

definition chainID :: "nft_chain \<Rightarrow> string" where
  "chainID c = tName (cTable c) @ ''-'' @ cName c"

text \<open>
  \<^verbatim>\<open>ListChain\<close> returns a nil chain with every error, so the condition
  \<open>err is not-exist or existingChain is nil\<close> is written out as in the source, with the
  error branch after it.
\<close>

definition addChain :: "'k env \<Rightarrow> nft_chain \<Rightarrow> ('k, nft_chain) stm" where
  "addChain E chain0 =
     seq (if 31 < length (cName chain0)
          then seq (wrapped ''failed to hash chain name'' (lift_result (hash_string (cName chain0)))) (\<lambda>h.
               ret (chain0\<lparr>cName := h\<rparr>))
          else ret chain0) (\<lambda>chain.
     seq (attempt (inConn (ListChain (kern E) (cTable chain) (cName chain)))) (\<lambda>r.
     let existingChain = (case r of Inl e \<Rightarrow> None | Inr c \<Rightarrow> Some c);
         err = (case r of Inl e \<Rightarrow> Some e | Inr c \<Rightarrow> None) in
     seq (if (case err of Some e \<Rightarrow> errors_Is e ErrNotExist | None \<Rightarrow> False) \<or> Option.is_none existingChain
          then inConn (AddChain chain)
          else case err of
                 Some e \<Rightarrow>
                   if \<not> errors_Is e ErrExist then fail (Wrap ''failed to configure chain'' e)
                   else ret (the existingChain)
               | None \<Rightarrow> ret (the existingChain)) (\<lambda>c.
     seq (modify (\<lambda>n. n\<lparr>nchains := (nchains n)(chainID c \<mapsto> c)\<rparr>)) (\<lambda>_.
     ret c))))"

subsection \<open>Hashes are short\<close>

lemma length_gob_hash: "length (gob_hash bs) \<le> 8"
  by (simp add: gob_hash_def length_fmt_x)

definition ruleKey :: "gob_types \<Rightarrow> nft_rule \<Rightarrow> string" where
  "ruleKey G rule = gob_hash (gob_ruleData G (newRuleData G rule))"

lemma hash_rule_eq [simp]: "hash_rule G rule = Inr (ruleKey G rule)"
  by (simp add: hash_rule_def ruleKey_def)

definition shortName :: "string \<Rightarrow> string" where
  "shortName s = (if 31 < length s then gob_hash (gob_string s) else s)"

lemma length_shortName: "length (shortName s) \<le> 31"
  using length_gob_hash [of "gob_string s"] by (simp add: shortName_def)

lemma shortName_short [simp]: "length s \<le> 31 \<Longrightarrow> shortName s = s"
  by (simp add: shortName_def)

lemma userdata_GetString_userDataComment [simp]:
  "userdata_GetString (userDataComment c) TypeComment = Inr (Some (take userDataCommentMaxLen c))"
  by (simp add: userDataComment_def userdata_GetString_AppendString userDataCommentMaxLen_def)

subsection \<open>Comparison of rules\<close>

fun zero_counter :: "nft_expr \<Rightarrow> nft_expr" where
  "zero_counter (Counter b p) = Counter 0 0"
| "zero_counter e = e"

fun is_OtherExpr :: "nft_expr \<Rightarrow> bool" where
  "is_OtherExpr (OtherExpr n d) = True"
| "is_OtherExpr e = False"

lemma exprEqual_iff: "exprEqual a b \<longleftrightarrow> \<not> is_OtherExpr a \<and> zero_counter a = zero_counter b"
  by (cases a; cases b) auto

lemma list_all2_exprEqual_iff:
  "list_all2 exprEqual as bs \<longleftrightarrow>
     list_all (\<lambda>e. \<not> is_OtherExpr e) as \<and> map zero_counter as = map zero_counter bs"
proof (induction as arbitrary: bs)
  case Nil
  then show ?case by auto
next
  case (Cons a as)
  then show ?case by (cases bs) (auto simp: exprEqual_iff)
qed

lemma ruleEqual_alt:
  "ruleEqual a b \<longleftrightarrow>
     rChain a = rChain b \<and> tName (rTable a) = tName (rTable b) \<and> rUserData a = rUserData b \<and>
     list_all2 exprEqual (rExprs a) (rExprs b)"
  by (auto simp: ruleEqual_def dest: list_all2_lengthD)

lemma gob_expr_exprEqual: "exprEqual a b \<Longrightarrow> gob_expr G a = gob_expr G b"
  by (cases a; cases b) auto

lemma map_filter_gob_expr:
  "list_all2 exprEqual as bs \<Longrightarrow> List.map_filter (gob_expr G) as = List.map_filter (gob_expr G) bs"
  by (induction rule: list_all2_induct)
    (auto simp: List.map_filter_simps gob_expr_exprEqual split: option.splits)

lemma newRuleData_ruleEqual:
  assumes "ruleEqual a b" and "tFamily (rTable a) = tFamily (rTable b)"
  shows "newRuleData G a = newRuleData G b"
  using assms map_filter_gob_expr [of "rExprs a" "rExprs b" G]
  by (simp add: ruleEqual_alt newRuleData_def)

lemma exprEqual_refl: "\<not> is_OtherExpr e \<Longrightarrow> exprEqual e e"
  by (simp add: exprEqual_iff)

lemma put_counter_exprEqual:
  "list_all (\<lambda>e. \<not> is_OtherExpr e) es \<Longrightarrow> is_Counter c \<Longrightarrow> list_all2 exprEqual es (put_counter c es)"
  by (induction es) (auto simp: exprEqual_refl list_all2_same list_all_iff elim: is_Counter.elims)

lemma first_counter_is_Counter: "first_counter es = Some c \<Longrightarrow> is_Counter c"
  by (induction es) (auto split: if_splits)

lemma first_counter_None: "first_counter es = None \<longleftrightarrow> list_all (\<lambda>e. \<not> is_Counter e) es"
  by (induction es) auto

lemma first_counter_put:
  "is_Counter c \<Longrightarrow> first_counter (put_counter c es) = (if first_counter es = None then None else Some c)"
  by (induction es) auto

subsection \<open>What the connection does with a rule\<close>

definition emit :: "nft_msg list \<Rightarrow> 'k conn \<Rightarrow> 'k conn" where
  "emit ms c = c\<lparr>messages := messages c @ ms\<rparr>"

definition nextID :: "'k conn \<Rightarrow> u32" where
  "nextID c = (if lastID c + 1 = 0 then 1 else lastID c + 1)"

definition take_id :: "'k conn \<Rightarrow> 'k conn" where
  "take_id c = c\<lparr>allocatedIDs := allocatedIDs c + 1, lastID := nextID c\<rparr>"

definition has_id :: "'k conn \<Rightarrow> bool" where
  "has_id c \<longleftrightarrow> allocatedIDs c \<noteq> 0xFFFFFFFF"

lemma nextID_neq_0: "nextID c \<noteq> 0"
  by (simp add: nextID_def)

lemma emit_simps [simp]:
  "kst (emit ms c) = kst c" "messages (emit ms c) = messages c @ ms" "lastID (emit ms c) = lastID c"
  "allocatedIDs (emit ms c) = allocatedIDs c" "connErr (emit ms c) = connErr c"
  "emit ms (emit ms' c) = emit (ms' @ ms) c" "emit [] c = c"
  by (simp_all add: emit_def)

lemma take_id_simps [simp]:
  "kst (take_id c) = kst c" "messages (take_id c) = messages c" "lastID (take_id c) = nextID c"
  "connErr (take_id c) = connErr c" "allocatedIDs (take_id c) = allocatedIDs c + 1"
  by (simp_all add: take_id_def)

lemma buffer_eq [comp_simps]: "buffer m c = (Inr (), emit [m] c)"
  by (simp add: buffer_def emit_def modify_def)

lemma allocateTransactionID_eq [comp_simps]:
  "allocateTransactionID c =
     (if has_id c then (Inr (nextID c), take_id c)
      else (Inl (Panic ''trying to allocate more IDs in a single nftables transaction''), c))"
  by (simp add: allocateTransactionID_def comp_simps has_id_def nextID_def take_id_def)

lemma inConn_eq [comp_simps]: "inConn m n = (case m (nft n) of (r, c) \<Rightarrow> (r, n\<lparr>nft := c\<rparr>))"
  by (simp add: inConn_def comp_simps)

lemma newRule_eq:
  "rHandle r = 0 \<Longrightarrow> has_id c \<Longrightarrow>
     newRule op r c = (Inr (r\<lparr>rID := nextID c\<rparr>), emit [MsgNewRule op (r\<lparr>rID := nextID c\<rparr>)] (take_id c))"
  by (simp add: newRule_def comp_simps)

lemma ruleKey_rID [simp]: "ruleKey G (r\<lparr>rID := i\<rparr>) = ruleKey G r"
  by (simp add: ruleKey_def newRuleData_def)

definition record_rule :: "string \<Rightarrow> nft_rule \<Rightarrow> 'k nftState \<Rightarrow> 'k nftState" where
  "record_rule key r n = n\<lparr>nrules := (nrules n)(key \<mapsto> r)\<rparr>"

lemma record_rule_simps [simp]:
  "nft (record_rule key r n) = nft n" "nrules (record_rule key r n) = (nrules n)(key \<mapsto> r)"
  "nsets (record_rule key r n) = nsets n" "nchains (record_rule key r n) = nchains n"
  by (simp_all add: record_rule_def)

lemma findRule_eq [comp_simps]:
  "findRule E rule n =
     (case k_rules (kern E) (kst (nft n)) (rTable rule) (rChain rule) of
        Inl e \<Rightarrow> (Inl (Wrap ''failed to list rules in table'' (nl_err e)), n)
      | Inr rs \<Rightarrow> (Inr (find (ruleEqual rule) rs), n))"
  by (simp add: findRule_def comp_simps GetRules_def split: sum.splits)

lemma updateRule_found_eq:
  assumes "userdata_GetString (rUserData rule) TypeComment = Inr c"
    and "k_rules (kern E) (kst (nft n)) (rTable rule) (rChain rule) = Inr rs"
    and "find (ruleEqual rule) rs = Some ex"
  shows "updateRule E rule action False n = (Inr False, record_rule (ruleKey (gobT E) ex) ex n)"
  using assms by (simp add: updateRule_def comp_simps record_rule_def)

lemma updateRule_absent_eq:
  assumes "userdata_GetString (rUserData rule) TypeComment = Inr c"
    and "k_rules (kern E) (kst (nft n)) (rTable rule) (rChain rule) = Inr rs"
    and "find (ruleEqual rule) rs = None"
    and "rHandle rule = 0" and "has_id (nft n)"
  shows "updateRule E rule (newRule op) force n =
     (let r = rule\<lparr>rID := nextID (nft n)\<rparr> in
      (Inr True, record_rule (ruleKey (gobT E) rule) r
                   (n\<lparr>nft := emit [MsgNewRule op r] (take_id (nft n))\<rparr>)))"
  using assms by (simp add: updateRule_def comp_simps newRule_eq record_rule_def Let_def)

lemma updateRule_forced_eq:
  assumes "userdata_GetString (rUserData rule) TypeComment = Inr c"
    and "k_rules (kern E) (kst (nft n)) (rTable rule) (rChain rule) = Inr rs"
    and "find (ruleEqual rule) rs = Some ex" and "rHandle ex \<noteq> 0"
    and "rHandle rule = 0" and "has_id (nft n)"
  shows "updateRule E rule (newRule op) True n =
     (let r = (copy_counter ex rule)\<lparr>rID := nextID (nft n)\<rparr> in
      (Inr False, record_rule (ruleKey (gobT E) r) r
                   (n\<lparr>nft := emit [MsgDelRule ex, MsgNewRule op r] (take_id (nft n))\<rparr>)))"
proof -
  have "rHandle (copy_counter ex rule) = 0"
    using assms(5) by (simp add: copy_counter_def split: option.splits)
  moreover have "has_id (emit ms (nft n))" "nextID (emit ms (nft n)) = nextID (nft n)"
    "take_id (emit ms (nft n)) = emit ms (take_id (nft n))" for ms
    using assms(6) by (simp_all add: has_id_def nextID_def take_id_def emit_def)
  ultimately show ?thesis
    using assms by (simp add: updateRule_def comp_simps newRule_eq record_rule_def DelRule_def Let_def)
qed

lemma AddRule_fresh: "rHandle r = 0 \<Longrightarrow> AddRule r = newRule OpAdd r"
  by (simp add: AddRule_def)

lemma InsertRule_fresh: "rHandle r = 0 \<Longrightarrow> InsertRule r = newRule OpInsert r"
  by (simp add: InsertRule_def)

lemma copy_counter_simps [simp]:
  "rHandle (copy_counter ex rule) = rHandle rule" "rTable (copy_counter ex rule) = rTable rule"
  "rChain (copy_counter ex rule) = rChain rule" "rUserData (copy_counter ex rule) = rUserData rule"
  by (simp_all add: copy_counter_def split: option.splits)

lemma updateRule_AddRule:
  "rHandle rule = 0 \<Longrightarrow> updateRule E rule AddRule force = updateRule E rule (newRule OpAdd) force"
  by (simp add: updateRule_def AddRule_fresh cong: option.case_cong if_cong)

lemma updateRule_InsertRule:
  "rHandle rule = 0 \<Longrightarrow> updateRule E rule InsertRule force = updateRule E rule (newRule OpInsert) force"
  by (simp add: updateRule_def InsertRule_fresh cong: option.case_cong if_cong)

lemma ruleEqual_copy_counter:
  assumes "ruleEqual rule ex"
  shows "ruleEqual rule (copy_counter ex rule)"
  using assms first_counter_is_Counter
  by (auto simp: ruleEqual_alt copy_counter_def list_all2_exprEqual_iff [of "rExprs rule" "rExprs rule"]
      list_all2_exprEqual_iff [of "rExprs rule" "rExprs ex"] split: option.splits
      intro!: put_counter_exprEqual)

lemma first_counter_copy_counter:
  assumes "ruleEqual rule ex"
  shows "first_counter (rExprs (copy_counter ex rule)) = first_counter (rExprs ex)"
proof -
  have "list_all2 exprEqual (rExprs rule) (rExprs ex)"
    using assms by (simp add: ruleEqual_alt)
  then have "first_counter (rExprs rule) = None \<longleftrightarrow> first_counter (rExprs ex) = None"
  proof (induction rule: list_all2_induct)
    case Nil
    then show ?case by simp
  next
    case (Cons x xs y ys)
    then show ?case by (cases x; cases y) auto
  qed
  then show ?thesis
    by (cases "first_counter (rExprs ex)")
      (auto simp: copy_counter_def first_counter_put first_counter_is_Counter)
qed

lemma find_ruleEqual: "find (ruleEqual rule) rs = Some ex \<Longrightarrow> ex \<in> set rs \<and> ruleEqual rule ex"
  by (auto simp: find_Some_iff in_set_conv_nth)

subsection \<open>A concrete state\<close>

text \<open>
  The in-memory kernel with the catch-all rule of a chain installed, for evaluating the
  properties on a concrete input. The gob type numbers are arbitrary.
\<close>

definition memE :: "mem env" where
  "memE = \<lparr>kern = memK, gobT = \<lparr>gob_id = (\<lambda>_. 64), gob_def = (\<lambda>_. [])\<rparr>, hostBE = False\<rparr>"

definition demo_table :: nft_table where
  "demo_table = \<lparr>tName = ''f'', tFamily = 1\<rparr>"

definition demo_rule :: nft_rule where
  "demo_rule = mkRule demo_table ''c'' ''drop-remaining'' [Counter 0 0, Verdict VerdictDrop []]"

definition demo_installed :: nft_rule where
  "demo_installed = demo_rule\<lparr>rHandle := 5, rExprs := [Counter 7 9, Verdict VerdictDrop []]\<rparr>"

definition demo_state :: "mem nftState" where
  "demo_state = new_nftState (new_conn (mem_empty\<lparr>m_tables := [demo_table], m_rules := [demo_installed]\<rparr>))
     demo_table demo_table"

lemmas demo_simps = memE_def memK_def demo_table_def demo_rule_def demo_installed_def demo_state_def
  new_nftState_def new_conn_def mem_empty_def

subsection \<open>Properties of rule updates\<close>

text \<open>
  ruleEqual compares rules up to counter values: it holds exactly when chain name, table
  name and user data agree, the first rule has only expressions of the eight known kinds,
  and the expression lists are the same once every counter is set to zero.
\<close>

lemma ruleEqual_iff:
  "ruleEqual a b \<longleftrightarrow>
     rChain a = rChain b \<and> tName (rTable a) = tName (rTable b) \<and> rUserData a = rUserData b \<and>
     list_all (\<lambda>e. \<not> is_OtherExpr e) (rExprs a) \<and>
     map zero_counter (rExprs a) = map zero_counter (rExprs b)"
  by (auto simp: ruleEqual_alt list_all2_exprEqual_iff)

text \<open>
  C19. A rule that is already installed is left alone: when the kernel lists an equal rule in
  the chain (a rule of the same table family), an unforced update sends nothing, reports that
  the rule is not new, and records the installed rule under the key of the wanted rule, so
  the cleanup that follows finds it in use.
\<close>

theorem updateRule_idempotent:
  assumes "rUserData rule = userDataComment c"
    and "k_rules (kern E) (kst (nft n)) (rTable rule) (rChain rule) = Inr rs"
    and "\<exists>r \<in> set rs. ruleEqual rule r"
    and "\<And>r. r \<in> set rs \<Longrightarrow> tFamily (rTable r) = tFamily (rTable rule)"
  shows "\<exists>r \<in> set rs. ruleEqual rule r \<and>
     updateRule E rule action False n = (Inr False, n\<lparr>nrules := (nrules n)(ruleKey (gobT E) rule \<mapsto> r)\<rparr>)"
proof -
  obtain r where find: "find (ruleEqual rule) rs = Some r"
    using assms(3) by (cases "find (ruleEqual rule) rs") (auto simp: find_None_iff)
  then have r: "r \<in> set rs" "ruleEqual rule r"
    by (auto dest: find_ruleEqual)
  then have "ruleKey (gobT E) r = ruleKey (gobT E) rule"
    using newRuleData_ruleEqual assms(4) by (simp add: ruleKey_def)
  with updateRule_found_eq [OF _ assms(2) find] r assms(1) show ?thesis
    by (auto simp: record_rule_def)
qed

theorem updateRule_idempotent_witness:
  "\<exists>r \<in> set [demo_installed]. ruleEqual demo_rule r \<and>
     updateRule memE demo_rule AddRule False demo_state =
       (Inr False, demo_state\<lparr>nrules := (nrules demo_state)(ruleKey (gobT memE) demo_rule \<mapsto> r)\<rparr>)"
  by (rule updateRule_idempotent [where c = "''drop-remaining''"])
    (simp_all add: demo_simps ruleEqual_def)

text \<open>
  C20. A forced update replaces the installed rule and keeps its counters: the messages sent
  are the deletion of the old rule followed by one new rule, which is equal to the wanted one
  and carries the first counter of the old rule.
\<close>

theorem updateRule_force_keeps_counter:
  assumes "rUserData rule = userDataComment c"
    and "k_rules (kern E) (kst (nft n)) (rTable rule) (rChain rule) = Inr rs"
    and "find (ruleEqual rule) rs = Some ex" and "rHandle ex \<noteq> 0"
    and "rHandle rule = 0" and "allocatedIDs (nft n) \<noteq> 0xFFFFFFFF"
  shows "\<exists>r n'. updateRule E rule AddRule True n = (Inr False, n') \<and>
     messages (nft n') = messages (nft n) @ [MsgDelRule ex, MsgNewRule OpAdd r] \<and>
     ruleEqual rule r \<and> first_counter (rExprs r) = first_counter (rExprs ex) \<and>
     nrules n' (ruleKey (gobT E) rule) = Some r"
proof -
  let ?r = "(copy_counter ex rule)\<lparr>rID := nextID (nft n)\<rparr>"
  have eq: "ruleEqual rule ex" using assms(3) by (auto dest: find_ruleEqual)
  have "ruleEqual rule ?r"
    using ruleEqual_copy_counter [OF eq] by (simp add: ruleEqual_alt)
  moreover have "ruleKey (gobT E) ?r = ruleKey (gobT E) rule"
    using newRuleData_ruleEqual [OF \<open>ruleEqual rule ?r\<close>] by (simp add: ruleKey_def)
  ultimately show ?thesis
    using updateRule_forced_eq [OF _ assms(2,3,4,5), of _ OpAdd] assms(1,5,6) first_counter_copy_counter [OF eq]
    by (auto simp: updateRule_AddRule has_id_def Let_def)
qed

theorem updateRule_force_keeps_counter_witness:
  "\<exists>r n'. updateRule memE demo_rule AddRule True demo_state = (Inr False, n') \<and>
     messages (nft n') = messages (nft demo_state) @ [MsgDelRule demo_installed, MsgNewRule OpAdd r] \<and>
     ruleEqual demo_rule r \<and> first_counter (rExprs r) = first_counter (rExprs demo_installed) \<and>
     nrules n' (ruleKey (gobT memE) demo_rule) = Some r"
  by (rule updateRule_force_keeps_counter [where c = "''drop-remaining''" and rs = "[demo_installed]"])
    (simp_all add: demo_simps ruleEqual_def)

end
