(* ===== verification/SetChain.thy ===== *)
theory SetChain
  imports NftState
begin

text \<open>
  Properties of the set and chain updates of theory NftState: the difference of two element
  lists (processElements), the messages updateSet sends, and addChain, which never fails.
\<close>

subsection \<open>Differences by key\<close>

text \<open>
  The contract of an element diff: what is added is what is wanted and whose key is missing,
  what is deleted is what is there and whose key is not wanted.
\<close>

locale keyed_diff =
  fixes diff :: "'e list \<Rightarrow> 'e list \<Rightarrow> 'e list \<times> 'e list" and key :: "'e \<Rightarrow> 'b"
  assumes added: "x \<in> set (fst (diff new old)) \<longleftrightarrow> x \<in> set new \<and> key x \<notin> key ` set old"
    and deleted: "x \<in> set (snd (diff new old)) \<longleftrightarrow> x \<in> set old \<and> key x \<notin> key ` set new"
begin

lemma diff_view:
  assumes "\<And>x y. x \<in> set new \<Longrightarrow> y \<in> set old \<Longrightarrow> key x = key y \<Longrightarrow> f x = f y"
  shows "f ` ((set old - set (snd (diff new old))) \<union> set (fst (diff new old))) = f ` set new"
proof (intro equalityI subsetI)
  fix v assume "v \<in> f ` ((set old - set (snd (diff new old))) \<union> set (fst (diff new old)))"
  then obtain e where e: "v = f e"
    "e \<in> set old \<and> key e \<in> key ` set new \<or> e \<in> set new"
    by (auto simp: added deleted)
  then show "v \<in> f ` set new" by (metis (no_types, lifting) assms imageE imageI)
next
  fix v assume "v \<in> f ` set new"
  then obtain x where x: "x \<in> set new" "v = f x" by auto
  show "v \<in> f ` ((set old - set (snd (diff new old))) \<union> set (fst (diff new old)))"
  proof (cases "key x \<in> key ` set old")
    case True
    then obtain y where "y \<in> set old" "key y = key x" by force
    moreover from this x have "f x = f y" "key y \<in> key ` set new"
      using assms by (metis, metis imageI)
    ultimately show ?thesis using x by (auto simp: deleted intro!: image_eqI [where x = y])
  next
    case False
    with x show ?thesis by (auto simp: added)
  qed
qed

lemma diff_keys:
  "key ` ((set old - set (snd (diff new old))) \<union> set (fst (diff new old))) = key ` set new"
  by (rule diff_view) simp

lemma diff_minimal:
  "key ` set (fst (diff new old)) \<inter> key ` set old = {}"
  "key ` set (snd (diff new old)) \<inter> key ` set new = {}"
  by (auto simp: added deleted)

lemma diff_same: "key ` set new = key ` set old \<Longrightarrow> diff new old = ([], [])"
  using added [of _ new old] deleted [of _ new old]
  by (metis eq_fst_iff imageI last_in_set snd_conv)

end

lemma isPresent_iff: "isPresent x es \<longleftrightarrow> eKey x \<in> eKey ` set es"
  by (induction es) auto

interpretation elements: keyed_diff processElements eKey
  by unfold_locales (auto simp: processElements_def findNonCommon_def isPresent_iff)

subsection \<open>The messages of a set update\<close>

text \<open>The set object after its name was shortened, as updateSet and addChain do first.\<close>

lemma shorten_set:
  "(if 31 < length (sName s)
    then seq (wrapped t (lift_result (hash_string (sName s)))) (\<lambda>h. ret (s\<lparr>sName := h\<rparr>))
    else ret s) = ret (s\<lparr>sName := shortName (sName s)\<rparr>)"
  by (auto simp: shortName_def hash_string_def fun_eq_iff comp_simps)

lemma shorten_chain:
  "(if 31 < length (cName c)
    then seq (wrapped t (lift_result (hash_string (cName c)))) (\<lambda>h. ret (c\<lparr>cName := h\<rparr>))
    else ret c) = ret (c\<lparr>cName := shortName (cName c)\<rparr>)"
  by (auto simp: shortName_def hash_string_def fun_eq_iff comp_simps)

lemma updateSet_existing_eq:
  assumes "k_set (kern E) (kst (nft n)) (sTable s) (shortName (sName s)) = Inr ex"
    and "k_elems (kern E) (kst (nft n)) ex = Inr old"
    and "\<not> sAnonymous ex"
    and "processElements els old = (toAdd, toDel)"
  shows "updateSet E s els n =
    (let s' = s\<lparr>sName := shortName (sName s)\<rparr> in
     (Inr s', n\<lparr>nft := emit ((if toDel = [] then [] else [MsgDelSetElem ex toDel]) @
                            (if toAdd = [] then [] else [MsgNewSetElem ex toAdd])) (nft n),
                nsets := (nsets n)(setKey s' \<mapsto> ex)\<rparr>))"
  using assms
  by (simp add: updateSet_def shorten_set comp_simps GetSetByName_def GetSetElements_def Let_def SetDeleteElements_def SetAddElements_def appendElemList_def)

lemma updateSet_new_eq:
  assumes "k_set (kern E) (kst (nft n)) (sTable s) (shortName (sName s)) = Inl ENOENT"
    and "\<not> sAnonymous s" and "sID s = 0" and "has_id (nft n)"
  shows "updateSet E s els n =
    (let s' = s\<lparr>sID := nextID (nft n), sName := shortName (sName s)\<rparr> in
     (Inr s', n\<lparr>nft := emit (MsgNewSet s' (length els) # (if els = [] then [] else [MsgNewSetElem s' els]))
                          (take_id (nft n)),
                nsets := (nsets n)(setKey s' \<mapsto> s')\<rparr>))"
  using assms
  by (simp add: updateSet_def shorten_set comp_simps GetSetByName_def Let_def AddSet_def appendElemList_def)

lemma addChain_eq:
  "addChain E ch n =
    (let ch' = ch\<lparr>cName := shortName (cName ch)\<rparr> in
     case k_chain (kern E) (kst (nft n)) (cTable ch) (cName ch') of
       Inl e \<Rightarrow> (Inr ch', n\<lparr>nft := emit [MsgNewChain ch'] (nft n), nchains := (nchains n)(chainID ch' \<mapsto> ch')\<rparr>)
     | Inr c \<Rightarrow> (Inr c, n\<lparr>nchains := (nchains n)(chainID c \<mapsto> c)\<rparr>))"
  by (cases "k_chain (kern E) (kst (nft n)) (cTable ch) (shortName (cName ch))")
    (simp_all add: addChain_def shorten_chain comp_simps ListChain_def AddChain_def Let_def)

definition chainOf :: "'k env \<Rightarrow> nft_chain \<Rightarrow> 'k nftState \<Rightarrow> nft_chain" where
  "chainOf E ch n =
     (case k_chain (kern E) (kst (nft n)) (cTable ch) (shortName (cName ch)) of
        Inl e \<Rightarrow> ch\<lparr>cName := shortName (cName ch)\<rparr> | Inr c \<Rightarrow> c)"

definition chainSt :: "'k env \<Rightarrow> nft_chain \<Rightarrow> 'k nftState \<Rightarrow> 'k nftState" where
  "chainSt E ch n =
     (let c = chainOf E ch n in
      n\<lparr>nft := (case k_chain (kern E) (kst (nft n)) (cTable ch) (shortName (cName ch)) of
                  Inl e \<Rightarrow> emit [MsgNewChain c] (nft n) | Inr _ \<Rightarrow> nft n),
        nchains := (nchains n)(chainID c \<mapsto> c)\<rparr>)"

lemma addChain_run: "addChain E ch n = (Inr (chainOf E ch n), chainSt E ch n)"
  by (simp add: addChain_eq chainOf_def chainSt_def Let_def split: sum.splits)

lemma chainSt_simps [simp]:
  "nfilter (chainSt E ch n) = nfilter n" "nnat (chainSt E ch n) = nnat n"
  "input_ch (chainSt E ch n) = input_ch n" "output_ch (chainSt E ch n) = output_ch n"
  "prerouting_ch (chainSt E ch n) = prerouting_ch n" "ingress_ch (chainSt E ch n) = ingress_ch n"
  "egress_ch (chainSt E ch n) = egress_ch n" "commonIngress_ch (chainSt E ch n) = commonIngress_ch n"
  "commonEgress_ch (chainSt E ch n) = commonEgress_ch n" "nrules (chainSt E ch n) = nrules n"
  "nsets (chainSt E ch n) = nsets n" "kst (nft (chainSt E ch n)) = kst (nft n)"
  by (simp_all add: chainSt_def Let_def split: sum.splits)

lemma chainOf_requested:
  assumes "netlink_reads (kern E)"
  shows "cTable (chainOf E ch n) = cTable ch" "cName (chainOf E ch n) = shortName (cName ch)"
  using netlink_reads.chain_found [OF assms] by (auto simp: chainOf_def split: sum.splits)

subsection \<open>A concrete set\<close>

definition demo_set :: nft_set where
  "demo_set = zero_set\<lparr>sTable := demo_table, sName := ''s''\<rparr>"

definition demo_set_state :: "mem nftState" where
  "demo_set_state =
     new_nftState (new_conn (mem_empty\<lparr>m_tables := [demo_table], m_sets := [demo_set],
       m_elems := [(demo_table, ''s'', elem [4]), (demo_table, ''s'', elem [5])]\<rparr>)) demo_table demo_table"

subsection \<open>Properties of set and chain updates\<close>

text \<open>
  C21. The element difference of updateSet is right and minimal: after deleting what it
  deletes and adding what it adds, the set holds exactly the wanted keys, and, provided no
  key stands for an interval start on one side and an interval end on the other, exactly the
  wanted elements; nothing is added that is there and nothing deleted that is wanted.
\<close>

theorem processElements_correct:
  assumes "processElements new old = (toAdd, toDel)"
  shows "eKey ` ((set old - set toDel) \<union> set toAdd) = eKey ` set new \<and>
     ((\<forall>x \<in> set new. \<forall>y \<in> set old. eKey x = eKey y \<longrightarrow> eIntervalEnd x = eIntervalEnd y) \<longrightarrow>
        (\<lambda>e. (eKey e, eIntervalEnd e)) ` ((set old - set toDel) \<union> set toAdd) =
        (\<lambda>e. (eKey e, eIntervalEnd e)) ` set new) \<and>
     eKey ` set toAdd \<inter> eKey ` set old = {} \<and> eKey ` set toDel \<inter> eKey ` set new = {}"
  using elements.diff_keys [of old new] elements.diff_minimal [of new old]
    elements.diff_view [of new old "\<lambda>e. (eKey e, eIntervalEnd e)"] assms
  by auto

theorem processElements_correct_witness:
  "let new = [elem [0, 80], elem_end [0, 81], elem [1, 187], elem_end [1, 188]];
       old = [elem [0, 22], elem_end [0, 23], elem [0, 80], elem_end [0, 81]] in
   (\<lambda>e. (eKey e, eIntervalEnd e)) `
     ((set old - set (snd (processElements new old))) \<union> set (fst (processElements new old))) =
   (\<lambda>e. (eKey e, eIntervalEnd e)) ` set new"
  unfolding Let_def
  by (rule processElements_correct [THEN conjunct2, THEN conjunct1, rule_format])
    (auto simp: elem_def elem_end_def)


text \<open>
  C30. Updating an existing set never touches its definition: the only messages are the
  deletion of stale elements and then the addition of missing ones, each sent only when it is
  not empty; the set is recorded under the (shortened) name for the later cleanup, and a set
  that already has the wanted keys costs no message.
\<close>

theorem updateSet_existing:
  assumes "k_set (kern E) (kst (nft n)) (sTable s) (shortName (sName s)) = Inr ex"
    and "k_elems (kern E) (kst (nft n)) ex = Inr old" and "\<not> sAnonymous ex"
  shows "\<exists>n'. updateSet E s els n = (Inr (s\<lparr>sName := shortName (sName s)\<rparr>), n') \<and>
     nsets n' (tName (sTable s) @ ''-'' @ shortName (sName s)) = Some ex \<and>
     messages (nft n') = messages (nft n) @
       (let (toAdd, toDel) = processElements els old in
        (if toDel = [] then [] else [MsgDelSetElem ex toDel]) @
        (if toAdd = [] then [] else [MsgNewSetElem ex toAdd])) \<and>
     (eKey ` set els = eKey ` set old \<longrightarrow> nft n' = nft n)"
proof -
  obtain toAdd toDel where d: "processElements els old = (toAdd, toDel)"
    by (cases "processElements els old")
  have "eKey ` set els = eKey ` set old \<Longrightarrow> toAdd = [] \<and> toDel = []"
    using elements.diff_same [of els old] d by simp
  with updateSet_existing_eq [OF assms d] d show ?thesis
    by (auto simp: Let_def setKey_def)
qed

theorem updateSet_existing_witness:
  "\<exists>n'. updateSet memE demo_set [elem [4], elem [6]] demo_set_state =
       (Inr (demo_set\<lparr>sName := shortName (sName demo_set)\<rparr>), n') \<and>
     nsets n' (tName (sTable demo_set) @ ''-'' @ shortName (sName demo_set)) = Some demo_set \<and>
     messages (nft n') = messages (nft demo_set_state) @
       (let (toAdd, toDel) = processElements [elem [4], elem [6]] [elem [4], elem [5]] in
        (if toDel = [] then [] else [MsgDelSetElem demo_set toDel]) @
        (if toAdd = [] then [] else [MsgNewSetElem demo_set toAdd])) \<and>
     (eKey ` set [elem [4], elem [6]] = eKey ` set [elem [4], elem [5]] \<longrightarrow> nft n' = nft demo_set_state)"
  by (rule updateSet_existing) (simp_all add: demo_set_state_def demo_set_def zero_set_def demo_simps)

text \<open>
  addChain never fails and always leaves the chain usable: whatever the kernel answers,
  the chain it returns has the requested table and the requested name, shortened to at most
  31 bytes; it is recorded as in use; and it is sent to the kernel exactly when the kernel
  did not return it, also when the lookup failed for another reason than a missing chain.
\<close>

lemma addChain_total:
  assumes "netlink_reads (kern E)"
  shows "\<exists>c n'. addChain E ch n = (Inr c, n') \<and> cTable c = cTable ch \<and> cName c = shortName (cName ch) \<and>
     length (cName c) \<le> 31 \<and> nchains n' (chainID c) = Some c \<and>
     messages (nft n') = messages (nft n) @
       (case k_chain (kern E) (kst (nft n)) (cTable ch) (shortName (cName ch)) of
          Inl e \<Rightarrow> [MsgNewChain c] | Inr _ \<Rightarrow> [])"
  using netlink_reads.chain_found [OF assms] length_shortName [of "cName ch"]
  by (cases "k_chain (kern E) (kst (nft n)) (cTable ch) (shortName (cName ch))")
    (auto simp: addChain_eq Let_def)

end
