(* ===== verification/Guards.thy ===== *)
theory Guards
  imports SetChain
begin

text \<open>
  The guard of theory Kernel lifted to the rule generator's state: what updateRule,
  updateSet and addChain do to the kernel when the table they work on is owned by the guard.
\<close>

text \<open>
  The connection is guarded, the tables are the given ones, and the two entry chains are
  among the given pairs (any pair while they are still being created).
\<close>

definition safe ::
  "(nft_msg \<Rightarrow> bool) \<Rightarrow> ('k \<Rightarrow> bool) \<Rightarrow> nft_table \<Rightarrow> nft_table \<Rightarrow> (nft_chain \<times> nft_chain) set \<Rightarrow>
   'k nftState \<Rightarrow> bool" where
  "safe ok I ft nt S n \<longleftrightarrow>
     guarded ok I (nft n) \<and> nfilter n = ft \<and> nnat n = nt \<and> (ingress_ch n, egress_ch n) \<in> S"

named_theorems safe_intros \<open>rule generator operations that keep the guard\<close>

lemma safe_inConn:
  assumes "ensures (guarded ok I) m R"
  shows "ensures (safe ok I ft nt S) (inConn m) R"
  using assms by (auto simp: ensures_def safe_def inConn_def zoom_def split: prod.splits)

lemma safe_inConn_keeps:
  "keeps (guarded ok I) m \<Longrightarrow> ensures (safe ok I ft nt S) (inConn m) (\<lambda>_. True)"
  by (intro safe_inConn keeps_ensures)

lemma safe_modify:
  "(\<And>n. nft (f n) = nft n) \<Longrightarrow> (\<And>n. nfilter (f n) = nfilter n) \<Longrightarrow> (\<And>n. nnat (f n) = nnat n) \<Longrightarrow>
   (\<And>n. ingress_ch (f n) = ingress_ch n) \<Longrightarrow> (\<And>n. egress_ch (f n) = egress_ch n) \<Longrightarrow>
   ensures (safe ok I ft nt S) (modify f) (\<lambda>_. True)"
  by (rule ensures_modify) (simp add: safe_def)

lemma safe_gets_filter: "ensures (safe ok I ft nt S) (gets nfilter) (\<lambda>t. t = ft)"
  by (rule ensures_gets) (simp add: safe_def)

lemma safe_gets_nat: "ensures (safe ok I ft nt S) (gets nnat) (\<lambda>t. t = nt)"
  by (rule ensures_gets) (simp add: safe_def)

lemma safe_modify_any:
  "(\<And>n. nft (f n) = nft n) \<Longrightarrow> (\<And>n. nfilter (f n) = nfilter n) \<Longrightarrow> (\<And>n. nnat (f n) = nnat n) \<Longrightarrow>
   ensures (safe ok I ft nt UNIV) (modify f) (\<lambda>_. True)"
  by (rule ensures_modify) (simp add: safe_def)

lemma safe_gets_entry:
  "ensures (safe ok I ft nt {(ic, ec)}) (gets ingress_ch) (\<lambda>c. c = ic)"
  "ensures (safe ok I ft nt {(ic, ec)}) (gets egress_ch) (\<lambda>c. c = ec)"
  by (rule ensures_gets, simp add: safe_def)+

lemma ensures_findRule:
  assumes "netlink_reads (kern E)"
  shows "ensures P (findRule E rule) (\<lambda>r. \<forall>ex. r = Some ex \<longrightarrow> rTable ex = rTable rule)"
proof (rule ensuresI)
  show "P (snd (findRule E rule s))" if "P s" for s
    using that by (simp add: findRule_eq split: sum.splits)
  show "\<forall>ex. x = Some ex \<longrightarrow> rTable ex = rTable rule" if "fst (findRule E rule s) = Inr x" for s x
    using that netlink_reads.rules_listed [OF assms]
    by (auto simp: findRule_eq dest!: find_ruleEqual split: sum.splits)
qed

lemma safe_updateRule [safe_intros]:
  assumes reads: "netlink_reads (kern E)" and own: "owns ok (rTable rule)"
    and act: "action = AddRule \<or> action = InsertRule"
  shows "ensures (safe ok I ft nt S) (updateRule E rule action force) (\<lambda>_. True)"
proof -
  have a: "ensures (safe ok I ft nt S) (inConn (action r)) (\<lambda>_. True)" if "rTable r = rTable rule" for r
    using act that by (auto intro!: safe_inConn_keeps guarded_intros ownsD [OF own])
  have d: "ensures (safe ok I ft nt S) (wrapped t (inConn (DelRule r))) (\<lambda>_. True)" if "rTable r = rTable rule" for r t
    using that by (intro ensures_wrapped safe_inConn_keeps guarded_intros ownsD [OF own]) auto
  have m: "ensures (safe ok I ft nt S) (modify (\<lambda>n. n\<lparr>nrules := (nrules n)(k \<mapsto> r)\<rparr>)) (\<lambda>_. True)" for k r
    by (rule safe_modify) simp_all
  show ?thesis
    unfolding updateRule_def
    apply (rule ensures_seq [OF ensures_lift_result [where R = "\<lambda>_. True"]], simp)
    apply (rule ensures_seq [OF ensures_wrapped [OF ensures_findRule [OF reads]]])
    apply (rule ensures_seq [where R = "\<lambda>_. True"])
     apply (rule ensures_case_option)
      apply (rule ensures_seq [OF a ensures_ret]; simp)
     apply (rule ensures_if)
      apply (simp add: ensures_ret)
     apply (rule ensures_seq [OF d], simp)
     apply (rule ensures_seq [OF a ensures_ret]; simp)
    apply (rule ensures_case_prod)
    apply (rule ensures_seq [OF ensures_wrapped [OF ensures_lift_result [where R = "\<lambda>_. True"]]], simp)
    apply (rule ensures_seq [OF m ensures_ret], simp)
    done
qed

lemma safe_updateSet [safe_intros]:
  assumes reads: "netlink_reads (kern E)" and own: "owns ok (sTable s)"
  shows "ensures (safe ok I ft nt S) (updateSet E s els) (\<lambda>s'. sTable s' = sTable s)"
proof -
  let ?P = "safe ok I ft nt S"
  have m: "ensures ?P (modify (\<lambda>n. n\<lparr>nsets := (nsets n)(k \<mapsto> r)\<rparr>)) (\<lambda>_. True)" for k r
    by (rule safe_modify) simp_all
  have g: "ensures ?P (attempt (inConn (GetSetByName (kern E) (sTable s) n)))
      (\<lambda>r. \<forall>x. r = Inr x \<longrightarrow> sTable x = sTable s)" for n
    by (intro ensures_attempt safe_inConn, unfold GetSetByName_def, rule ensures_reads)
      (use netlink_reads.set_found [OF reads] in auto)
  have e: "ensures ?P (attempt (inConn (GetSetElements (kern E) ex))) (\<lambda>_. True)" for ex
    by (rule ensures_weaken [OF ensures_attempt [OF safe_inConn_keeps]]) (rule guarded_intros, simp)
  have c: "ensures ?P (if b then wrapped t (inConn (f ex es)) else ret ()) (\<lambda>_. True)"
    if "f = SetDeleteElements \<or> f = SetAddElements" "sTable ex = sTable s" for b t f ex es
    using that ownsD [OF own]
    by (auto intro!: ensures_ret ensures_wrapped safe_inConn_keeps guarded_intros)
  have a: "ensures ?P (wrapped t (inConn (AddSet x els))) (\<lambda>s'. sTable s' = sTable s)" if "sTable x = sTable s" for t x
    using guarded_AddSet [of ok x] own that by (intro ensures_wrapped safe_inConn) simp
  show ?thesis
    unfolding updateSet_def shorten_set seq_ret
    apply (rule ensures_seq, simp, rule g)
    apply (rule ensures_case_sum)
     apply (rule ensures_if, rule ensures_fail)
     apply (rule ensures_seq [OF a], simp)
     apply (rule ensures_seq [OF m ensures_ret], simp)
    apply (rule ensures_seq [OF e])
    apply (rule ensures_case_sum, rule ensures_fail)
    apply (rule ensures_let, rule ensures_case_prod)
    apply (rule ensures_seq [OF c], simp, simp)
    apply (rule ensures_seq [OF c], simp, simp)
    apply (rule ensures_seq [OF m ensures_ret], simp)
    done
qed

lemma safe_addChain [safe_intros]:
  assumes reads: "netlink_reads (kern E)" and own: "owns ok (cTable c)"
  shows "ensures (safe ok I ft nt S) (addChain E c) (\<lambda>c'. cTable c' = cTable c)"
proof (rule ensuresI)
  fix n assume n: "safe ok I ft nt S n"
  have "ok (MsgNewChain (c\<lparr>cName := shortName (cName c)\<rparr>))" by (rule ownsD [OF own]) simp_all
  with n show "safe ok I ft nt S (snd (addChain E c n))"
    by (auto simp: addChain_eq Let_def safe_def guarded_def split: sum.splits)
  show "cTable x = cTable c" if "fst (addChain E c n) = Inr x" for x
    using that netlink_reads.chain_found [OF reads] by (auto simp: addChain_eq Let_def split: sum.splits)
qed

end
