(* ===== verification/Legacy.thy ===== *)
theory Legacy
  imports Names Kernel
begin

text \<open>
  Removal of what older daemon versions left in the shared inet tables "filter" and "nat"
  (pkg/server/netfilterrules.go, CleanupLegacyTables and its helpers), and the proof that
  nothing else is touched there.
\<close>

definition inputInterfaceFilterComment :: string where
  "inputInterfaceFilterComment = ''input-interface-filter''"

definition outputInterfaceFilterComment :: string where
  "outputInterfaceFilterComment = ''output-interface-filter''"

definition natFilterRuleComment :: string where
  "natFilterRuleComment = ''nat-filter-rule''"

definition legacyDaemonChainNames :: "string list" where
  "legacyDaemonChainNames =
     [ingressChain, egressChain, ingressChain @ ''-'' @ common, egressChain @ ''-'' @ common]"

definition legacyDaemonBaseChainNames :: "string list" where
  "legacyDaemonBaseChainNames = [''input'', ''output'', ''prerouting'']"

definition legacyDaemonRuleComments :: "string list" where
  "legacyDaemonRuleComments =
     [inputInterfaceFilterComment, outputInterfaceFilterComment, natFilterRuleComment]"

definition legacyDaemonSetComments :: "string list" where
  "legacyDaemonSetComments = [''Pod interfaces'', ''Pod interfaces NAT'']"

definition legacyNames :: "string list" where
  "legacyNames = [legacyFilterTableName, legacyNatTableName]"

definition legacyDaemonRule :: "nft_rule \<Rightarrow> bool result" where
  "legacyDaemonRule rule =
     (case userdata_GetString (rUserData rule) TypeComment of
        Inl e \<Rightarrow> Inl e
      | Inr None \<Rightarrow> Inr False
      | Inr (Some comment) \<Rightarrow> Inr (comment \<in> set legacyDaemonRuleComments))"

definition legacyDaemonSet :: "nft_set \<Rightarrow> bool" where
  "legacyDaemonSet s = (sName s = podInterfacesName \<and> sComment s \<in> set legacyDaemonSetComments)"

definition legacyDaemonChainComment :: "string \<Rightarrow> bool" where
  "legacyDaemonChainComment comment =
     (if comment \<in> set legacyDaemonRuleComments then True
      else if comment = ''common-ingress-chain'' \<or> comment = ''common-egress-chain'' \<or>
              comment = ''allow-ipv6-ndp-discovery'' \<or> comment = allowConntrackRuleName \<or>
              comment = ''drop-remaining'' then True
      else HasPrefix comment ''policy:'' \<or> HasPrefix comment ''common rule:'' \<or>
           HasPrefix comment ''allow_icmp_'')"

definition legacyDaemonChainRule :: "nft_rule \<Rightarrow> bool result" where
  "legacyDaemonChainRule rule =
     (case userdata_GetString (rUserData rule) TypeComment of
        Inl e \<Rightarrow> Inl e
      | Inr None \<Rightarrow> Inr False
      | Inr (Some comment) \<Rightarrow> Inr (legacyDaemonChainComment comment))"

fun is_jump_to :: "string \<Rightarrow> nft_expr \<Rightarrow> bool" where
  "is_jump_to chainName (Verdict k c) = (c = chainName \<and> (k = VerdictJump \<or> k = VerdictGoto))"
| "is_jump_to chainName e = False"

definition ruleReferencesChain :: "nft_rule \<Rightarrow> string \<Rightarrow> bool" where
  "ruleReferencesChain rule chainName = list_ex (is_jump_to chainName) (rev (rExprs rule))"

text \<open>The nested loops of legacyChainReferenced, with their early return.\<close>

fun chains_reference :: "'k kernel \<Rightarrow> nft_table \<Rightarrow> string \<Rightarrow> nft_chain list \<Rightarrow> ('k conn, bool) comp" where
  "chains_reference K table chainName [] = ret False"
| "chains_reference K table chainName (chain # chs) =
     (if tName (cTable chain) \<noteq> tName table then chains_reference K table chainName chs
      else seq (wrapped ''cleanup legacy tables: list rules for chain'' (GetRules K table (cName chain))) (\<lambda>rules.
           if list_ex (\<lambda>r. ruleReferencesChain r chainName) rules then ret True
           else chains_reference K table chainName chs))"

definition legacyChainReferenced :: "'k kernel \<Rightarrow> nft_table \<Rightarrow> string \<Rightarrow> ('k conn, bool) comp" where
  "legacyChainReferenced K table chainName =
     seq (wrapped ''cleanup legacy tables: list chains for table''
           (ListChainsOfTableFamily K (tFamily table))) (\<lambda>chains.
     chains_reference K table chainName chains)"

definition cleanupLegacyDaemonChainRules :: "'k kernel \<Rightarrow> nft_table \<Rightarrow> nft_chain \<Rightarrow> ('k conn, bool) comp" where
  "cleanupLegacyDaemonChainRules K table chain =
     seq (wrapped ''cleanup legacy tables: list rules for daemon chain'' (GetRules K table (cName chain))) (\<lambda>rules.
     seq (for_acc rules False (\<lambda>rule deleted.
            seq (lift_result (legacyDaemonChainRule rule)) (\<lambda>own.
            if \<not> own then ret deleted
            else
              seq (lift_result (userdata_GetString (rUserData rule) TypeComment)) (\<lambda>comment.
              seq (wrapped ''cleanup legacy tables: delete daemon-owned rule from chain'' (DelRule rule)) (\<lambda>_.
              ret True))))) (\<lambda>deleted.
     seq (if deleted then
            seq (wrapped ''cleanup legacy tables: flush daemon-owned rule deletes for chain'' (Flush K)) (\<lambda>_.
            wrapped ''cleanup legacy tables: list remaining rules for daemon chain'' (GetRules K table (cName chain)))
          else ret rules) (\<lambda>remaining.
     ret (0 < length remaining))))"

text \<open>The three loops over one legacy table: base chain rules, daemon chains, daemon sets.\<close>

definition cleanupLegacyBaseChains :: "'k kernel \<Rightarrow> nft_table \<Rightarrow> nft_chain list \<Rightarrow> ('k conn, unit) comp" where
  "cleanupLegacyBaseChains K table chs =
     for_each chs (\<lambda>chain.
       if tName (cTable chain) \<noteq> tName table \<or> cName chain \<notin> set legacyDaemonBaseChainNames then ret ()
       else
         seq (wrapped ''cleanup legacy tables: list rules for chain'' (GetRules K table (cName chain))) (\<lambda>rules.
         seq (for_acc rules False (\<lambda>rule deletedBaseRules.
                seq (lift_result (legacyDaemonRule rule)) (\<lambda>own.
                if \<not> own then ret deletedBaseRules
                else
                  seq (lift_result (userdata_GetString (rUserData rule) TypeComment)) (\<lambda>comment.
                  seq (attempt (DelRule rule)) (\<lambda>r.
                  ret (case r of Inl e \<Rightarrow> deletedBaseRules | Inr _ \<Rightarrow> True)))))) (\<lambda>deletedBaseRules.
         if deletedBaseRules
         then wrapped ''cleanup legacy tables: flush daemon-owned rule deletes for chain'' (Flush K)
         else ret ())))"

definition cleanupLegacyDaemonChains :: "'k kernel \<Rightarrow> nft_table \<Rightarrow> nft_chain list \<Rightarrow> ('k conn, bool) comp" where
  "cleanupLegacyDaemonChains K table chs =
     for_acc chs False (\<lambda>chain flushed.
       if tName (cTable chain) \<noteq> tName table \<or> cName chain \<notin> set legacyDaemonChainNames then ret flushed
       else
         seq (cleanupLegacyDaemonChainRules K table chain) (\<lambda>hasRemainingRules.
         seq (legacyChainReferenced K table (cName chain)) (\<lambda>referenced.
         if referenced then ret flushed
         else if hasRemainingRules then ret flushed
         else seq (DelChain chain) (\<lambda>_. ret True))))"

definition cleanupLegacySets :: "nft_set list \<Rightarrow> bool \<Rightarrow> ('k conn, bool) comp" where
  "cleanupLegacySets sets flushed0 =
     for_acc sets flushed0 (\<lambda>s flushed.
       if \<not> legacyDaemonSet s then ret flushed
       else seq (DelSet s) (\<lambda>_. ret True))"

definition CleanupLegacyTables :: "'k kernel \<Rightarrow> ('k conn, unit) comp" where
  "CleanupLegacyTables K =
     seq (wrapped ''cleanup legacy tables: list inet tables'' (ListTablesOfFamily K TableFamilyINet)) (\<lambda>allTables.
     for_each allTables (\<lambda>table.
       if tName table \<notin> set legacyNames then ret ()
       else
         seq (wrapped ''cleanup legacy tables: list chains for table''
               (ListChainsOfTableFamily K TableFamilyINet)) (\<lambda>chains.
         seq (cleanupLegacyBaseChains K table chains) (\<lambda>_.
         seq (cleanupLegacyDaemonChains K table chains) (\<lambda>flushed.
         seq (wrapped ''cleanup legacy tables: list sets for table'' (GetSets K table)) (\<lambda>sets.
         seq (cleanupLegacySets sets flushed) (\<lambda>flushed'.
         if flushed' then wrapped ''cleanup legacy tables: flush'' (Flush K) else ret ())))))))"

subsection \<open>What the legacy cleanup may send\<close>

definition legacy_rule :: "nft_rule \<Rightarrow> bool" where
  "legacy_rule r \<longleftrightarrow>
     rChain r \<in> set legacyDaemonBaseChainNames \<and> legacyDaemonRule r = Inr True \<or>
     rChain r \<in> set legacyDaemonChainNames \<and> legacyDaemonChainRule r = Inr True"

fun legacy_msg :: "nft_msg \<Rightarrow> bool" where
  "legacy_msg (MsgDelRule r) = (tName (rTable r) \<in> set legacyNames \<and> legacy_rule r)"
| "legacy_msg (MsgDelChain c) = (tName (cTable c) \<in> set legacyNames \<and> cName c \<in> set legacyDaemonChainNames)"
| "legacy_msg (MsgDelSet s) = (tName (sTable s) \<in> set legacyNames \<and> legacyDaemonSet s)"
| "legacy_msg m = False"

lemma ensures_GetRules:
  assumes "netlink_reads K"
  shows "ensures P (GetRules K t ch) (\<lambda>rs. \<forall>r \<in> set rs. rTable r = t \<and> rChain r = ch)"
  unfolding GetRules_def by (rule ensures_reads) (use netlink_reads.rules_listed [OF assms] in auto)

lemma ensures_GetSets:
  assumes "netlink_reads K"
  shows "ensures P (GetSets K t) (\<lambda>ss. \<forall>s \<in> set ss. sTable s = t)"
  unfolding GetSets_def by (rule ensures_reads) (use netlink_reads.sets_listed [OF assms] in auto)

lemma keeps_chains_reference [guarded_intros]: "keeps (guarded ok I) (chains_reference K t c chs)"
  by (induction chs) (auto intro!: keeps_intros guarded_intros)

lemma keeps_legacyChainReferenced [guarded_intros]: "keeps (guarded ok I) (legacyChainReferenced K t c)"
  unfolding legacyChainReferenced_def by (intro keeps_intros guarded_intros)

text \<open>
  The loops over listed rules and sets: each body keeps the guard when the object is one
  the cleanup may delete.
\<close>

lemma keeps_lift_seq:
  "(\<And>x. r = Inr x \<Longrightarrow> keeps P (f x)) \<Longrightarrow> keeps P (seq (lift_result r) f)"
  by (cases r) (auto simp: keeps_def seq_def lift_result_def)

lemma ensures_keeps_seq:
  "ensures P m R \<Longrightarrow> (\<And>x. R x \<Longrightarrow> keeps P (f x)) \<Longrightarrow> keeps P (seq m f)"
  using ensures_seq [of P m R f "\<lambda>_. True"] by (auto dest: ensures_keeps keeps_ensures)

context guarded_batches
begin

lemma guarded_cleanupLegacyDaemonChainRules:
  assumes "netlink_reads K" and "\<And>r. rTable r = table \<Longrightarrow> rChain r = cName chain \<Longrightarrow>
    legacyDaemonChainRule r = Inr True \<Longrightarrow> ok (MsgDelRule r)"
  shows "keeps (guarded ok I) (cleanupLegacyDaemonChainRules K table chain)"
  unfolding cleanupLegacyDaemonChainRules_def
  apply (rule ensures_keeps_seq [OF ensures_wrapped [OF ensures_GetRules [OF assms(1)]]])
  apply (rule keeps_seq, rule keeps_for_acc, rule keeps_lift_seq)
  apply (intro keeps_intros guarded_intros guarded_Flush; auto intro!: assms(2))+
  done

lemma guarded_cleanupLegacyBaseChains:
  assumes "netlink_reads K" and "\<And>r. rTable r = table \<Longrightarrow> rChain r \<in> set legacyDaemonBaseChainNames \<Longrightarrow>
    legacyDaemonRule r = Inr True \<Longrightarrow> ok (MsgDelRule r)"
  shows "keeps (guarded ok I) (cleanupLegacyBaseChains K table chs)"
  unfolding cleanupLegacyBaseChains_def
  apply (intro keeps_for_each keeps_if keeps_ret)
  apply (rule ensures_keeps_seq [OF ensures_wrapped [OF ensures_GetRules [OF assms(1)]]])
  apply (rule keeps_seq, rule keeps_for_acc, rule keeps_lift_seq)
  apply (intro keeps_intros guarded_intros guarded_Flush; auto intro!: assms(2))+
  done

lemma guarded_cleanupLegacyDaemonChains:
  assumes "netlink_reads K"
    and "\<And>r. rTable r = table \<Longrightarrow> rChain r \<in> set legacyDaemonChainNames \<Longrightarrow>
      legacyDaemonChainRule r = Inr True \<Longrightarrow> ok (MsgDelRule r)"
    and "\<And>c. tName (cTable c) = tName table \<Longrightarrow> cName c \<in> set legacyDaemonChainNames \<Longrightarrow> ok (MsgDelChain c)"
  shows "keeps (guarded ok I) (cleanupLegacyDaemonChains K table chs)"
  unfolding cleanupLegacyDaemonChains_def
  by (intro keeps_for_acc keeps_if keeps_ret keeps_seq guarded_intros
      guarded_cleanupLegacyDaemonChainRules [OF assms(1)]; auto intro!: assms(2,3))

lemma guarded_CleanupLegacyTables:
  assumes "netlink_reads K" and legacy: "\<And>m. legacy_msg m \<Longrightarrow> ok m"
  shows "keeps (guarded ok I) (CleanupLegacyTables K)"
proof -
  have sets: "keeps (guarded ok I) (cleanupLegacySets ss b)"
    if "\<forall>s \<in> set ss. sTable s = table" "tName table \<in> set legacyNames" for ss b and table :: nft_table
    using that legacy unfolding cleanupLegacySets_def
    by (auto intro!: keeps_for_acc keeps_if keeps_ret keeps_seq guarded_intros)
  show ?thesis
    unfolding CleanupLegacyTables_def
    apply (rule keeps_seq, intro keeps_wrapped guarded_intros)
    apply (intro keeps_for_each keeps_if keeps_ret)
    apply (rule keeps_seq, intro keeps_wrapped guarded_intros)
    apply (rule keeps_seq, rule guarded_cleanupLegacyBaseChains [OF assms(1)])
     apply (rule legacy, simp add: legacy_rule_def)
    apply (rule keeps_seq, rule guarded_cleanupLegacyDaemonChains [OF assms(1)])
      apply (rule legacy, simp add: legacy_rule_def)
     apply (rule legacy, simp)
    apply (rule ensures_keeps_seq [OF ensures_wrapped [OF ensures_GetSets [OF assms(1)]]])
    apply (intro keeps_if keeps_ret keeps_seq keeps_wrapped sets guarded_Flush; simp)
    done
qed

end

subsection \<open>Legacy cleanup on the in-memory kernel\<close>

text \<open>Tables, and the chains and sets that do not carry the daemon's names.\<close>

definition legacy_chain :: "nft_chain \<Rightarrow> bool" where
  "legacy_chain c \<longleftrightarrow> tName (cTable c) \<in> set legacyNames \<and> cName c \<in> set legacyDaemonChainNames"

definition foreign_view :: "mem \<Rightarrow> nft_table list \<times> nft_chain list \<times> nft_set list" where
  "foreign_view m = (m_tables m, filter (\<lambda>c. \<not> legacy_chain c) (m_chains m),
     filter (\<lambda>s. sName s \<noteq> podInterfacesName) (m_sets m))"

lemma mem_apply_legacy: "legacy_msg x \<Longrightarrow> mem_apply x m = Some m' \<Longrightarrow> foreign_view m' = foreign_view m"
  by (cases x) (auto simp: foreign_view_def legacy_chain_def legacyDaemonSet_def
      split: if_splits simp del: filter_filter intro!: filter_filter_weaker)

lemma mem_batch_legacy: "list_all legacy_msg ms \<Longrightarrow> mem_batch ms m = Some m' \<Longrightarrow> foreign_view m' = foreign_view m"
  by (induction ms arbitrary: m) (auto simp: mem_apply_legacy split: option.splits)

interpretation mem_legacy: guarded_batches memK legacy_msg "\<lambda>m. foreign_view m = v" for v
  by unfold_locales (auto simp: memK_def mem_batch_legacy split: option.splits)

subsection \<open>Property of the legacy cleanup\<close>


definition demo_legacy :: mem where
  "demo_legacy =
     (let t = \<lparr>tName = ''filter'', tFamily = 1\<rparr>;
          ch = (\<lambda>n. \<lparr>cName = n, cTable = t, cHooknum = None, cPriority = None, cType = []\<rparr>) in
      mem_empty\<lparr>m_tables := [t], m_chains := [ch ''multi-ingress'', ch ''kube'']\<rparr>)"


end
