(* ===== verification/Bootstrap.thy ===== *)
theory Bootstrap
  imports Guards Legacy Objects "HOL-Library.List_Lexorder" "HOL-Library.Char_ord"
begin

text \<open>
  The fixed part of a pod's ruleset (pkg/server/netfilterrules.go): tables, base chains and
  entry rules (bootstrapNetfilterChains, bootstrapNetfilterRules), and the rules that are
  common to all policies (applyCommonChainRules and what it calls).
\<close>

subsection \<open>Expressions the rules are built from\<close>

definition metaLoad :: "u32 \<Rightarrow> nft_expr" where
  "metaLoad key = Meta key False 1"

definition metaSet :: "u32 \<Rightarrow> nft_expr" where
  "metaSet key = Meta key True 1"

definition lookupSet :: "nft_set \<Rightarrow> nft_expr" where
  "lookupSet s = Lookup 1 0 False (sID s) (sName s) False"

definition counter0 :: nft_expr where
  "counter0 = Counter 0 0"

definition verdict :: "int \<Rightarrow> nft_expr" where
  "verdict k = Verdict k []"

definition jumpTo :: "string \<Rightarrow> nft_expr" where
  "jumpTo c = Verdict VerdictJump c"

definition cmpEq :: "byte list \<Rightarrow> nft_expr" where
  "cmpEq d = Cmp CmpOpEq 1 d"

definition payloadLoad :: "u32 \<Rightarrow> u32 \<Rightarrow> u32 \<Rightarrow> nft_expr" where
  "payloadLoad base off len = Payload 0 1 0 base off len 0 0 0"

definition bitwise4 :: "bool \<Rightarrow> u32 \<Rightarrow> u32 \<Rightarrow> nft_expr" where
  "bitwise4 be m x = Bitwise 1 1 4 (NativeEndian_PutUint32 be m) (NativeEndian_PutUint32 be x)"

lemmas expr_defs = metaLoad_def metaSet_def lookupSet_def counter0_def verdict_def jumpTo_def cmpEq_def
  payloadLoad_def bitwise4_def

subsection \<open>Tables and chains\<close>

definition ChainHookPrerouting :: u32 where "ChainHookPrerouting = 0"
definition ChainHookInput :: u32 where "ChainHookInput = 1"
definition ChainHookOutput :: u32 where "ChainHookOutput = 3"
definition ChainPriorityFilter :: int where "ChainPriorityFilter = 0"
definition ChainPriorityNATDest :: int where "ChainPriorityNATDest = -100"

definition addTable :: "'k kernel \<Rightarrow> nft_table \<Rightarrow> ('k conn, nft_table) comp" where
  "addTable K table =
     seq (attempt (ListTableOfFamily K (tName table) (tFamily table))) (\<lambda>r.
     case r of
       Inl e \<Rightarrow>
         if \<not> errors_Is e ErrNotExist then fail (Wrap ''failed to check existence of table'' e)
         else AddTable table
     | Inr t \<Rightarrow> ret t)"

definition baseChain :: "string \<Rightarrow> nft_table \<Rightarrow> u32 \<Rightarrow> int \<Rightarrow> string \<Rightarrow> nft_chain" where
  "baseChain name table hook prio typ =
     \<lparr>cName = name, cTable = table, cHooknum = Some hook, cPriority = Some prio, cType = typ\<rparr>"

definition plainChain :: "string \<Rightarrow> nft_table \<Rightarrow> nft_chain" where
  "plainChain name table = \<lparr>cName = name, cTable = table, cHooknum = None, cPriority = None, cType = []\<rparr>"

definition bootstrapNetfilterChains :: "'k env \<Rightarrow> ('k, unit) stm" where
  "bootstrapNetfilterChains E =
     seq (gets nfilter) (\<lambda>ft. seq (gets nnat) (\<lambda>nt.
     seq (wrapped ''failed to create input chain''
           (addChain E (baseChain ''input'' ft ChainHookInput ChainPriorityFilter ''filter''))) (\<lambda>c.
     seq (modify (\<lambda>n. n\<lparr>input_ch := c\<rparr>)) (\<lambda>_.
     seq (wrapped ''failed to create output chain''
           (addChain E (baseChain ''output'' ft ChainHookOutput ChainPriorityFilter ''filter''))) (\<lambda>c.
     seq (modify (\<lambda>n. n\<lparr>output_ch := c\<rparr>)) (\<lambda>_.
     seq (wrapped ''failed to create prerouting chain''
           (addChain E (baseChain ''prerouting'' nt ChainHookPrerouting ChainPriorityNATDest ''nat''))) (\<lambda>c.
     seq (modify (\<lambda>n. n\<lparr>prerouting_ch := c\<rparr>)) (\<lambda>_.
     seq (wrapped ''failed to create chain'' (addChain E (plainChain ingressChain ft))) (\<lambda>c.
     seq (modify (\<lambda>n. n\<lparr>ingress_ch := c\<rparr>)) (\<lambda>_.
     seq (wrapped ''failed to create chain'' (addChain E (plainChain egressChain ft))) (\<lambda>c.
     seq (modify (\<lambda>n. n\<lparr>egress_ch := c\<rparr>)) (\<lambda>_.
     seq (wrapped ''failed to create chain''
           (addChain E (plainChain (ingressChain @ ''-'' @ common) ft))) (\<lambda>c.
     seq (modify (\<lambda>n. n\<lparr>commonIngress_ch := c\<rparr>)) (\<lambda>_.
     seq (wrapped ''failed to create chain''
           (addChain E (plainChain (egressChain @ ''-'' @ common) ft))) (\<lambda>c.
     modify (\<lambda>n. n\<lparr>commonEgress_ch := c\<rparr>))))))))))))))))"

definition filterTable :: nft_table where
  "filterTable = \<lparr>tName = FilterTableName, tFamily = TableFamilyINet\<rparr>"

definition natTable :: nft_table where
  "natTable = \<lparr>tName = NatTableName, tFamily = TableFamilyINet\<rparr>"

text \<open>The first part of bootstrapNetfilterRules, on the connection.\<close>

definition bootstrapTables :: "'k env \<Rightarrow> podInfo option \<Rightarrow> ('k conn, podInfo \<times> nft_table \<times> nft_table) comp" where
  "bootstrapTables E podInfo =
     (case podInfo of
        None \<Rightarrow> fail (ErrText ''podInfo or podInfo.Interfaces is nil/empty'')
      | Some info \<Rightarrow>
          if piInterfaces info = [] then fail (ErrText ''podInfo or podInfo.Interfaces is nil/empty'')
          else
            seq (CleanupLegacyTables (kern E)) (\<lambda>_.
            seq (wrapped ''failed to add table'' (addTable (kern E) filterTable)) (\<lambda>ft.
            seq (wrapped ''failed to add table'' (addTable (kern E) natTable)) (\<lambda>nt.
            ret (info, ft, nt)))))"

definition interfaceElements :: "interfaceInfo list \<Rightarrow> set_element list" where
  "interfaceElements ifs =
     map (\<lambda>(index, multiIF). \<lparr>eKey = ifname (InterfaceName multiIF), eIntervalEnd = False,
            eComment = ''pod interface ['' @ fmt_d index @ '']: '' @ InterfaceName multiIF\<rparr>)
         (enumerate 0 ifs)"

definition interfaceSet :: "nft_table \<Rightarrow> string \<Rightarrow> nft_set" where
  "interfaceSet table comment =
     zero_set\<lparr>sTable := table, sName := podInterfacesName, sKeyType := ''ifname'',
              sKeyByteOrder := NativeOrder, sCounter := True, sComment := comment\<rparr>"

text \<open>
  The rest of bootstrapNetfilterRules, on the new state: first the chains, then the sets and
  the entry rules. It sorts the interfaces of the pod information in place, so the sorted
  information is returned to the caller.
\<close>

definition installEntryRules :: "'k env \<Rightarrow> podInfo \<Rightarrow> ('k, podInfo) stm" where
  "installEntryRules E info0 =
     (let info = info0\<lparr>piInterfaces := sort_key InterfaceName (piInterfaces info0)\<rparr>;
         els = interfaceElements (piInterfaces info) in
     seq (gets id) (\<lambda>n.
     let ft = nfilter n; nt = nnat n in
     seq (wrapped ''failed to update set'' (updateSet E (interfaceSet ft ''Pod interfaces'') els)) (\<lambda>fset.
     seq (modify (\<lambda>n. n\<lparr>interfaceFilterSet := fset\<rparr>)) (\<lambda>_.
     seq (wrapped ''failed to install rule''
           (updateRule E (mkRule ft (cName (input_ch n)) inputInterfaceFilterComment
              [metaLoad MetaKeyIIFNAME, lookupSet fset, counter0, jumpTo (cName (ingress_ch n))])
              InsertRule False)) (\<lambda>_.
     seq (wrapped ''failed to install rule''
           (updateRule E (mkRule ft (cName (output_ch n)) outputInterfaceFilterComment
              [metaLoad MetaKeyOIFNAME, lookupSet fset, counter0, jumpTo (cName (egress_ch n))])
              InsertRule False)) (\<lambda>_.
     seq (wrapped ''failed to update set'' (updateSet E (interfaceSet nt ''Pod interfaces NAT'') els)) (\<lambda>nset.
     seq (modify (\<lambda>n. n\<lparr>interfaceNatSet := nset\<rparr>)) (\<lambda>_.
     seq (updateRule E (mkRule nt (cName (prerouting_ch n)) natFilterRuleComment
              [metaLoad MetaKeyIIFNAME, lookupSet nset, counter0, verdict VerdictReturn])
              InsertRule False) (\<lambda>_.
     seq (updateRule E (mkRule ft (cName (ingress_ch n)) ''common-ingress-chain''
              [counter0, jumpTo (cName (commonIngress_ch n))]) InsertRule False) (\<lambda>_.
     seq (updateRule E (mkRule ft (cName (egress_ch n)) ''common-egress-chain''
              [counter0, jumpTo (cName (commonEgress_ch n))]) InsertRule False) (\<lambda>_.
     ret info)))))))))))"

definition bootstrapRules :: "'k env \<Rightarrow> podInfo \<Rightarrow> ('k, podInfo) stm" where
  "bootstrapRules E info0 = seq (bootstrapNetfilterChains E) (\<lambda>_. installEntryRules E info0)"

subsection \<open>Rules common to all policies\<close>

definition IPv4OffSet :: u32 where "IPv4OffSet = 12"
definition IPv6OffSet :: u32 where "IPv6OffSet = 8"
definition IPv4len :: u32 where "IPv4len = 4"
definition IPv6len :: u32 where "IPv6len = 16"

definition allowICMP :: "'k env \<Rightarrow> nft_chain \<Rightarrow> bool \<Rightarrow> ('k, unit) stm" where
  "allowICMP E chain icmpv6 =
     (let data = (if icmpv6 then [IPPROTO_ICMPV6] else [IPPROTO_ICMP]);
          proto = (if icmpv6 then protoIPv6 else protoIPv4) in
      seq (gets nfilter) (\<lambda>ft.
      seq (updateRule E (mkRule ft (cName chain) (''allow_icmp_'' @ proto)
             [metaLoad MetaKeyL4PROTO, cmpEq data, counter0, verdict VerdictAccept]) AddRule False) (\<lambda>_.
      ret ())))"

definition ndpElements :: "set_element list" where
  "ndpElements = [elem [133], elem [134], elem [135], elem [136]]"

definition allowNeighborDiscovery :: "'k env \<Rightarrow> nft_chain \<Rightarrow> ('k, unit) stm" where
  "allowNeighborDiscovery E chain =
     seq (gets nfilter) (\<lambda>ft.
     seq (wrapped ''failed to update NDP set''
           (updateSet E (zero_set\<lparr>sTable := ft, sName := ''ndp_set'', sKeyType := ''icmpv6_type'', sCounter := True\<rparr>)
              ndpElements)) (\<lambda>ndpSet.
     seq (wrapped ''failed to add IPv6 NDP discovery rule''
           (updateRule E (mkRule ft (cName chain) ''allow-ipv6-ndp-discovery''
              [metaLoad MetaKeyNFPROTO, cmpEq [NFPROTO_IPV6],
               metaLoad MetaKeyL4PROTO, cmpEq [IPPROTO_ICMPV6],
               payloadLoad PayloadBaseTransportHeader 0 1, lookupSet ndpSet,
               counter0, verdict VerdictAccept]) InsertRule False)) (\<lambda>_.
     ret ())))"

text \<open>One family of applyCommonPrefixRules: the set and the rule that accepts its addresses.\<close>

definition commonPrefixRule ::
  "'k env \<Rightarrow> nft_chain \<Rightarrow> nft_set \<Rightarrow> set_element list \<Rightarrow> byte \<Rightarrow> u32 \<Rightarrow> u32 \<Rightarrow> ('k, unit) stm" where
  "commonPrefixRule E chain set0 els nfproto offset len =
     seq (wrapped ''failed to update set'' (updateSet E set0 els)) (\<lambda>set.
     seq (gets nfilter) (\<lambda>ft.
     seq (updateRule E (mkRule ft (cName chain) (''common rule:'' @ sName set)
            [metaLoad MetaKeyNFPROTO, cmpEq [nfproto],
             payloadLoad PayloadBaseNetworkHeader offset len, lookupSet set,
             counter0, verdict VerdictAccept]) AddRule False) (\<lambda>_.
     ret ())))"

definition applyCommonPrefixRules :: "'k env \<Rightarrow> nft_chain \<Rightarrow> string list \<Rightarrow> string \<Rightarrow> ('k, unit) stm" where
  "applyCommonPrefixRules E chain prefixes prefix =
     seq (gets nfilter) (\<lambda>ft.
     let v4Set = zero_set\<lparr>sTable := ft, sName := prefix @ ''_'' @ protoIPv4 @ ''_'' @ getAddressSuffix (cName chain),
                          sKeyType := ''ipv4_addr'', sInterval := True\<rparr>;
         v6Set = zero_set\<lparr>sTable := ft, sName := prefix @ ''_'' @ protoIPv6 @ ''_'' @ getAddressSuffix (cName chain),
                          sKeyType := ''ipv6_addr'', sInterval := True\<rparr> in
     seq (wrapped ''failed to get prefix sets of prefixes'' (lift_result (getPrefixesAsSetInterval prefixes))) (\<lambda>(v4Prefixes, v6Prefixes).
     seq (if 0 < length v4Prefixes then
            commonPrefixRule E chain v4Set v4Prefixes NFPROTO_IPV4
              (if isIngressChain (cName chain) then IPv4OffSet else IPv4OffSet + IPv4len) IPv4len
          else ret ()) (\<lambda>_.
     if 0 < length v6Prefixes then
       commonPrefixRule E chain v6Set v6Prefixes NFPROTO_IPV6
         (if isIngressChain (cName chain) then IPv6OffSet else IPv6OffSet + IPv6len) IPv6len
     else ret ())))"

definition allowConntracked :: "'k env \<Rightarrow> nft_chain \<Rightarrow> ('k, unit) stm" where
  "allowConntracked E chain =
     seq (gets nfilter) (\<lambda>ft.
     seq (updateRule E (mkRule ft (cName chain) allowConntrackRuleName
            [Ct 1 False CtKeySTATE 0 False,
             bitwise4 (hostBE E) (CtStateBitESTABLISHED OR CtStateBitRELATED) zeroRuleMark,
             Cmp CmpOpNeq 1 [0, 0, 0, 0], counter0, verdict VerdictAccept]) AddRule False) (\<lambda>_.
     ret ()))"

text \<open>The body of applyCommonChainRules for the two common chains.\<close>

definition commonRules :: "'k env \<Rightarrow> CommonRuleConfig \<Rightarrow> nft_chain \<Rightarrow> nft_chain \<Rightarrow> ('k, unit) stm" where
  "commonRules E cfg cin ceg =
     seq (if AcceptICMPv6 cfg then
            seq (wrapped ''failed to allow ICMPv6 in common ingress chain'' (allowICMP E cin True)) (\<lambda>_.
            wrapped ''failed to allow ICMPv6 in common egress chain'' (allowICMP E ceg True))
          else
            seq (wrapped ''failed to allow ICMPv6 neighbor discovery in common ingress chain''
                  (allowNeighborDiscovery E cin)) (\<lambda>_.
            wrapped ''failed to allow ICMPv6 neighbor discovery in common egress chain''
              (allowNeighborDiscovery E ceg))) (\<lambda>_.
     seq (if AcceptICMP cfg then
            seq (wrapped ''failed to allow ICMP in common ingress chain'' (allowICMP E cin False)) (\<lambda>_.
            wrapped ''failed to allow ICMP in common egress chain'' (allowICMP E ceg False))
          else ret ()) (\<lambda>_.
     seq (if length (AllowSrcPrefix cfg) \<noteq> 0
          then wrapped ''failed to apply common ingress rules''
                 (applyCommonPrefixRules E cin (AllowSrcPrefix cfg) common)
          else ret ()) (\<lambda>_.
     seq (if length (AllowDstPrefix cfg) \<noteq> 0
          then wrapped ''failed to apply common egress rules''
                 (applyCommonPrefixRules E ceg (AllowDstPrefix cfg) common)
          else ret ()) (\<lambda>_.
     seq (wrapped ''failed to apply common ingress conntrack rules'' (allowConntracked E cin)) (\<lambda>_.
     wrapped ''failed to apply common egress conntrack rules'' (allowConntracked E ceg))))))"

definition applyCommonChainRules :: "'k env \<Rightarrow> CommonRuleConfig \<Rightarrow> ('k, unit) stm" where
  "applyCommonChainRules E cfg =
     seq (gets commonIngress_ch) (\<lambda>cin. seq (gets commonEgress_ch) (\<lambda>ceg. commonRules E cfg cin ceg))"

end
