(* ===== verification/Policy.thy ===== *)
theory Policy
  imports Bootstrap
begin

text \<open>
  Rendering of one policy into chains, sets and rules (pkg/server/netfilterrules.go,
  applyPodRules and everything it calls). A packet that enters the policy's chain has two
  mark bits cleared per rule of the policy; the ports chain sets one, the peers chain the
  other, and a packet that carries both returns from the chain.
\<close>

subsection \<open>Rules around a policy chain\<close>

definition applyPodInterfaceRules ::
  "'k env \<Rightarrow> nft_chain \<Rightarrow> nft_chain \<Rightarrow> policy \<Rightarrow> interfaceInfo \<Rightarrow> ('k, bool) stm" where
  "applyPodInterfaceRules E chain policyChain policy podInterface =
     seq (gets nfilter) (\<lambda>ft.
     updateRule E (mkRule ft (cName chain)
       (''policy:'' @ policyNamespacedName policy @ '', name:'' @ cName chain @
        '', net-attach-def:'' @ NetattachName podInterface @ '', interface:'' @ InterfaceName podInterface @
        '', cni:'' @ InterfaceType podInterface @ '', jump:'' @ cName policyChain)
       [metaLoad (getMetaKeyInterface (cName chain)), cmpEq (ifname (InterfaceName podInterface)),
        counter0, jumpTo (cName policyChain)]) AddRule False)"

definition applyGeneralMarkCheck :: "'k env \<Rightarrow> nft_chain \<Rightarrow> policy \<Rightarrow> ('k, unit) stm" where
  "applyGeneralMarkCheck E chain policy =
     seq (gets nfilter) (\<lambda>ft.
     seq (updateRule E (mkRule ft (cName chain)
            (''policy:'' @ policyNamespacedName policy @ '', check mark 0x30000'')
            [metaLoad MetaKeyMARK, bitwise4 (hostBE E) matchRuleMark zeroRuleMark,
             cmpEq (NativeEndian_PutUint32 (hostBE E) matchRuleMark), counter0, verdict VerdictReturn])
            AddRule False) (\<lambda>_.
     ret ()))"

definition applyMarkReset :: "'k env \<Rightarrow> string \<Rightarrow> nft_chain \<Rightarrow> string \<Rightarrow> nat \<Rightarrow> ('k, unit) stm" where
  "applyMarkReset E policyChainName policyChain policyName index =
     seq (gets nfilter) (\<lambda>ft.
     seq (updateRule E (mkRule ft (cName policyChain)
            (''policy:'' @ policyName @ '', name:'' @ policyChainName @ '' ingress:'' @ fmt_d index @ '': reset'')
            [metaLoad MetaKeyMARK, bitwise4 (hostBE E) (NOT matchRuleMark) zeroRuleMark,
             metaSet MetaKeyMARK, counter0]) AddRule False) (\<lambda>_.
     ret ()))"

definition applyMarkCheck :: "'k env \<Rightarrow> string \<Rightarrow> nft_chain \<Rightarrow> string \<Rightarrow> nat \<Rightarrow> ('k, unit) stm" where
  "applyMarkCheck E policyChainName policyChain policyName index =
     seq (updateRule E (mkRule (cTable policyChain) (cName policyChain)
            (''policy:'' @ policyName @ '', name:'' @ policyChainName @ '' ingress:'' @ fmt_d index @ '' return'')
            [metaLoad MetaKeyMARK, bitwise4 (hostBE E) matchRuleMark zeroRuleMark,
             cmpEq (NativeEndian_PutUint32 (hostBE E) matchRuleMark), counter0, verdict VerdictReturn])
            AddRule False) (\<lambda>_.
     ret ())"

definition applyDropRemaining :: "'k env \<Rightarrow> nft_chain \<Rightarrow> bool \<Rightarrow> ('k, unit) stm" where
  "applyDropRemaining E chain force =
     seq (updateRule E (mkRule (cTable chain) (cName chain) ''drop-remaining''
            [counter0, verdict VerdictDrop]) AddRule force) (\<lambda>_.
     ret ())"

text \<open>The expressions that set one mark bit and keep the others.\<close>

definition setMark :: "bool \<Rightarrow> u32 \<Rightarrow> nft_expr list" where
  "setMark be m = [metaLoad MetaKeyMARK, bitwise4 be (NOT m) m, metaSet MetaKeyMARK]"

subsection \<open>Peers given as address blocks\<close>

definition applyPrefixes ::
  "'k env \<Rightarrow> string \<Rightarrow> nft_chain \<Rightarrow> string \<Rightarrow> ipBlock \<Rightarrow> nat \<Rightarrow> set_element list \<Rightarrow> set_element list \<Rightarrow> bool \<Rightarrow>
   ('k, unit) stm" where
  "applyPrefixes E chainName chain policyName block peerIndex prefixes exceptPrefixes isV6 =
     (let protocol = (if isV6 then protoIPv6 else protoIPv4);
          keyType = (if isV6 then ''ipv6_addr'' else ''ipv4_addr'');
          payloadLen = (if isV6 then IPv6len else IPv4len) in
      if 0 < length prefixes then
        let nfProtocol = (if isV6 then NFPROTO_IPV6 else NFPROTO_IPV4);
            offset0 = (if isV6 then IPv6OffSet else IPv4OffSet);
            offset = (if \<not> isIngressChain chainName
                      then (if \<not> isV6 then offset0 + IPv4len else offset0 + IPv6len) else offset0) in
        seq (if 0 < length exceptPrefixes then
               seq (wrapped ''failed to update set''
                     (updateSet E (zero_set\<lparr>sTable := cTable chain,
                        sName := chainName @ ''_'' @ peerIPBlockExceptPrefix @ ''_'' @ protocol @ ''_'' @
                                 getAddressSuffix chainName @ ''_'' @ fmt_d peerIndex,
                        sCounter := True, sKeyType := keyType, sInterval := True\<rparr>) exceptPrefixes)) (\<lambda>exceptSet.
               seq (updateRule E (mkRule (cTable chain) (cName chain)
                      (''policy:'' @ policyName @ '', name:'' @ chainName @ '', cidr:'' @ ipCIDR block @ '', deny'')
                      [metaLoad MetaKeyNFPROTO, cmpEq [nfProtocol],
                       payloadLoad PayloadBaseNetworkHeader offset payloadLen, lookupSet exceptSet,
                       counter0, verdict VerdictDrop]) AddRule False) (\<lambda>_.
               ret ()))
             else ret ()) (\<lambda>_.
        seq (wrapped ''failed to update set''
              (updateSet E (zero_set\<lparr>sTable := cTable chain,
                 sName := chainName @ ''_'' @ peerIPBlockPrefix @ ''_'' @ protocol @ ''_'' @
                          getAddressSuffix chainName @ ''_'' @ fmt_d peerIndex,
                 sConstant := True, sCounter := True, sKeyType := keyType, sInterval := True\<rparr>) prefixes)) (\<lambda>prefixesSet.
        seq (updateRule E (mkRule (cTable chain) (cName chain)
               (''policy:'' @ policyName @ '', name:'' @ chainName @ '', cidr:'' @ ipCIDR block @ '', accept'')
               ([metaLoad MetaKeyNFPROTO, cmpEq [nfProtocol],
                 payloadLoad PayloadBaseNetworkHeader offset payloadLen, lookupSet prefixesSet] @
                setMark (hostBE E) peerRuleMark @ [counter0, verdict VerdictReturn])) AddRule False) (\<lambda>_.
        ret ())))
      else ret ())"

definition applyPolicyPeersRulesIPBlock ::
  "'k env \<Rightarrow> string \<Rightarrow> nft_chain \<Rightarrow> string \<Rightarrow> ipBlock \<Rightarrow> nat \<Rightarrow> ('k, unit) stm" where
  "applyPolicyPeersRulesIPBlock E chainName chain policyName block peerIndex =
     seq (wrapped ''failed to get except prefix sets of prefixes''
           (lift_result (getPrefixesAsSetInterval (ipExcept block)))) (\<lambda>(v4ExceptPrefixes, v6ExceptPrefixes).
     seq (wrapped ''failed to get prefix sets of prefixes''
           (lift_result (getPrefixesAsSetInterval [ipCIDR block]))) (\<lambda>(v4Prefixes, v6Prefixes).
     seq (wrapped ''failed to apply prefixes for policy''
           (applyPrefixes E chainName chain policyName block peerIndex v4Prefixes v4ExceptPrefixes False)) (\<lambda>_.
     wrapped ''failed to apply prefixes for policy''
       (applyPrefixes E chainName chain policyName block peerIndex v6Prefixes v6ExceptPrefixes True))))"

subsection \<open>Peers given by selectors\<close>

definition selectorText :: "policyDeps \<Rightarrow> policyPeer \<Rightarrow> string" where
  "selectorText D peer =
     (case peerPodSelector peer of Some s \<Rightarrow> selectorString D s | None \<Rightarrow> ''<all>'')"

text \<open>\<^verbatim>\<open>net.ParseIP(addr).To4()\<close>, or the 16 bytes when that is nil; nil when it does not parse.\<close>

definition ipKey :: "string \<Rightarrow> byte list" where
  "ipKey addr =
     (case To4 (net_ParseIP addr) of
        Some bs \<Rightarrow> bs
      | None \<Rightarrow> (case net_ParseIP addr of Some bs \<Rightarrow> bs | None \<Rightarrow> []))"

definition addIPRule ::
  "'k env \<Rightarrow> policyDeps \<Rightarrow> string \<Rightarrow> string list \<Rightarrow> nft_chain \<Rightarrow> string \<Rightarrow> policyPeer \<Rightarrow> nat \<Rightarrow> ('k, unit) stm" where
  "addIPRule E D chainName addrs chain policyName peer peerIndex =
     (case addrs of
        [] \<Rightarrow> ret ()
      | addr0 # _ \<Rightarrow>
          let isV6 = (To4 (net_ParseIP addr0) = None);
              payloadLen = (if isV6 then IPv6len else IPv4len);
              keyType = (if isV6 then ''ipv6_addr'' else ''ipv4_addr'');
              protocol = (if isV6 then protoIPv6 else protoIPv4);
              nfProtocol = (if isV6 then NFPROTO_IPV6 else NFPROTO_IPV4);
              offset0 = (if isV6 then IPv6OffSet else IPv4OffSet);
              offset = (if \<not> isIngressChain chainName then offset0 + payloadLen else offset0) in
          seq (wrapped ''failed to hash pod selector'' (lift_result (hash_string (selectorText D peer)))) (\<lambda>selectorHash.
          seq (updateSet E (zero_set\<lparr>sTable := cTable chain,
                 sName := chainName @ ''_'' @ getAddressSuffix chainName @ ''_'' @ fmt_d peerIndex @ ''_'' @
                          protocol @ ''_'' @ selectorHash,
                 sKeyType := keyType\<rparr>) (map (\<lambda>addr. elem (ipKey addr)) addrs)) (\<lambda>ipSet.
          seq (updateRule E (mkRule (cTable chain) (cName chain)
                 (''policy:'' @ policyName @ '', name:'' @ chainName @ '', selector-for:'' @ selectorHash @
                  '', protocol:'' @ protocol)
                 ([metaLoad MetaKeyNFPROTO, cmpEq [nfProtocol],
                   payloadLoad PayloadBaseNetworkHeader offset payloadLen, lookupSet ipSet] @
                  setMark (hostBE E) peerRuleMark @ [counter0, verdict VerdictReturn])) AddRule False) (\<lambda>_.
          ret ()))))"

text \<open>The loop of addIPRules that separates the families.\<close>

fun splitAddrs :: "string list \<Rightarrow> string list \<Rightarrow> string list \<Rightarrow> (string list \<times> string list) result" where
  "splitAddrs [] v4 v6 = Inr (v4, v6)"
| "splitAddrs (addr # addrs) v4 v6 =
     (case ParseAddr addr of
        Inl e \<Rightarrow> Inl (ErrText ''failed to parse address'')
      | Inr ipAddr \<Rightarrow>
          if Is6 ipAddr then splitAddrs addrs v4 (v6 @ [addr])
          else splitAddrs addrs (v4 @ [addr]) v6)"

definition addIPRules ::
  "'k env \<Rightarrow> policyDeps \<Rightarrow> string \<Rightarrow> string list \<Rightarrow> nft_chain \<Rightarrow> string \<Rightarrow> policyPeer \<Rightarrow> nat \<Rightarrow> ('k, unit) stm" where
  "addIPRules E D chainName addrs chain policyName peer peerIndex =
     seq (lift_result (splitAddrs addrs [] [])) (\<lambda>(v4Addrs, v6Addrs).
     seq (wrapped ''failed to add IPv4 rules'' (addIPRule E D chainName v4Addrs chain policyName peer peerIndex)) (\<lambda>_.
     wrapped ''failed to add IPv6 rules'' (addIPRule E D chainName v6Addrs chain policyName peer peerIndex)))"

text \<open>
  The innermost loops of applyPolicyPeersRulesSelector over pairs of interfaces: the keys of
  the address map (in insertion order) and the address list; after each matching pair all
  keys of the map are appended to the list, in the order Go iterates over them.
\<close>

definition insertKeys :: "string list \<Rightarrow> string list \<Rightarrow> string list" where
  "insertKeys ips keys = fold (\<lambda>ip ks. if ip \<in> set ks then ks else ks @ [ip]) ips keys"

definition collectPairIPs ::
  "policyDeps \<Rightarrow> string list \<Rightarrow> interfaceInfo list \<Rightarrow> interfaceInfo list \<Rightarrow> string list \<times> string list \<Rightarrow>
   string list \<times> string list" where
  "collectPairIPs D policyNetworks podIfs sPodIfs acc0 =
     fold (\<lambda>podIntf acc.
       if \<not> intf_CheckPolicyNetwork podIntf policyNetworks then acc
       else fold (\<lambda>sPodIntf (keys, ips).
              if \<not> intf_CheckPolicyNetwork sPodIntf policyNetworks then (keys, ips)
              else let keys' = insertKeys (IPs sPodIntf) (insertKeys (IPs podIntf) keys) in
                   (keys', ips @ iterOrder D keys')) sPodIfs acc) podIfs acc0"

text \<open>The loop over the selected pods; pods whose lookups fail are logged and skipped.\<close>

fun collectPodIPs ::
  "policyDeps \<Rightarrow> string list \<Rightarrow> selector option \<Rightarrow> interfaceInfo list \<Rightarrow> pod list \<Rightarrow>
   string list \<times> string list \<Rightarrow> (string list) result" where
  "collectPodIPs D policyNetworks nsSelector podIfs [] acc = Inr (snd acc)"
| "collectPodIPs D policyNetworks nsSelector podIfs (sPod # sPods) acc =
     (case GetNamespaceInfo D (podNamespace sPod) of
        Inl e \<Rightarrow> collectPodIPs D policyNetworks nsSelector podIfs sPods acc
      | Inr nsLabels \<Rightarrow>
          if (case nsSelector of Some s \<Rightarrow> \<not> sel_Matches s nsLabels | None \<Rightarrow> False)
          then collectPodIPs D policyNetworks nsSelector podIfs sPods acc
          else
            (case GetPodInfo D sPod of
               Inl e \<Rightarrow> collectPodIPs D policyNetworks nsSelector podIfs sPods acc
             | Inr None \<Rightarrow>
                 if list_ex (\<lambda>i. intf_CheckPolicyNetwork i policyNetworks) podIfs
                 then Inl (Panic ''nil pointer dereference'')
                 else collectPodIPs D policyNetworks nsSelector podIfs sPods acc
             | Inr (Some sPodinfo) \<Rightarrow>
                 collectPodIPs D policyNetworks nsSelector podIfs sPods
                   (collectPairIPs D policyNetworks podIfs (piInterfaces sPodinfo) acc)))"

definition applyPolicyPeersRulesSelector ::
  "'k env \<Rightarrow> policyDeps \<Rightarrow> string \<Rightarrow> nft_chain \<Rightarrow> string \<Rightarrow> policyPeer \<Rightarrow> podInfo \<Rightarrow> string list \<Rightarrow> nat \<Rightarrow>
   ('k, unit) stm" where
  "applyPolicyPeersRulesSelector E D chainName chain policyName peer podInfo policyNetworks peerIndex =
     seq (case peerPodSelector peer of
            Some s \<Rightarrow> wrapped ''pod selector'' (lift_result (LabelSelectorAsSelector (labelSyntax D) s))
          | None \<Rightarrow> ret Everything) (\<lambda>podSelector.
     seq (wrapped ''pod list failed'' (lift_result (ListPods D podSelector))) (\<lambda>pods.
     seq (case peerNsSelector peer of
            Some s \<Rightarrow>
              seq (wrapped ''namespace selector'' (lift_result (LabelSelectorAsSelector (labelSyntax D) s))) (\<lambda>x.
              ret (Some x))
          | None \<Rightarrow> ret None) (\<lambda>nsSelector.
     seq (lift_result (collectPodIPs D policyNetworks nsSelector (piInterfaces podInfo) pods ([], []))) (\<lambda>podIntfIPs.
     wrapped ''add selector IP rules''
       (addIPRules E D chainName podIntfIPs chain policyName peer peerIndex)))))"

subsection \<open>Peers and ports of one policy rule\<close>

definition markAllRule :: "'k env \<Rightarrow> nft_table \<Rightarrow> string \<Rightarrow> string \<Rightarrow> u32 \<Rightarrow> nft_rule" where
  "markAllRule E t ch comment m = mkRule t ch comment (counter0 # setMark (hostBE E) m)"

definition applyPeer ::
  "'k env \<Rightarrow> policyDeps \<Rightarrow> string \<Rightarrow> nft_chain \<Rightarrow> string \<Rightarrow> podInfo \<Rightarrow> string list \<Rightarrow> nat \<Rightarrow> policyPeer \<Rightarrow>
   ('k, unit) stm" where
  "applyPeer E D peersName peersChain policyName podInfo policyNetworks index peer =
     (case peerIPBlock peer of
        Some block \<Rightarrow>
          wrapped ''apply IPBlock peer rules'' (applyPolicyPeersRulesIPBlock E peersName peersChain policyName block index)
      | None \<Rightarrow>
          if peerPodSelector peer \<noteq> None \<or> peerNsSelector peer \<noteq> None
          then wrapped ''apply selector peer rules''
                 (applyPolicyPeersRulesSelector E D peersName peersChain policyName peer podInfo policyNetworks index)
          else fail (ErrText ''unknown peer rule''))"

definition applyPolicyPeersRules ::
  "'k env \<Rightarrow> policyDeps \<Rightarrow> string \<Rightarrow> nft_chain \<Rightarrow> string \<Rightarrow> policyPeer list \<Rightarrow> podInfo \<Rightarrow> string list \<Rightarrow> nat \<Rightarrow>
   ('k, unit) stm" where
  "applyPolicyPeersRules E D chainName chain policyName peers podInfo policyNetworks peerIndex =
     (let peersName = nftNameWithSuffix chainName ''-'' (peersChainSuffix @ ''-'' @ fmt_d peerIndex) in
      seq (wrapped ''failed to create peers chain'' (addChain E (plainChain peersName (cTable chain)))) (\<lambda>peersChain.
      seq (updateRule E (mkRule (cTable chain) (cName chain)
             (''policy:'' @ policyName @ '', name:'' @ chainName @ '', jump:'' @ cName peersChain)
             [counter0, jumpTo (cName peersChain)]) AddRule False) (\<lambda>_.
      seq (for_each (enumerate 0 peers) (\<lambda>(index, peer).
             applyPeer E D peersName peersChain policyName podInfo policyNetworks index peer)) (\<lambda>_.
      if length peers = 0 then
        seq (updateRule E (markAllRule E (cTable chain) (cName peersChain)
               (''policy:'' @ policyName @ '', name:'' @ peersName @ '', no peers skipped accept all'') peerRuleMark)
               AddRule False) (\<lambda>_.
        ret ())
      else ret ()))))"

definition getInetSet :: "nft_chain \<Rightarrow> string \<Rightarrow> string \<Rightarrow> nft_set" where
  "getInetSet chain portsName suffix =
     (let setName = nftNameWithSuffix (getSetName portsName) ''_'' suffix in
      zero_set\<lparr>sTable := cTable chain, sName := setName, sComment := setName, sConstant := True,
               sCounter := True, sKeyType := ''inet_service'', sInterval := True\<rparr>)"

definition applyProtoPortsRules ::
  "'k env \<Rightarrow> string \<Rightarrow> nft_chain \<Rightarrow> string \<Rightarrow> nft_set \<Rightarrow> byte list \<Rightarrow> ('k, unit) stm" where
  "applyProtoPortsRules E chainName chain policyName portSet unixProto =
     seq (updateRule E (mkRule (cTable chain) (cName chain)
            (''policy:'' @ policyName @ '', name:'' @ chainName @ '', set:'' @ sName portSet)
            ([metaLoad MetaKeyL4PROTO, cmpEq unixProto,
              payloadLoad PayloadBaseTransportHeader 2 2, lookupSet portSet, counter0] @
             setMark (hostBE E) portRuleMark)) AddRule False) (\<lambda>_.
     ret ())"

text \<open>A protocol without a port means all its ports.\<close>

definition defaultPort :: "policyPort \<Rightarrow> policyPort" where
  "defaultPort port =
     (if ppPort port = None \<and> ppProtocol port \<noteq> None
      then port\<lparr>ppPort := Some (IntVal 1), ppEndPort := Some MaxUint16\<rparr> else port)"

text \<open>The loop over the ports: the elements for TCP (also the default), UDP and SCTP.\<close>

fun collectPorts ::
  "policyPort list \<Rightarrow> set_element list \<Rightarrow> set_element list \<Rightarrow> set_element list \<Rightarrow>
   (set_element list \<times> set_element list \<times> set_element list) result" where
  "collectPorts [] tcp udp sctp = Inr (tcp, udp, sctp)"
| "collectPorts (port0 # ports) tcp udp sctp =
     (let port = defaultPort port0 in
      case validatePortSpec port of
        Inl e \<Rightarrow> Inl e
      | Inr portElements \<Rightarrow>
          (case ppProtocol port of
             Some proto \<Rightarrow>
               if proto = ''UDP'' then collectPorts ports tcp (udp @ portElements) sctp
               else if proto = ''SCTP'' then collectPorts ports tcp udp (sctp @ portElements)
               else collectPorts ports (tcp @ portElements) udp sctp
           | None \<Rightarrow> collectPorts ports (tcp @ portElements) udp sctp))"

definition protoPorts ::
  "'k env \<Rightarrow> nft_chain \<Rightarrow> string \<Rightarrow> nft_chain \<Rightarrow> string \<Rightarrow> string \<Rightarrow> set_element list \<Rightarrow> ('k, unit) stm" where
  "protoPorts E chain portsName portChain policyName protocol els =
     (if 0 < length els then
        let (suffix, unixFlag) = getProtocolInfo protocol in
        seq (updateSet E (getInetSet chain portsName suffix) els) (\<lambda>set.
        wrapped ''failed to apply port rules for set''
          (applyProtoPortsRules E portsName portChain policyName set unixFlag))
      else ret ())"

definition applyPolicyPortsRules ::
  "'k env \<Rightarrow> string \<Rightarrow> nft_chain \<Rightarrow> string \<Rightarrow> policyPort list \<Rightarrow> nat \<Rightarrow> ('k, unit) stm" where
  "applyPolicyPortsRules E chainName chain policyName ports portIndex =
     (let portsName = nftNameWithSuffix chainName ''-'' (portsChainSuffix @ ''-'' @ fmt_d portIndex) in
      seq (wrapped ''failed to create ports chain'' (addChain E (plainChain portsName (cTable chain)))) (\<lambda>portChain.
      seq (updateRule E (mkRule (cTable chain) (cName chain)
             (''policy:'' @ policyName @ '', name:'' @ chainName @ '', jump:'' @ cName portChain)
             [counter0, jumpTo (cName portChain)]) AddRule False) (\<lambda>_.
      seq (lift_result (collectPorts ports [] [] [])) (\<lambda>(portsTCP, portsUDP, portsSCTP).
      seq (protoPorts E chain portsName portChain policyName ''TCP'' portsTCP) (\<lambda>_.
      seq (protoPorts E chain portsName portChain policyName ''UDP'' portsUDP) (\<lambda>_.
      seq (protoPorts E chain portsName portChain policyName ''SCTP'' portsSCTP) (\<lambda>_.
      if length ports = 0 \<or> (length portsTCP = 0 \<and> length portsUDP = 0 \<and> length portsSCTP = 0) then
        seq (updateRule E (markAllRule E (cTable chain) (cName portChain)
               (''policy:'' @ policyName @ '', name:'' @ portsName @ '', no ports skipped accept all'') portRuleMark)
               AddRule False) (\<lambda>_.
        ret ())
      else ret ())))))))"

subsection \<open>One policy\<close>

definition policyChainName :: "string \<Rightarrow> policy \<Rightarrow> string" where
  "policyChainName entryChainName policy =
     entryChainName @ ''-'' @
     truncateNftName (policyRuleNamespacedName policy)
       (int nftNameMaxLen - int (length entryChainName) - 1)"

text \<open>
  The body of the loops over the rules of a policy. For egress rules the comment of the mark
  reset carries the policy's name without its namespace.
\<close>

definition applyPolicyRule ::
  "'k env \<Rightarrow> policyDeps \<Rightarrow> string \<Rightarrow> nft_chain \<Rightarrow> string \<Rightarrow> string \<Rightarrow> podInfo \<Rightarrow> string list \<Rightarrow> nat \<Rightarrow> policyRule \<Rightarrow>
   ('k, unit) stm" where
  "applyPolicyRule E D chainName policyChain resetName policyName podInfo policyNetworks index rule =
     seq (wrapped ''failed to apply mark reset for policy''
           (applyMarkReset E chainName policyChain resetName index)) (\<lambda>_.
     seq (wrapped ''failed to apply ports for policy''
           (applyPolicyPortsRules E chainName policyChain policyName (prPorts rule) index)) (\<lambda>_.
     seq (wrapped ''failed to apply address rules for policy''
           (applyPolicyPeersRules E D chainName policyChain policyName (prPeers rule) podInfo policyNetworks index)) (\<lambda>_.
     wrapped ''failed to apply mark check for policy''
       (applyMarkCheck E chainName policyChain policyName index))))"

definition applyPodRules ::
  "'k env \<Rightarrow> policyDeps \<Rightarrow> nft_chain \<Rightarrow> podInfo \<Rightarrow> policy \<Rightarrow> string list \<Rightarrow> ('k, bool) stm" where
  "applyPodRules E D chain podInfo policy policyNetworks =
     (let chainName = policyChainName (cName chain) policy; pname = policyNamespacedName policy in
      seq (gets nfilter) (\<lambda>ft.
      seq (wrapped ''failed to create policy chain'' (addChain E (plainChain chainName ft))) (\<lambda>policyChain.
      seq (for_acc (piInterfaces podInfo) False (\<lambda>podIntf newRules.
             if intf_CheckPolicyNetwork podIntf policyNetworks then
               seq (wrapped ''failed to apply pod interface rules for policy''
                     (applyPodInterfaceRules E chain policyChain policy podIntf)) (\<lambda>newRule.
               ret (if newRule then True else newRules))
             else ret newRules)) (\<lambda>newRules.
      seq (if isIngressChain chainName then
             for_each (enumerate 0 (case spIngress (polSpec policy) of None \<Rightarrow> [] | Some rs \<Rightarrow> rs)) (\<lambda>(index, ingress).
               applyPolicyRule E D chainName policyChain pname pname podInfo policyNetworks index ingress)
           else
             for_each (enumerate 0 (case spEgress (polSpec policy) of None \<Rightarrow> [] | Some rs \<Rightarrow> rs)) (\<lambda>(index, egress).
               applyPolicyRule E D chainName policyChain (polName policy) pname podInfo policyNetworks index egress)) (\<lambda>_.
      ret newRules)))))"

end
