(* ===== verification/Cleanup.thy ===== *)
theory Cleanup
  imports Guards
begin

text \<open>
  Removal of what the last run did not use (pkg/server/netfilterrules.go): rules and sets of
  the two managed tables that were not recorded, then chains that are neither recorded nor
  filled.
\<close>

text \<open>One rule of the loop in cleanupRules; the accumulator is the flush flag and the errors.\<close>

definition cleanupRule :: "'k env \<Rightarrow> nft_rule \<Rightarrow> bool \<times> go_error list \<Rightarrow> ('k, bool \<times> go_error list) stm" where
  "cleanupRule E rule acc =
     (case acc of (performFlush, cleanupErrs) \<Rightarrow>
      case hash_rule (gobT E) rule of
        Inl e \<Rightarrow>
          seq (lift_result (userdata_GetString (rUserData rule) TypeComment)) (\<lambda>comment.
          seq (attempt (inConn (DelRule rule))) (\<lambda>r.
          case r of
            Inl delErr \<Rightarrow> ret (performFlush, cleanupErrs @ [Wrap ''delete unhashable rule'' delErr])
          | Inr _ \<Rightarrow> ret (True, cleanupErrs)))
      | Inr key \<Rightarrow>
          seq (gets nrules) (\<lambda>used.
          if used key = None then
            seq (lift_result (userdata_GetString (rUserData rule) TypeComment)) (\<lambda>comment.
            seq (attempt (inConn (DelRule rule))) (\<lambda>r.
            case r of
              Inl delErr \<Rightarrow> ret (performFlush, cleanupErrs @ [Wrap ''delete rule'' delErr])
            | Inr _ \<Rightarrow> ret (True, cleanupErrs)))
          else ret (performFlush, cleanupErrs)))"

definition cleanupRules :: "'k env \<Rightarrow> nft_table \<Rightarrow> ('k, unit) stm" where
  "cleanupRules E table =
     seq (wrapped ''failed to list chains'' (inConn (ListChainsOfTableFamily (kern E) (tFamily table)))) (\<lambda>chains.
     seq (for_acc chains (False, []) (\<lambda>chain acc.
            if tName (cTable chain) = tName table then
              seq (wrapped ''failed to list rules for table'' (inConn (GetRules (kern E) table (cName chain)))) (\<lambda>rules.
              for_acc rules acc (cleanupRule E))
            else ret acc)) (\<lambda>(performFlush, cleanupErrs).
     seq (wrapped ''failed to list sets for table'' (inConn (GetSets (kern E) table))) (\<lambda>sets.
     seq (for_acc sets performFlush (\<lambda>s pf.
            seq (gets nsets) (\<lambda>used.
            if used (setKey s) = None \<and> \<not> sAnonymous s
            then seq (inConn (DelSet s)) (\<lambda>_. ret True)
            else ret pf))) (\<lambda>performFlush'.
     seq (if performFlush' then wrapped ''failed to flush rules/sets cleanup'' (inConn (Flush (kern E))) else ret ()) (\<lambda>_.
     if 0 < length cleanupErrs then fail (Joined cleanupErrs) else ret ())))))"

text \<open>One chain of the loop in cleanupChains; \<open>n0\<close> gives the names of the managed tables.\<close>

definition cleanupChain :: "'k env \<Rightarrow> 'k nftState \<Rightarrow> nft_chain \<Rightarrow> bool \<Rightarrow> ('k, bool) stm" where
  "cleanupChain E n0 chain performFlush =
     (if \<not> (tName (cTable chain) = tName (nfilter n0) \<or> tName (cTable chain) = tName (nnat n0))
      then ret performFlush
      else
        seq (wrapped ''failed to get rules for table''
              (inConn (GetRules (kern E) (cTable chain) (cName chain)))) (\<lambda>rules.
        seq (gets nchains) (\<lambda>used.
        if used (chainID chain) = None \<and> length rules < 1
        then seq (inConn (DelChain chain)) (\<lambda>_. ret True)
        else ret performFlush)))"

definition cleanupChains :: "'k env \<Rightarrow> ('k, unit) stm" where
  "cleanupChains E =
     seq (wrapped ''failed to list chains'' (inConn (ListChainsOfTableFamily (kern E) TableFamilyINet))) (\<lambda>chains.
     seq (gets id) (\<lambda>n0.
     seq (for_acc chains False (cleanupChain E n0)) (\<lambda>performFlush.
     if performFlush then wrapped ''failed to flush chains cleanup'' (inConn (Flush (kern E))) else ret ())))"

definition forget :: "'k nftState \<Rightarrow> 'k nftState" where
  "forget n = n\<lparr>nrules := (\<lambda>_. None), nsets := (\<lambda>_. None), nchains := (\<lambda>_. None)\<rparr>"

definition cleanup :: "'k env \<Rightarrow> ('k, unit) stm" where
  "cleanup E =
     deferred forget
       (seq (gets id) (\<lambda>n.
        seq (wrapped ''failed to cleanup table'' (cleanupRules E (nfilter n))) (\<lambda>_.
        seq (wrapped ''failed to cleanup table'' (cleanupRules E (nnat n))) (\<lambda>_.
        wrapped ''failed to cleanup chains'' (cleanupChains E)))))"

end
