(* ===== verification/Server.thy ===== *)
theory Server
  imports Policy Cleanup
begin

text \<open>
  Rule generation for one pod (pkg/server/server.go): which policies apply to the pod and in
  which direction, the order in which they are rendered, and the whole sequence of
  ApplyPolicyRulesForPodAndFamily.
\<close>

subsection \<open>Which policies apply\<close>

text \<open>
  \<^verbatim>\<open>strings.EqualFold\<close> with an ASCII text: letters fold to lower case, and two non-ASCII runes
  (long s and the Kelvin sign) fold to ASCII letters.
\<close>

definition fold_rune :: "nat \<Rightarrow> nat" where
  "fold_rune r =
     (if 65 \<le> r \<and> r \<le> 90 then r + 32 else if r = 0x17F then 115 else if r = 0x212A then 107 else r)"

definition EqualFold :: "string \<Rightarrow> string \<Rightarrow> bool" where
  "EqualFold s t = (map fold_rune (runes s) = map fold_rune (runes t))"

definition PolicyTypeIngress :: string where "PolicyTypeIngress = ''Ingress''"
definition PolicyTypeEgress :: string where "PolicyTypeEgress = ''Egress''"

definition getEnabledPolicyTypes :: "policy \<Rightarrow> bool \<times> bool" where
  "getEnabledPolicyTypes policy =
     (if 0 < length (spPolicyTypes (polSpec policy)) then
        fold (\<lambda>v (ingressEnable, egressEnable).
          if EqualFold v PolicyTypeIngress then (True, egressEnable)
          else if EqualFold v PolicyTypeEgress then (ingressEnable, True)
          else (ingressEnable, egressEnable)) (spPolicyTypes (polSpec policy)) (False, False)
      else (spIngress (polSpec policy) \<noteq> None, spEgress (polSpec policy) \<noteq> None))"

record internalPolicy =
  ipPolicy :: policy
  ipNetworks :: "string list"

text \<open>CompareInternalPolicy compares these keys.\<close>

definition internalPolicyKey :: "internalPolicy \<Rightarrow> string" where
  "internalPolicyKey a = polNamespace (ipPolicy a) @ ''/'' @ polName (ipPolicy a)"

text \<open>The networks of a policy: the annotation without spaces, split at commas, qualified, sorted.\<close>

definition qualifyNetwork :: "string \<Rightarrow> string \<Rightarrow> string" where
  "qualifyNetwork ns networkName =
     (if CHR ''/'' \<notin> set networkName then ns @ ''/'' @ networkName else networkName)"

definition policyNetworksOf :: "policy \<Rightarrow> string list option" where
  "policyNetworksOf policy =
     (case map_of (polAnnotations policy) PolicyNetworkAnnotation of
        None \<Rightarrow> None
      | Some annot \<Rightarrow>
          Some (sort (map (qualifyNetwork (polNamespace policy))
                  (Split (CHR '','') (ReplaceAll1 (CHR '' '') [] annot)))))"

text \<open>
  One policy of the loop in ApplyPolicyRulesForPodAndFamily: whether it is rendered for
  ingress and for egress, and with which networks. A policy with a bad selector is skipped.
\<close>

definition policyApplies :: "policyDeps \<Rightarrow> pod \<Rightarrow> podInfo \<Rightarrow> policy \<Rightarrow> (bool \<times> bool \<times> string list) option" where
  "policyApplies D pod podInfo policy =
     (if polNamespace policy \<noteq> podNamespace pod then None
      else if selector_nonempty (spPodSelector (polSpec policy)) \<and>
              (case LabelSelectorAsSelector (labelSyntax D) (spPodSelector (polSpec policy)) of
                 Inl e \<Rightarrow> True
               | Inr sel \<Rightarrow> \<not> sel_Matches sel (podLabels pod)) then None
      else
        let (ingressEnable, egressEnable) = getEnabledPolicyTypes policy in
        case policyNetworksOf policy of
          None \<Rightarrow> None
        | Some networks \<Rightarrow>
            if pod_CheckPolicyNetwork podInfo networks then Some (ingressEnable, egressEnable, networks)
            else None)"

definition selectPolicies ::
  "policyDeps \<Rightarrow> pod \<Rightarrow> podInfo \<Rightarrow> policy list \<Rightarrow> internalPolicy list \<times> internalPolicy list" where
  "selectPolicies D pod podInfo policyMap =
     fold (\<lambda>policy (ingressPolicies, egressPolicies).
       case policyApplies D pod podInfo policy of
         None \<Rightarrow> (ingressPolicies, egressPolicies)
       | Some (ingressEnable, egressEnable, networks) \<Rightarrow>
           let ip = \<lparr>ipPolicy = policy, ipNetworks = networks\<rparr> in
           (if ingressEnable then ingressPolicies @ [ip] else ingressPolicies,
            if egressEnable then egressPolicies @ [ip] else egressPolicies)) policyMap ([], [])"

subsection \<open>The sequence for one pod\<close>

definition applyDirection ::
  "'k env \<Rightarrow> policyDeps \<Rightarrow> ('k nftState \<Rightarrow> nft_chain) \<Rightarrow> podInfo \<Rightarrow> internalPolicy list \<Rightarrow> ('k, unit) stm" where
  "applyDirection E D entry podInfo policies =
     (if 0 < length policies then
        seq (gets entry) (\<lambda>chain.
        seq (for_acc policies False (\<lambda>policy forceUpdate.
               seq (wrapped ''failed to apply pod rules for policy''
                     (applyPodRules E D chain podInfo (ipPolicy policy) (ipNetworks policy))) (\<lambda>newRules.
               seq (wrapped ''failed to apply mark check rule in chain''
                     (applyGeneralMarkCheck E chain (ipPolicy policy))) (\<lambda>_.
               ret (if newRules then True else forceUpdate))))) (\<lambda>forceUpdate.
        wrapped ''failed to apply drop-remaining rules'' (applyDropRemaining E chain forceUpdate)))
      else ret ())"

text \<open>Everything after the state exists: render, flush, clean up.\<close>

definition applyPolicies ::
  "'k env \<Rightarrow> policyDeps \<Rightarrow> CommonRuleConfig \<Rightarrow> policy list \<Rightarrow> pod \<Rightarrow> podInfo \<Rightarrow> ('k, unit) stm" where
  "applyPolicies E D cfg policyMap pod podInfo =
     (let (ingress0, egress0) = selectPolicies D pod podInfo policyMap in
      seq (wrapped ''failed to apply common chain rules for pod'' (applyCommonChainRules E cfg)) (\<lambda>_.
      let ingressPolicies = sort_key internalPolicyKey ingress0;
          egressPolicies = sort_key internalPolicyKey egress0 in
      seq (applyDirection E D ingress_ch podInfo ingressPolicies) (\<lambda>_.
      seq (applyDirection E D egress_ch podInfo egressPolicies) (\<lambda>_.
      seq (wrapped ''nft flush failed for pod'' (inConn (Flush (kern E)))) (\<lambda>_.
      wrapped ''failed to cleanup nft'' (cleanup E))))))"

text \<open>Run a computation of the rule generator on a fresh state over the connection.\<close>

definition withState :: "nft_table \<Rightarrow> nft_table \<Rightarrow> ('k, 'a) stm \<Rightarrow> ('k conn, 'a) comp" where
  "withState ft nt m = (\<lambda>c. case m (new_nftState c ft nt) of (r, n) \<Rightarrow> (r, nft n))"

definition ApplyPolicyRulesForPodAndFamily ::
  "'k env \<Rightarrow> policyDeps \<Rightarrow> CommonRuleConfig \<Rightarrow> policy list \<Rightarrow> pod \<Rightarrow> podInfo option \<Rightarrow> ('k conn, unit) comp" where
  "ApplyPolicyRulesForPodAndFamily E D cfg policyMap pod podInfo =
     seq (wrapped ''bootstrap netfilter rules failed for pod'' (bootstrapTables E podInfo)) (\<lambda>(info0, ft, nt).
     withState ft nt
       (seq (wrapped ''bootstrap netfilter rules failed for pod'' (bootstrapRules E info0)) (\<lambda>info.
        applyPolicies E D cfg policyMap pod info)))"

end
