(* ===== verification/Watch.thy ===== *)
theory Watch
  imports NodeInfo Server
begin

text \<open>
  What makes the daemon reconcile (pkg/controller/predicates.go, mappers.go, indexes.go and
  SetupWithManager of reconciler.go): the filters on watch events, the requests the remaining
  events are mapped to, the registration of both for every kind of object, and the index by
  which the pods of a node are listed. Go maps are association lists with distinct keys.
\<close>

subsection \<open>Events\<close>

text \<open>The watched objects; of nodes, namespaces and network definitions only the name is used.\<close>

datatype kobject =
    PodObj pod
  | PolicyObj policy
  | NodeObj string
  | NamespaceObj string
  | NetDefObj string

datatype event =
    CreateEvent kobject
  | DeleteEvent kobject
  | UpdateEvent kobject kobject
  | GenericEvent kobject

fun objName :: "kobject \<Rightarrow> string" where
  "objName (PodObj p) = podName p"
| "objName (PolicyObj p) = polName p"
| "objName (NodeObj n) = n"
| "objName (NamespaceObj n) = n"
| "objName (NetDefObj n) = n"

subsection \<open>Filters\<close>

definition labelsChanged :: "labels \<Rightarrow> labels \<Rightarrow> bool" where
  "labelsChanged oldLabels newLabels =
     (if length oldLabels \<noteq> length newLabels then True
      else list_ex (\<lambda>(key, oldVal). map_of newLabels key \<noteq> Some oldVal) oldLabels)"

definition containerStatusesChanged :: "containerStatus list \<Rightarrow> containerStatus list \<Rightarrow> bool" where
  "containerStatusesChanged oldStatuses newStatuses =
     (if length oldStatuses \<noteq> length newStatuses then True
      else
        let oldByName = fold (\<lambda>s m. m(csName s \<mapsto> csContainerID s)) oldStatuses Map.empty in
        list_ex (\<lambda>s. oldByName (csName s) \<noteq> Some (csContainerID s)) newStatuses)"

definition networkAnnotationKeys :: "string list" where
  "networkAnnotationKeys = [''k8s.v1.cni.cncf.io/network-status'', ''k8s.v1.cni.cncf.io/networks'']"

text \<open>A missing key of a Go map of strings reads as the empty string.\<close>

definition annotation :: "labels \<Rightarrow> string \<Rightarrow> string" where
  "annotation m key = (case map_of m key of None \<Rightarrow> [] | Some v \<Rightarrow> v)"

definition networkAnnotationsChanged :: "labels \<Rightarrow> labels \<Rightarrow> bool" where
  "networkAnnotationsChanged oldAnnotations newAnnotations =
     list_ex (\<lambda>key. annotation oldAnnotations key \<noteq> annotation newAnnotations key) networkAnnotationKeys"

definition policyNetworkAnnotation :: string where
  "policyNetworkAnnotation = ''k8s.v1.cni.cncf.io/policy-for''"

definition policyNetworkAnnotationChanged :: "labels \<Rightarrow> labels \<Rightarrow> bool" where
  "policyNetworkAnnotationChanged oldAnnotations newAnnotations =
     (annotation oldAnnotations policyNetworkAnnotation \<noteq> annotation newAnnotations policyNetworkAnnotation)"

definition podUpdated :: "pod \<Rightarrow> pod \<Rightarrow> bool" where
  "podUpdated oldPod newPod =
     (if podPhase oldPod \<noteq> podPhase newPod then True
      else if podNodeName oldPod \<noteq> podNodeName newPod then True
      else if labelsChanged (podLabels oldPod) (podLabels newPod) then True
      else if containerStatusesChanged (podContainers oldPod) (podContainers newPod) then True
      else networkAnnotationsChanged (podAnnotations oldPod) (podAnnotations newPod))"

fun PodPredicate :: "event \<Rightarrow> bool" where
  "PodPredicate (CreateEvent x) = True"
| "PodPredicate (DeleteEvent x) = True"
| "PodPredicate (UpdateEvent (PodObj oldPod) (PodObj newPod)) = podUpdated oldPod newPod"
| "PodPredicate (UpdateEvent x y) = False"
| "PodPredicate (GenericEvent x) = False"

text \<open>The policy filter reads generation and annotations of the objects; only policies arrive here.\<close>

fun PolicyPredicate :: "event \<Rightarrow> bool" where
  "PolicyPredicate (CreateEvent x) = True"
| "PolicyPredicate (DeleteEvent x) = True"
| "PolicyPredicate (UpdateEvent (PolicyObj oldPol) (PolicyObj newPol)) =
     (if polGeneration oldPol \<noteq> polGeneration newPol then True
      else policyNetworkAnnotationChanged (polAnnotations oldPol) (polAnnotations newPol))"
| "PolicyPredicate (UpdateEvent x y) = False"
| "PolicyPredicate (GenericEvent x) = False"

fun NodePredicate :: "string \<Rightarrow> event \<Rightarrow> bool" where
  "NodePredicate nodeName (CreateEvent x) = (objName x = nodeName)"
| "NodePredicate nodeName (DeleteEvent x) = (objName x = nodeName)"
| "NodePredicate nodeName (UpdateEvent x y) = (objName y = nodeName)"
| "NodePredicate nodeName (GenericEvent x) = (objName x = nodeName)"

subsection \<open>Requests and index\<close>

text \<open>A request is a namespaced name; all requests name a node.\<close>

fun mapPodToNode :: "string \<Rightarrow> kobject \<Rightarrow> namespacedName list" where
  "mapPodToNode _ (PodObj p) = (if podNodeName p = [] then [] else [([], podNodeName p)])"
| "mapPodToNode _ x = []"

fun mapPolicyToNode :: "string \<Rightarrow> kobject \<Rightarrow> namespacedName list" where
  "mapPolicyToNode nodeName (PolicyObj p) = [([], nodeName)]"
| "mapPolicyToNode nodeName x = []"

fun mapNamespaceToNode :: "string \<Rightarrow> kobject \<Rightarrow> namespacedName list" where
  "mapNamespaceToNode nodeName (NamespaceObj n) = [([], nodeName)]"
| "mapNamespaceToNode nodeName x = []"

fun mapNetDefToNode :: "string \<Rightarrow> kobject \<Rightarrow> namespacedName list" where
  "mapNetDefToNode nodeName (NetDefObj n) = [([], nodeName)]"
| "mapNetDefToNode nodeName x = []"

definition podHostnameExtractor :: "pod \<Rightarrow> string list" where
  "podHostnameExtractor p = (if podNodeName p = [] then [] else [podNodeName p])"

text \<open>
  The event handlers of the vendored controller-runtime: the requests of a mapped object are
  enqueued once per event; the handler for the reconciled kind enqueues the object itself,
  which for a node has no namespace.
\<close>

definition mapAndEnqueue :: "(kobject \<Rightarrow> namespacedName list) \<Rightarrow> kobject \<Rightarrow> namespacedName list \<Rightarrow> namespacedName list" where
  "mapAndEnqueue toRequests x reqs = fold (\<lambda>req acc. if req \<in> set acc then acc else acc @ [req]) (toRequests x) reqs"

fun EnqueueRequestsFromMapFunc :: "(kobject \<Rightarrow> namespacedName list) \<Rightarrow> event \<Rightarrow> namespacedName list" where
  "EnqueueRequestsFromMapFunc fn (CreateEvent x) = mapAndEnqueue fn x []"
| "EnqueueRequestsFromMapFunc fn (UpdateEvent x y) = mapAndEnqueue fn y (mapAndEnqueue fn x [])"
| "EnqueueRequestsFromMapFunc fn (DeleteEvent x) = mapAndEnqueue fn x []"
| "EnqueueRequestsFromMapFunc fn (GenericEvent x) = mapAndEnqueue fn x []"

fun eventObject :: "event \<Rightarrow> kobject" where
  "eventObject (CreateEvent x) = x"
| "eventObject (DeleteEvent x) = x"
| "eventObject (UpdateEvent x y) = y"
| "eventObject (GenericEvent x) = x"

definition EnqueueRequestForObject :: "event \<Rightarrow> namespacedName list" where
  "EnqueueRequestForObject e = [([], objName (eventObject e))]"

text \<open>The requests that the registered watches enqueue for an event.\<close>

definition SetupWithManager :: "string \<Rightarrow> event \<Rightarrow> namespacedName list" where
  "SetupWithManager nodeName e =
     (case eventObject e of
        NodeObj _ \<Rightarrow> if NodePredicate nodeName e then EnqueueRequestForObject e else []
      | PodObj _ \<Rightarrow> if PodPredicate e then EnqueueRequestsFromMapFunc (mapPodToNode nodeName) e else []
      | PolicyObj _ \<Rightarrow> if PolicyPredicate e then EnqueueRequestsFromMapFunc (mapPolicyToNode nodeName) e else []
      | NetDefObj _ \<Rightarrow> EnqueueRequestsFromMapFunc (mapNetDefToNode nodeName) e
      | NamespaceObj _ \<Rightarrow> EnqueueRequestsFromMapFunc (mapNamespaceToNode nodeName) e)"

subsection \<open>What the filters compare\<close>

lemma set_eq_of_length:
  assumes "set xs \<subseteq> set ys" "distinct xs" "distinct ys" "length xs = length ys"
  shows "set xs = set ys"
  using assms by (simp add: card_subset_eq distinct_card)

lemma labelsChanged_iff:
  assumes "distinct (map fst xs)" "distinct (map fst ys)"
  shows "labelsChanged xs ys \<longleftrightarrow> map_of xs \<noteq> map_of ys"
proof
  assume "map_of xs \<noteq> map_of ys"
  show "labelsChanged xs ys"
  proof (rule ccontr)
    assume "\<not> labelsChanged xs ys"
    then have l: "length xs = length ys" and "\<forall>(k, v) \<in> set xs. map_of ys k = Some v"
      by (auto simp: labelsChanged_def list_ex_iff split: if_splits)
    then have "set xs \<subseteq> set ys" by (auto dest: map_of_SomeD)
    then have "set xs = set ys"
      using l assms by (intro set_eq_of_length) (auto simp: distinct_map)
    with assms \<open>map_of xs \<noteq> map_of ys\<close> show False by (simp add: map_of_inject_set)
  qed
next
  assume c: "labelsChanged xs ys"
  show "map_of xs \<noteq> map_of ys"
  proof
    assume e: "map_of xs = map_of ys"
    then have "set xs = set ys" using assms by (simp add: map_of_inject_set)
    then have "length xs = length ys"
      using assms by (metis distinct_card distinct_map)
    with c obtain k v where "(k, v) \<in> set xs" "map_of ys k \<noteq> Some v"
      by (auto simp: labelsChanged_def list_ex_iff)
    then show False using e map_of_is_SomeI [OF assms(1)] by metis
  qed
qed

lemma fold_map_upd:
  "fold (\<lambda>s m. m(csName s \<mapsto> csContainerID s)) ss m0 k = Some i \<Longrightarrow>
   m0 k = Some i \<or> (\<exists>s \<in> set ss. csName s = k \<and> csContainerID s = i)"
proof (induction ss arbitrary: m0)
  case (Cons a ss)
  from Cons.prems have "fold (\<lambda>s m. m(csName s \<mapsto> csContainerID s)) ss (m0(csName a \<mapsto> csContainerID a)) k = Some i"
    unfolding fold.simps comp_def .
  from Cons.IH [OF this]
  have "(m0(csName a \<mapsto> csContainerID a)) k = Some i \<or> (\<exists>s \<in> set ss. csName s = k \<and> csContainerID s = i)" .
  then show ?case by (cases "k = csName a") auto
qed simp

lemma containerStatuses_kept:
  assumes "\<not> containerStatusesChanged xs ys"
  shows "(\<lambda>s. (csName s, csContainerID s)) ` set ys \<subseteq> (\<lambda>s. (csName s, csContainerID s)) ` set xs"
proof -
  have "\<exists>x \<in> set xs. csName x = csName y \<and> csContainerID x = csContainerID y" if "y \<in> set ys" for y
    using assms that fold_map_upd [of xs Map.empty "csName y" "csContainerID y"]
    by (auto simp: containerStatusesChanged_def Let_def list_ex_iff split: if_splits)
  then show ?thesis by (auto simp: image_iff) metis
qed

subsection \<open>Properties of the filters\<close>

lemma sel_Matches_cong: "map_of ls = map_of ls' \<Longrightarrow> sel_Matches s ls = sel_Matches s ls'"
  unfolding sel_Matches_def req_Matches_def by (simp only:)



text \<open>
  C24. No policy update that matters is filtered out. When the filter drops an update of a
  policy, and the specification only changes together with the generation number, the policy
  applies to a pod after the update as before, with the same directions and networks; the only
  interface name excluded is the namespace followed by a slash and nothing, which would be
  addressed by an empty annotation.
\<close>

theorem PolicyPredicate_complete:
  assumes "\<not> PolicyPredicate (UpdateEvent (PolicyObj p) (PolicyObj q))"
    and "polGeneration p = polGeneration q \<longrightarrow> polSpec p = polSpec q"
    and "polNamespace q = polNamespace p"
    and "polNamespace p @ ''/'' \<notin> NetattachName ` set (piInterfaces info)"
  shows "policyApplies D pd info q = policyApplies D pd info p"
proof -
  from assms(1,2) have spec: "polSpec q = polSpec p"
    and an: "annotation (polAnnotations q) PolicyNetworkAnnotation = annotation (polAnnotations p) PolicyNetworkAnnotation"
    by (simp_all add: policyNetworkAnnotationChanged_def policyNetworkAnnotation_def PolicyNetworkAnnotation_def split: if_splits)
  have enabled: "getEnabledPolicyTypes q = getEnabledPolicyTypes p" by (simp add: getEnabledPolicyTypes_def spec)
  have no: "\<not> pod_CheckPolicyNetwork info [polNamespace p @ ''/'']"
    using assms(4) by (auto simp: pod_CheckPolicyNetwork_def list_ex_iff) (metis image_eqI)
  have empty: "policyNetworksOf r = Some [polNamespace p @ ''/'']"
    if "map_of (polAnnotations r) PolicyNetworkAnnotation = Some []" "polNamespace r = polNamespace p" for r
    using that by (simp add: policyNetworksOf_def ReplaceAll1_def qualifyNetwork_def)
  have nets: "policyNetworksOf q = policyNetworksOf p \<or>
      {policyNetworksOf q, policyNetworksOf p} = {None, Some [polNamespace p @ ''/'']}"
    using an empty [of p] empty [of q] assms(3)
    by (auto simp: annotation_def policyNetworksOf_def split: option.splits)
  have eq: "policyApplies D pd info q = policyApplies D pd info p" if "policyNetworksOf q = policyNetworksOf p"
    by (simp add: policyApplies_def spec enabled assms(3) that)
  have none: "policyApplies D pd info r = None" if "policyNetworksOf r = None \<or> policyNetworksOf r = Some [polNamespace p @ ''/'']" for r
    using that no by (auto simp: policyApplies_def split: prod.splits)
  from nets show ?thesis
  proof
    assume "{policyNetworksOf q, policyNetworksOf p} = {None, Some [polNamespace p @ ''/'']}"
    then have "policyApplies D pd info q = None" "policyApplies D pd info p = None"
      by (auto intro!: none simp: doubleton_eq_iff)
    then show ?thesis by simp
  qed (rule eq)
qed

theorem PolicyPredicate_complete_witness:
  "\<exists>p q. polAnnotations p \<noteq> polAnnotations q \<and> \<not> PolicyPredicate (UpdateEvent (PolicyObj p) (PolicyObj q)) \<and>
     (\<forall>D pd. policyApplies D pd \<lparr>piName = [], piNamespace = [], piNetNSPath = [], piNetworkStatus = [], piNodeName = [],
        piInterfaces = [demo_interface]\<rparr> q =
       policyApplies D pd \<lparr>piName = [], piNamespace = [], piNetNSPath = [], piNetworkStatus = [], piNodeName = [],
        piInterfaces = [demo_interface]\<rparr> p)"
proof -
  let ?i = "\<lparr>piName = [], piNamespace = [], piNetNSPath = [], piNetworkStatus = [], piNodeName = [], piInterfaces = [demo_interface]\<rparr>"
  define p where "p = \<lparr>polName = ''a'', polNamespace = ''ns'', polAnnotations = [(PolicyNetworkAnnotation, ''mac'')],
    polGeneration = 1, polSpec = \<lparr>spPodSelector = \<lparr>matchLabels = [], matchExpressions = []\<rparr>, spIngress = Some [],
      spEgress = None, spPolicyTypes = []\<rparr>\<rparr>"
  define q where "q = p\<lparr>polAnnotations := polAnnotations p @ [(''note'', ''x'')]\<rparr>"
  have f: "\<not> PolicyPredicate (UpdateEvent (PolicyObj p) (PolicyObj q))"
    by (simp add: p_def q_def policyNetworkAnnotationChanged_def annotation_def policyNetworkAnnotation_def PolicyNetworkAnnotation_def)
  have "policyApplies D pd ?i q = policyApplies D pd ?i p" for D pd
    by (rule PolicyPredicate_complete [OF f]) (simp_all add: p_def q_def demo_interface_def)
  moreover have "polAnnotations p \<noteq> polAnnotations q" by (simp add: q_def)
  ultimately show ?thesis using f by blast
qed

end
