(* ===== verification/Ownership.thy ===== *)
theory Ownership
  imports Server
begin

text \<open>
  Which nftables objects the rule generator touches. The locale \<open>owned_render\<close> is the
  contract between the rule generator and the kernel: reads return what was asked for, and
  the guard admits every message about the two tables it works on. Its lemmas follow the
  code: every step of rendering a pod's rules keeps the guard.
\<close>

lemma ensures_seq_any: "ensures P m (\<lambda>_. True) \<Longrightarrow> (\<And>x. ensures P (f x) Q) \<Longrightarrow> ensures P (seq m f) Q"
  by (rule ensures_seq)

lemma ensures_lift_any: "ensures P (lift_result r) (\<lambda>_. True)"
  by (rule ensures_lift_result) simp

locale owned_render = guarded_batches "kern E" ok I + netlink_reads "kern E"
  for E :: "'k env" and ok :: "nft_msg \<Rightarrow> bool" and I :: "'k \<Rightarrow> bool" +
  fixes ft nt :: nft_table
  assumes own_filter: "owns ok ft" and own_nat: "owns ok nt"
begin

lemma seq_filter: "ensures (safe ok I ft nt S) (f ft) Q \<Longrightarrow> ensures (safe ok I ft nt S) (seq (gets nfilter) f) Q"
  by (rule ensures_seq [OF safe_gets_filter]) simp

lemma seq_nat: "ensures (safe ok I ft nt S) (f nt) Q \<Longrightarrow> ensures (safe ok I ft nt S) (seq (gets nnat) f) Q"
  by (rule ensures_seq [OF safe_gets_nat]) simp

lemma seq_updateSet:
  "owns ok (sTable s) \<Longrightarrow> (\<And>s'. sTable s' = sTable s \<Longrightarrow> ensures (safe ok I ft nt S) (f s') Q) \<Longrightarrow>
   ensures (safe ok I ft nt S) (seq (updateSet E s els) f) Q"
  by (rule ensures_seq [OF safe_updateSet]) (use netlink_reads_axioms in auto)

lemma seq_wrapped_updateSet:
  "owns ok (sTable s) \<Longrightarrow> (\<And>s'. sTable s' = sTable s \<Longrightarrow> ensures (safe ok I ft nt S) (f s') Q) \<Longrightarrow>
   ensures (safe ok I ft nt S) (seq (wrapped t (updateSet E s els)) f) Q"
  by (rule ensures_seq [OF ensures_wrapped [OF safe_updateSet]]) (use netlink_reads_axioms in auto)

lemma seq_wrapped_addChain:
  "owns ok (cTable c) \<Longrightarrow> (\<And>c'. cTable c' = cTable c \<Longrightarrow> ensures (safe ok I ft nt S) (f c') Q) \<Longrightarrow>
   ensures (safe ok I ft nt S) (seq (wrapped t (addChain E c)) f) Q"
  by (rule ensures_seq [OF ensures_wrapped [OF safe_addChain]]) (use netlink_reads_axioms in auto)

lemma step_AddRule:
  "owns ok (rTable r) \<Longrightarrow> ensures (safe ok I ft nt S) (updateRule E r AddRule b) (\<lambda>_. True)"
  by (rule safe_updateRule [OF netlink_reads_axioms]) simp_all

lemma step_InsertRule:
  "owns ok (rTable r) \<Longrightarrow> ensures (safe ok I ft nt S) (updateRule E r InsertRule b) (\<lambda>_. True)"
  by (rule safe_updateRule [OF netlink_reads_axioms]) simp_all

lemmas steps = seq_filter seq_nat seq_updateSet seq_wrapped_updateSet seq_wrapped_addChain
  ensures_seq_any ensures_wrapped step_AddRule step_InsertRule ensures_lift_any
  ensures_if ensures_let ensures_case_prod ensures_case_option ensures_for_each ensures_fail

lemma own_common:
  "ensures (safe ok I ft nt S) (allowICMP E c b) (\<lambda>_. True)"
  "ensures (safe ok I ft nt S) (allowNeighborDiscovery E c) (\<lambda>_. True)"
  "ensures (safe ok I ft nt S) (allowConntracked E c) (\<lambda>_. True)"
  "sTable s = ft \<Longrightarrow> ensures (safe ok I ft nt S) (commonPrefixRule E c s els p off len) (\<lambda>_. True)"
  unfolding allowICMP_def allowNeighborDiscovery_def allowConntracked_def commonPrefixRule_def
  by (intro steps; simp add: own_filter ensures_ret)+

lemma own_applyCommonPrefixRules: "ensures (safe ok I ft nt S) (applyCommonPrefixRules E c ps p) (\<lambda>_. True)"
  unfolding applyCommonPrefixRules_def
  by (intro steps own_common ensures_ret; simp)

lemma own_applyCommonChainRules: "ensures (safe ok I ft nt S) (applyCommonChainRules E cfg) (\<lambda>_. True)"
  unfolding applyCommonChainRules_def commonRules_def
  by (intro steps own_common own_applyCommonPrefixRules ensures_ret ensures_gets; simp)

lemma own_marks:
  "ensures (safe ok I ft nt S) (applyPodInterfaceRules E c pc p i) (\<lambda>_. True)"
  "ensures (safe ok I ft nt S) (applyGeneralMarkCheck E c p) (\<lambda>_. True)"
  "ensures (safe ok I ft nt S) (applyMarkReset E cn pc pn i') (\<lambda>_. True)"
  "cTable pc = ft \<Longrightarrow> ensures (safe ok I ft nt S) (applyMarkCheck E cn pc pn i') (\<lambda>_. True)"
  "cTable pc = ft \<Longrightarrow> ensures (safe ok I ft nt S) (applyDropRemaining E pc b) (\<lambda>_. True)"
  unfolding applyPodInterfaceRules_def applyGeneralMarkCheck_def applyMarkReset_def applyMarkCheck_def
    applyDropRemaining_def
  by (intro steps; simp add: own_filter ensures_ret)+

lemma own_applyPrefixes:
  "cTable c = ft \<Longrightarrow> ensures (safe ok I ft nt S) (applyPrefixes E cn c pn b i ps xs v6) (\<lambda>_. True)"
  unfolding applyPrefixes_def
  by (intro steps ensures_ret; simp add: own_filter)

lemma own_IPBlock:
  "cTable c = ft \<Longrightarrow> ensures (safe ok I ft nt S) (applyPolicyPeersRulesIPBlock E cn c pn b i) (\<lambda>_. True)"
  unfolding applyPolicyPeersRulesIPBlock_def
  by (intro steps own_applyPrefixes)

lemma own_addIPRule:
  assumes "cTable c = ft"
  shows "ensures (safe ok I ft nt S) (addIPRule E D cn addrs c pn peer i) (\<lambda>_. True)"
  unfolding addIPRule_def
  by (intro steps ensures_case_list ensures_ret; simp add: assms own_filter)

lemma own_addIPRules:
  "cTable c = ft \<Longrightarrow> ensures (safe ok I ft nt S) (addIPRules E D cn addrs c pn peer i) (\<lambda>_. True)"
  unfolding addIPRules_def by (intro steps own_addIPRule)

lemma own_Selector:
  "cTable c = ft \<Longrightarrow>
   ensures (safe ok I ft nt S) (applyPolicyPeersRulesSelector E D cn c pn peer pi nets i) (\<lambda>_. True)"
  unfolding applyPolicyPeersRulesSelector_def
  by (intro steps own_addIPRules ensures_ret) simp_all

lemma own_applyPeer:
  "cTable c = ft \<Longrightarrow> ensures (safe ok I ft nt S) (applyPeer E D cn c pn pi nets i peer) (\<lambda>_. True)"
  unfolding applyPeer_def by (intro steps own_IPBlock own_Selector)

lemma own_applyPolicyPeersRules:
  "cTable c = ft \<Longrightarrow>
   ensures (safe ok I ft nt S) (applyPolicyPeersRules E D cn c pn peers pi nets i) (\<lambda>_. True)"
  unfolding applyPolicyPeersRules_def markAllRule_def
  by (intro steps own_applyPeer ensures_ret; simp add: own_filter plainChain_def)

lemma own_protoPorts:
  "cTable c = ft \<Longrightarrow> cTable pc = ft \<Longrightarrow>
   ensures (safe ok I ft nt S) (protoPorts E c psn pc pn proto els) (\<lambda>_. True)"
  unfolding protoPorts_def applyProtoPortsRules_def
  by (intro steps ensures_ret; simp add: own_filter getInetSet_def Let_def)

lemma own_applyPolicyPortsRules:
  "cTable c = ft \<Longrightarrow> ensures (safe ok I ft nt S) (applyPolicyPortsRules E cn c pn ports i) (\<lambda>_. True)"
  unfolding applyPolicyPortsRules_def markAllRule_def
  by (intro steps own_protoPorts ensures_ret; simp add: own_filter plainChain_def)

lemma own_applyPolicyRule:
  "cTable c = ft \<Longrightarrow> ensures (safe ok I ft nt S) (applyPolicyRule E D cn c rn pn pi nets i r) (\<lambda>_. True)"
  unfolding applyPolicyRule_def
  by (intro steps own_marks own_applyPolicyPortsRules own_applyPolicyPeersRules)

lemma own_applyPodRules: "ensures (safe ok I ft nt S) (applyPodRules E D c pi p nets) (\<lambda>_. True)"
  unfolding applyPodRules_def
  by (intro steps own_applyPolicyRule own_marks ensures_ret ensures_for_acc [where R = "\<lambda>_. True"];
      simp add: own_filter plainChain_def)

lemma own_applyDirection:
  assumes "\<And>c. ensures (safe ok I ft nt S) (gets entry) (\<lambda>c. cTable c = ft)"
  shows "ensures (safe ok I ft nt S) (applyDirection E D entry pi ps) (\<lambda>_. True)"
  unfolding applyDirection_def
  apply (intro ensures_if ensures_ret ensures_seq [OF assms])
   apply (intro steps own_applyPodRules own_marks ensures_ret ensures_for_acc [where R = "\<lambda>_. True"]; simp)
  apply simp
  done

lemma own_cleanupRule:
  assumes "owns ok (rTable r)"
  shows "ensures (safe ok I ft nt S) (cleanupRule E r acc) (\<lambda>_. True)"
proof -
  have del: "ensures (safe ok I ft nt S) (attempt (inConn (DelRule r))) (\<lambda>_. True)"
    by (rule ensures_weaken [OF ensures_attempt [OF safe_inConn_keeps]])
      (auto intro!: guarded_intros ownsD [OF assms])
  show ?thesis
    unfolding cleanupRule_def
    by (intro steps ensures_case_sum ensures_ret ensures_gets del) simp_all
qed

lemma own_for_acc: "(\<And>x b. x \<in> set xs \<Longrightarrow> ensures P (f x b) (\<lambda>_. True)) \<Longrightarrow> ensures P (for_acc xs b f) (\<lambda>_. True)"
  by (rule ensures_for_acc) simp_all

lemma own_reads:
  "ensures (safe ok I ft nt S) (inConn (ListChainsOfTableFamily (kern E) fam)) (\<lambda>_. True)"
  "ensures (safe ok I ft nt S) (inConn (Flush (kern E))) (\<lambda>_. True)"
  by (intro safe_inConn_keeps guarded_intros guarded_Flush)+

lemma own_cleanupRules:
  assumes "owns ok t"
  shows "ensures (safe ok I ft nt S) (cleanupRules E t) (\<lambda>_. True)"
proof -
  have rules: "ensures (safe ok I ft nt S) (inConn (GetRules (kern E) t ch)) (\<lambda>rs. \<forall>r \<in> set rs. rTable r = t \<and> rChain r = ch)" for ch
    by (rule safe_inConn, rule ensures_GetRules, rule netlink_reads_axioms)
  have sets: "ensures (safe ok I ft nt S) (inConn (GetSets (kern E) t)) (\<lambda>ss. \<forall>s \<in> set ss. sTable s = t)"
    by (rule safe_inConn, rule ensures_GetSets, rule netlink_reads_axioms)
  have delset: "ensures (safe ok I ft nt S) (inConn (DelSet s)) (\<lambda>_. True)" if "sTable s = t" for s
    using that by (auto intro!: safe_inConn_keeps guarded_intros ownsD [OF assms])
  show ?thesis
    unfolding cleanupRules_def
    apply (rule ensures_seq_any, intro ensures_wrapped own_reads)
    apply (rule ensures_seq_any, rule own_for_acc, rule ensures_if)
      apply (rule ensures_seq [OF ensures_wrapped [OF rules]], rule own_for_acc, rule own_cleanupRule)
      apply (use assms in simp)
     apply (rule ensures_ret, simp)
    apply (rule ensures_case_prod)
    apply (rule ensures_seq [OF ensures_wrapped [OF sets]])
    apply (rule ensures_seq_any, rule own_for_acc)
     apply (intro steps ensures_gets delset ensures_ret; simp)
    apply (intro steps own_reads ensures_ret; simp)
    done
qed

lemma own_cleanupChains:
  assumes fam: "tFamily ft = TableFamilyINet" "tFamily nt = TableFamilyINet"
  shows "ensures (safe ok I ft nt S) (cleanupChains E) (\<lambda>_. True)"
proof -
  have chains: "ensures (safe ok I ft nt S) (inConn (ListChainsOfTableFamily (kern E) TableFamilyINet))
      (\<lambda>cs. \<forall>c \<in> set cs. tFamily (cTable c) = TableFamilyINet)"
    by (rule safe_inConn, unfold ListChainsOfTableFamily_def, rule ensures_reads) (use chains_listed in auto)
  have state: "ensures (safe ok I ft nt S) (gets id) (\<lambda>n. nfilter n = ft \<and> nnat n = nt)"
    by (rule ensures_gets) (simp add: safe_def)
  have rules: "ensures (safe ok I ft nt S) (inConn (GetRules (kern E) t ch)) (\<lambda>_. True)" for t ch
    by (intro safe_inConn_keeps guarded_intros)
  have own: "owns ok (cTable c)" if "tFamily (cTable c) = TableFamilyINet"
    "tName (cTable c) = tName ft \<or> tName (cTable c) = tName nt" for c
  proof -
    from that fam have "cTable c = ft \<or> cTable c = nt" by (auto intro: nft_table.equality)
    then show ?thesis using own_filter own_nat by auto
  qed
  have del: "ensures (safe ok I ft nt S) (inConn (DelChain c)) (\<lambda>_. True)"
    if "tFamily (cTable c) = TableFamilyINet" "tName (cTable c) = tName ft \<or> tName (cTable c) = tName nt" for c
    by (intro safe_inConn_keeps guarded_intros ownsD [OF own [OF that]]) simp_all
  show ?thesis
    unfolding cleanupChains_def cleanupChain_def
    apply (rule ensures_seq [OF ensures_wrapped [OF chains]])
    apply (rule ensures_seq [OF state])
    apply (rule ensures_seq_any, rule own_for_acc)
     apply (intro steps rules ensures_gets del ensures_ret; simp)
    apply (intro steps own_reads ensures_ret; simp)
    done
qed

lemma own_cleanup:
  assumes fam: "tFamily ft = TableFamilyINet" "tFamily nt = TableFamilyINet"
  shows "ensures (safe ok I ft nt S) (cleanup E) (\<lambda>_. True)"
proof -
  have state: "ensures (safe ok I ft nt S) (gets id) (\<lambda>n. nfilter n = ft \<and> nnat n = nt)"
    by (rule ensures_gets) (simp add: safe_def)
  show ?thesis
    unfolding cleanup_def
    apply (rule ensures_deferred)
     apply (rule ensures_seq [OF state])
     apply (intro steps own_cleanupRules own_cleanupChains [OF fam]; simp add: own_filter own_nat)
    apply (simp add: safe_def forget_def)
    done
qed

lemma own_applyPolicies:
  assumes fam: "tFamily ft = TableFamilyINet" "tFamily nt = TableFamilyINet"
    and "\<And>ic ec. (ic, ec) \<in> S \<Longrightarrow> cTable ic = ft \<and> cTable ec = ft"
  shows "ensures (safe ok I ft nt S) (applyPolicies E D cfg ps pod pi) (\<lambda>_. True)"
proof -
  have "ensures (safe ok I ft nt S) (gets ingress_ch) (\<lambda>c. cTable c = ft)"
    "ensures (safe ok I ft nt S) (gets egress_ch) (\<lambda>c. cTable c = ft)"
    using assms(3) by (auto intro!: ensures_gets simp: safe_def)
  then show ?thesis
    unfolding applyPolicies_def
    by (intro steps own_applyCommonChainRules own_applyDirection own_reads own_cleanup [OF fam])
qed

lemma own_addTable:
  assumes "ok (MsgNewTable t)"
  shows "ensures (guarded ok I) (addTable (kern E) t) (\<lambda>t'. t' = t)"
proof -
  have r: "ensures (guarded ok I) (attempt (ListTableOfFamily (kern E) (tName t) (tFamily t)))
      (\<lambda>r. \<forall>x. r = Inr x \<longrightarrow> x = t)"
    by (rule ensures_attempt, unfold ListTableOfFamily_def, rule ensures_reads)
      (use table_found in \<open>auto intro: nft_table.equality\<close>)
  have a: "ensures (guarded ok I) (AddTable t) (\<lambda>t'. t' = t)"
    unfolding AddTable_def by (intro ensures_seq_any keeps_ensures guarded_intros assms ensures_ret) simp
  show ?thesis
    unfolding addTable_def
    by (rule ensures_seq [OF r], rule ensures_case_sum; intro ensures_if ensures_fail ensures_ret a; simp)
qed

end

lemma bootstrapNetfilterChains_result:
  assumes "netlink_reads (kern E)"
  shows "\<exists>n'. bootstrapNetfilterChains E n = (Inr (), n') \<and>
     cTable (ingress_ch n') = nfilter n \<and> cTable (egress_ch n') = nfilter n"
  by (simp add: bootstrapNetfilterChains_def comp_simps addChain_run chainOf_requested [OF assms] plainChain_def)

text \<open>Bootstrapping: the tables on the connection, then the chains, sets and entry rules.\<close>

context owned_render
begin

lemma own_bootstrapTables:
  assumes "ft = filterTable" "nt = natTable" "\<And>m. legacy_msg m \<Longrightarrow> ok m"
  shows "ensures (guarded ok I) (bootstrapTables E pi) (\<lambda>(info, f, t). f = ft \<and> t = nt)"
proof -
  have t: "ok (MsgNewTable ft)" "ok (MsgNewTable nt)"
    using ownsD [OF own_filter, of "MsgNewTable ft"] ownsD [OF own_nat, of "MsgNewTable nt"] by simp_all
  show ?thesis
    unfolding bootstrapTables_def
    apply (intro ensures_case_option ensures_fail ensures_if)
    apply (rule ensures_seq_any, rule keeps_ensures, rule guarded_CleanupLegacyTables)
      apply (rule netlink_reads_axioms, rule assms(3), assumption)
    apply (rule ensures_seq [OF ensures_wrapped [OF own_addTable]])
     apply (use t assms in simp)
    apply (rule ensures_seq [OF ensures_wrapped [OF own_addTable]])
     apply (use t assms in simp)
    apply (rule ensures_ret, use assms in simp)
    done
qed

lemma own_bootstrapNetfilterChains:
  "S = UNIV \<Longrightarrow> ensures (safe ok I ft nt S) (bootstrapNetfilterChains E) (\<lambda>_. True)"
  unfolding bootstrapNetfilterChains_def
  by (intro steps; simp add: own_filter own_nat baseChain_def plainChain_def safe_modify_any)

lemma own_installEntryRules: "ensures (safe ok I ft nt S) (installEntryRules E info) (\<lambda>_. True)"
proof -
  have state: "ensures (safe ok I ft nt S) (gets id) (\<lambda>n. nfilter n = ft \<and> nnat n = nt)"
    by (rule ensures_gets) (simp add: safe_def)
  have m: "ensures (safe ok I ft nt S) (modify (\<lambda>n. n\<lparr>interfaceFilterSet := s\<rparr>)) (\<lambda>_. True)"
    "ensures (safe ok I ft nt S) (modify (\<lambda>n. n\<lparr>interfaceNatSet := s\<rparr>)) (\<lambda>_. True)" for s
    by (rule safe_modify; simp)+
  show ?thesis
    unfolding installEntryRules_def
    apply (intro ensures_let)
    apply (rule ensures_seq [OF state])
    apply (intro steps m ensures_ret; simp add: own_filter own_nat interfaceSet_def)
    done
qed

lemma own_withState:
  assumes tables: "ft = filterTable" "nt = natTable" and c: "guarded ok I c"
  shows "guarded ok I (snd (withState ft nt
     (seq (wrapped t (bootstrapRules E info0)) (\<lambda>info. applyPolicies E D cfg ps pod info)) c))"
proof -
  let ?n0 = "new_nftState c ft nt"
  obtain n1 where n1: "bootstrapNetfilterChains E ?n0 = (Inr (), n1)"
    "cTable (ingress_ch n1) = ft" "cTable (egress_ch n1) = ft"
    using bootstrapNetfilterChains_result [OF netlink_reads_axioms, of ?n0] by (auto simp: new_nftState_def)
  have "safe ok I ft nt UNIV ?n0" using c by (simp add: safe_def new_nftState_def)
  then have "safe ok I ft nt UNIV n1"
    using own_bootstrapNetfilterChains [of UNIV] n1(1) by (auto simp: ensures_def dest!: spec [of _ ?n0])
  then have safe1: "safe ok I ft nt {(ingress_ch n1, egress_ch n1)} n1" by (simp add: safe_def)
  have "ensures (safe ok I ft nt {(ingress_ch n1, egress_ch n1)})
      (seq (wrapped t (installEntryRules E info0)) (\<lambda>info. applyPolicies E D cfg ps pod info)) (\<lambda>_. True)"
    using n1 tables
    by (intro steps own_installEntryRules own_applyPolicies) (auto simp: filterTable_def natTable_def)
  with safe1 have "guarded ok I (nft (snd
      (seq (wrapped t (installEntryRules E info0)) (\<lambda>info. applyPolicies E D cfg ps pod info) n1)))"
    by (auto simp: ensures_def safe_def)
  moreover have "seq (wrapped t (bootstrapRules E info0)) (\<lambda>info. applyPolicies E D cfg ps pod info) ?n0 =
      seq (wrapped t (installEntryRules E info0)) (\<lambda>info. applyPolicies E D cfg ps pod info) n1"
    using n1(1) by (simp add: bootstrapRules_def comp_simps)
  ultimately show ?thesis by (simp add: withState_def case_prod_unfold)
qed

lemma own_ApplyPolicyRules:
  assumes tables: "ft = filterTable" "nt = natTable" "\<And>m. legacy_msg m \<Longrightarrow> ok m"
  shows "keeps (guarded ok I) (ApplyPolicyRulesForPodAndFamily E D cfg ps pod pi)"
  unfolding ApplyPolicyRulesForPodAndFamily_def
proof (rule ensures_keeps_seq [OF ensures_wrapped [OF own_bootstrapTables [OF assms]]])
  show "keeps (guarded ok I) (case x of (info0, ft', nt') \<Rightarrow> withState ft' nt'
      (seq (wrapped ''bootstrap netfilter rules failed for pod'' (bootstrapRules E info0))
        (\<lambda>info. applyPolicies E D cfg ps pod info)))" if "case x of (info, f, t) \<Rightarrow> f = ft \<and> t = nt" for x
    using that by (auto split: prod.splits intro!: keepsI own_withState [OF tables(1,2)])
qed

end

subsection \<open>The messages of the daemon\<close>

definition daemon_msg :: "nft_msg \<Rightarrow> bool" where
  "daemon_msg m \<longleftrightarrow>
     (msg_table m = filterTable \<or> msg_table m = natTable) \<and> \<not> is_DelTable m \<or> legacy_msg m"

lemma owns_daemon_msg: "owns daemon_msg filterTable" "owns daemon_msg natTable"
  by (auto simp: owns_def daemon_msg_def)

text \<open>The part of the in-memory kernel that is outside the daemon's and the legacy tables.\<close>

definition outside_table :: "nft_table \<Rightarrow> bool" where
  "outside_table t \<longleftrightarrow> tName t \<notin> {FilterTableName, NatTableName, legacyFilterTableName, legacyNatTableName}"

definition outside ::
  "mem \<Rightarrow> nft_table list \<times> nft_chain list \<times> nft_rule list \<times> nft_set list \<times> (nft_table \<times> string \<times> set_element) list" where
  "outside m = (filter outside_table (m_tables m), filter (\<lambda>c. outside_table (cTable c)) (m_chains m),
     filter (\<lambda>r. outside_table (rTable r)) (m_rules m), filter (\<lambda>s. outside_table (sTable s)) (m_sets m),
     filter (\<lambda>x. outside_table (fst x)) (m_elems m))"

lemma daemon_msg_inside: "daemon_msg x \<Longrightarrow> \<not> outside_table (msg_table x)"
  by (cases x) (auto simp: daemon_msg_def outside_table_def filterTable_def natTable_def legacyNames_def)

lemma filter_map_other:
  "(\<And>q. c q \<Longrightarrow> \<not> P q) \<Longrightarrow> \<not> P r \<Longrightarrow> filter P (map (\<lambda>q. if c q then r else q) xs) = filter P xs"
  by (induction xs) auto

lemma mem_apply_outside: "\<not> outside_table (msg_table x) \<Longrightarrow> mem_apply x m = Some m' \<Longrightarrow> outside m' = outside m"
proof (induction x m rule: mem_apply.induct)
  case (5 op r m)
  then show ?case
    by (cases op) (auto simp: outside_def same_rule_def listed_rule_def Let_def intro!: filter_map_other)
qed (auto simp: outside_def same_rule_def same_elem_def simp del: filter_filter
    split: if_splits intro!: filter_filter_weaker)

lemma mem_batch_outside: "list_all daemon_msg ms \<Longrightarrow> mem_batch ms m = Some m' \<Longrightarrow> outside m' = outside m"
  by (induction ms arbitrary: m)
    (auto dest: mem_apply_outside [OF daemon_msg_inside] split: option.splits)

interpretation mem_owned: owned_render memE daemon_msg "\<lambda>m. outside m = v" filterTable natTable for v
proof (unfold_locales, goal_cases)
  case 1
  then show ?case by (auto simp: memE_def memK_def mem_batch_outside split: option.splits)
qed (use owns_daemon_msg memK.netlink_reads_axioms [unfolded netlink_reads_def] in \<open>auto simp: memE_def\<close>)

lemma ApplyPolicyRules_guarded:
  assumes "netlink_reads (kern E)"
    and "\<And>k ms. I k \<Longrightarrow> list_all daemon_msg ms \<Longrightarrow> I (snd (k_commit (kern E) k ms))"
  shows "keeps (guarded daemon_msg I) (ApplyPolicyRulesForPodAndFamily E D cfg policyMap pod podInfo)"
proof -
  have "owned_render E daemon_msg I filterTable natTable"
    using assms owns_daemon_msg
    by (simp add: owned_render_def owned_render_axioms_def guarded_batches_def)
  from owned_render.own_ApplyPolicyRules [OF this refl refl] show ?thesis
    by (simp add: daemon_msg_def)
qed

subsection \<open>Property: rule generation stays in the daemon's tables\<close>

text \<open>
  C4. Generating the rules of a pod touches nothing but the daemon's two tables and the
  leftovers of older versions. For every kernel whose reads return what was asked for, every
  policy set, pod, configuration and cluster lookup, and on success as well as on every error
  path: each message sent in any of the flushed batches, and each message still buffered at
  the end, is about the table multi-networkpolicy-filter or multi-networkpolicy-nat and does
  not delete it, or deletes a daemon-owned legacy object. Hence every property of the kernel
  state that such messages keep, such as the contents of all other tables, is kept.
\<close>

theorem ApplyPolicyRules_owned:
  assumes "netlink_reads (kern E)"
    and "\<And>k ms. I k \<Longrightarrow> list_all daemon_msg ms \<Longrightarrow> I (snd (k_commit (kern E) k ms))"
    and "I k"
  shows "I (kst (snd (ApplyPolicyRulesForPodAndFamily E D cfg policyMap pod podInfo (new_conn k)))) \<and>
     list_all daemon_msg
       (messages (snd (ApplyPolicyRulesForPodAndFamily E D cfg policyMap pod podInfo (new_conn k))))"
  using keepsD [OF ApplyPolicyRules_guarded [where I = I, OF assms(1,2)] guarded_new_conn [of I, OF assms(3)]]
  by (simp add: guarded_def)

definition demo_pod :: pod where
  "demo_pod = \<lparr>podName = ''p'', podNamespace = ''d'', podLabels = [], podAnnotations = [], podPhase = ''Running'',
     podHostNetwork = False, podNodeName = ''n'', podContainers = []\<rparr>"

definition demo_info :: podInfo where
  "demo_info = \<lparr>piName = ''p'', piNamespace = ''d'', piNetNSPath = [], piNetworkStatus = [], piNodeName = ''n'',
     piInterfaces = [\<lparr>NetattachName = ''d/a'', InterfaceName = ''e1'', InterfaceType = ''mv'', IPs = [''10.0.0.1'']\<rparr>]\<rparr>"

definition demo_deps :: policyDeps where
  "demo_deps = \<lparr>ListPods = (\<lambda>_. Inr []), GetNamespaceInfo = (\<lambda>_. Inr []), GetPodInfo = (\<lambda>_. Inr None),
     labelSyntax = \<lparr>isLabelKey = (\<lambda>_. True), isLabelValue = (\<lambda>_. True)\<rparr>,
     selectorString = (\<lambda>_. []), iterOrder = id\<rparr>"

definition demo_cfg :: CommonRuleConfig where
  "demo_cfg = \<lparr>AcceptICMPv6 = True, AcceptICMP = False, AllowSrcPrefix = [], AllowDstPrefix = []\<rparr>"

theorem ApplyPolicyRules_owned_witness:
  "let m = mem_empty\<lparr>m_tables := [\<lparr>tName = ''kube'', tFamily = 1\<rparr>]\<rparr> in
   outside (kst (snd (ApplyPolicyRulesForPodAndFamily memE demo_deps demo_cfg [] demo_pod (Some demo_info) (new_conn m)))) =
     outside m"
  unfolding Let_def
  by (rule ApplyPolicyRules_owned [where E = memE and I = "\<lambda>x. outside x = _", THEN conjunct1])
    (use memK.netlink_reads_axioms mem_owned.commit in \<open>auto simp: memE_def\<close>)

end
