(* ===== verification/Reconciler.thy ===== *)
theory Reconciler
  imports Watch Ownership "HOL-Library.AList"
begin

text \<open>
  The node reconciler (pkg/controller/reconciler.go, applier_linux.go, cleanup_linux.go and
  the runtime connection of pkg/controllers/pod.go): the pods of the node are listed, their
  interfaces and network namespaces resolved, and the rules of every pod are generated in its
  own namespace; at shutdown the daemon's tables are removed from the same namespaces.

  The state is the kernel state of every network namespace and the cached connection to the
  container runtime. What the API server, the runtime and the operating system answer are
  parameters.
\<close>

subsection \<open>State and parameters\<close>

type_synonym nsid = nat

record 'k node =
  netns :: "nsid \<Rightarrow> 'k"
  criClient :: "criService option"

datatype connState = Idle | Connecting | Ready | TransientFailure | Shutdown

record 'k cluster =
  listPolicies :: "policy list result"
  podsByIndex :: "string \<Rightarrow> pod list result"
  podsBySelector :: "selector \<Rightarrow> pod list result"
  getNamespace :: "string \<Rightarrow> labels result"
  getNetDef :: "namespacedName \<Rightarrow> string result"
    \<comment> \<open>the specification of a network attachment definition\<close>
  GetCNIConfig :: "string \<Rightarrow> string result"
  decodeConfList :: "string \<Rightarrow> string option list result"
    \<comment> \<open>the types of the plugins of a configuration list; a null plugin is \<open>None\<close>\<close>
  decodeConf :: "string \<Rightarrow> string result"
  source :: podSource
  addressAndDialer :: "string \<Rightarrow> string result"
  newClient :: "string \<Rightarrow> criService result"
  connStates :: "string \<Rightarrow> (connState \<times> bool) list"
    \<comment> \<open>the states observed until the 30 seconds are over, each with whether it changed in time\<close>
  GetNS :: "string \<Rightarrow> nsid result"
  nsFd :: "nsid \<Rightarrow> u64"
  openLasting :: "nsid \<Rightarrow> unit result"
  enterNS :: "nsid \<Rightarrow> unit result"
  mapOrder :: "policy list \<Rightarrow> policy list"
    \<comment> \<open>the order in which Go iterates over the policy map\<close>
  labelChecks :: label_syntax
  selectorText0 :: "labelSelector \<Rightarrow> string"
  keyOrder :: "string list \<Rightarrow> string list"
  envOf :: "'k env"

record 'k nodeReconciler =
  NodeName :: string
  HostPrefix :: string
  NetworkPlugins :: "string list"
  CommonCfg :: CommonRuleConfig
  ContainerRuntimeEndpoint :: string
  PolicyDeps :: "policyDeps option"
  ApplyRulesForPodFunc ::
    "(policyDeps \<Rightarrow> CommonRuleConfig \<Rightarrow> policy list \<Rightarrow> pod \<Rightarrow> podInfo \<Rightarrow> string \<Rightarrow> ('k node, unit) comp) option"

subsection \<open>The container runtime connection\<close>

text \<open>The loop that waits for the connection: until it is ready or the time is over.\<close>

fun waitReady :: "(connState \<times> bool) list \<Rightarrow> unit result" where
  "waitReady [] = Inl (ErrText ''timed out waiting for gRPC connection to become ready'')"
| "waitReady ((state, changed) # obs) =
     (if state = Ready then Inr ()
      else if \<not> changed then Inl (ErrText ''timed out waiting for gRPC connection to become ready'')
      else waitReady obs)"

definition GetCriRuntimeClientWithContext :: "'k cluster \<Rightarrow> string \<Rightarrow> string \<Rightarrow> criService result" where
  "GetCriRuntimeClientWithContext C runtimeEndpoint hostPrefix =
     (case addressAndDialer C (''unix://'' @ hostPrefix @ runtimeEndpoint) of
        Inl e \<Rightarrow> Inl e
      | Inr addr \<Rightarrow>
          (case newClient C (''passthrough:///'' @ addr) of
             Inl e \<Rightarrow> Inl (wrap_error ''failed to create gRPC client'' e)
           | Inr cl \<Rightarrow>
               (case waitReady (connStates C (''passthrough:///'' @ addr)) of
                  Inl e \<Rightarrow> Inl e
                | Inr _ \<Rightarrow> Inr cl)))"

definition criRuntimeClient :: "'k cluster \<Rightarrow> 'k nodeReconciler \<Rightarrow> ('k node, criService) comp" where
  "criRuntimeClient C R =
     seq (gets criClient) (\<lambda>c.
     case c of
       Some cl \<Rightarrow> ret cl
     | None \<Rightarrow>
         if ContainerRuntimeEndpoint R = [] then fail (ErrText ''CRI runtime endpoint is empty'')
         else
           seq (wrapped ''connect to CRI runtime''
                 (lift_result (GetCriRuntimeClientWithContext C (ContainerRuntimeEndpoint R) (HostPrefix R)))) (\<lambda>cl.
           seq (modify (\<lambda>s. s\<lparr>criClient := Some cl\<rparr>)) (\<lambda>_.
           ret cl)))"

text \<open>The result of closing the connection is a parameter; the cached client is dropped anyway.\<close>

definition CloseCRI :: "unit result \<Rightarrow> ('k node, unit) comp" where
  "CloseCRI closed =
     seq (gets criClient) (\<lambda>c.
     seq (modify (\<lambda>s. s\<lparr>criClient := None\<rparr>)) (\<lambda>_.
     lift_result (if c \<noteq> None then closed else Inr ())))"

subsection \<open>Pod information\<close>

definition resolvePluginType :: "'k cluster \<Rightarrow> namespacedName \<Rightarrow> string result" where
  "resolvePluginType C name =
     (case getNetDef C name of
        Inl e \<Rightarrow> Inl (wrap_error ''get network attachment definition'' e)
      | Inr nad \<Rightarrow>
          (case GetCNIConfig C nad of
             Inl e \<Rightarrow> Inl (wrap_error ''get CNI config'' e)
           | Inr confBytes \<Rightarrow>
               (case decodeConfList C confBytes of
                  Inr (Some t # _) \<Rightarrow> Inr t
                | Inr (None # _) \<Rightarrow> Inl (Panic ''nil pointer dereference'')
                | listRes \<Rightarrow>
                    (case decodeConf C confBytes of
                       Inr t \<Rightarrow>
                         if t \<noteq> [] then Inr t
                         else (case listRes of
                                 Inl listErr \<Rightarrow>
                                   Inl (Wrap ''parse CNI config for network attachment'' (Joined [listErr]))
                               | Inr _ \<Rightarrow> Inl (ErrText ''parse CNI config for network attachment: plugin type is empty''))
                     | Inl confErr \<Rightarrow>
                         Inl (Wrap ''parse CNI config for network attachment''
                           (Joined ((case listRes of Inl listErr \<Rightarrow> [listErr] | Inr _ \<Rightarrow> []) @ [confErr])))))))"

definition GetPodInfo_node :: "'k cluster \<Rightarrow> 'k nodeReconciler \<Rightarrow> pod \<Rightarrow> ('k node, podInfo option) comp" where
  "GetPodInfo_node C R p =
     seq (wrapped ''build pod info''
           (lift_result (NewPodInfoFromPod (source C) p None (NodeName R) (NetworkPlugins R) (resolvePluginType C)))) (\<lambda>info.
     if length (piInterfaces info) = 0 \<or> \<not> CheckNodeNameIdentical (NodeName R) (podNodeName p) then ret (Some info)
     else
       seq (criRuntimeClient C R) (\<lambda>cri.
       seq (wrapped ''resolve pod network namespace'' (lift_result (GetPodNetNSPathWithContext (Some cri) p))) (\<lambda>netnsPath.
       if netnsPath = [] then fail (ErrText ''resolve pod network namespace: empty netns path'')
       else ret (Some (info\<lparr>piNetNSPath := netnsPath\<rparr>)))))"

text \<open>
  The reconciler is its own source of cluster lookups unless another one is configured. While
  rules are rendered the cached runtime connection is there, so the lookups do not change it.
\<close>

definition policyDepsOf :: "'k cluster \<Rightarrow> 'k nodeReconciler \<Rightarrow> 'k node \<Rightarrow> policyDeps" where
  "policyDepsOf C R s =
     (case PolicyDeps R of
        Some d \<Rightarrow> d
      | None \<Rightarrow>
          \<lparr>ListPods = podsBySelector C, GetNamespaceInfo = getNamespace C,
           GetPodInfo = (\<lambda>p. fst (GetPodInfo_node C R p s)),
           labelSyntax = labelChecks C, selectorString = selectorText0 C, iterOrder = keyOrder C\<rparr>)"

definition deps_GetPodInfo :: "'k cluster \<Rightarrow> 'k nodeReconciler \<Rightarrow> pod \<Rightarrow> ('k node, podInfo option) comp" where
  "deps_GetPodInfo C R p =
     (case PolicyDeps R of
        Some d \<Rightarrow> lift_result (GetPodInfo d p)
      | None \<Rightarrow> GetPodInfo_node C R p)"

subsection \<open>Rules for one pod\<close>

definition prefixedPath :: "string \<Rightarrow> string \<Rightarrow> string" where
  "prefixedPath hostPrefix path = (if hostPrefix \<noteq> [] then hostPrefix @ ''/'' @ path else path)"

text \<open>Run a computation on a new connection in a network namespace.\<close>

definition inNS :: "nsid \<Rightarrow> ('k conn, 'a) comp \<Rightarrow> ('k node, 'a) comp" where
  "inNS i m = (\<lambda>s. case m (new_conn (netns s i)) of
                    (r, c) \<Rightarrow> (r, s\<lparr>netns := (netns s)(i := kst c)\<rparr>))"

definition applyRulesForPod ::
  "'k cluster \<Rightarrow> policyDeps \<Rightarrow> CommonRuleConfig \<Rightarrow> policy list \<Rightarrow> pod \<Rightarrow> podInfo \<Rightarrow> string \<Rightarrow> ('k node, unit) comp" where
  "applyRulesForPod C D cfg policyMap p info hostPrefix =
     seq (wrapped ''cannot get pod netns'' (lift_result (GetNS C (prefixedPath hostPrefix (piNetNSPath info))))) (\<lambda>i.
     if 0x7FFFFFFFFFFFFFFF < nsFd C i then fail (ErrText ''netns fd overflows int'')
     else
       seq (wrapped ''failed to open nftables for pod'' (lift_result (openLasting C i))) (\<lambda>_.
       inNS i (ApplyPolicyRulesForPodAndFamily (envOf C) D cfg policyMap p (Some info))))"

definition applyRules ::
  "'k cluster \<Rightarrow> 'k nodeReconciler \<Rightarrow> policy list \<Rightarrow> pod \<Rightarrow> podInfo \<Rightarrow> ('k node, unit) comp" where
  "applyRules C R policyMap p info =
     seq (gets (policyDepsOf C R)) (\<lambda>D.
     case ApplyRulesForPodFunc R of
       Some f \<Rightarrow> f D (CommonCfg R) policyMap p info (HostPrefix R)
     | None \<Rightarrow> applyRulesForPod C D (CommonCfg R) policyMap p info (HostPrefix R))"

subsection \<open>Reconcile\<close>

definition buildPolicyMap :: "policy list \<Rightarrow> (namespacedName \<times> policy) list" where
  "buildPolicyMap policies = fold (\<lambda>p. AList.update (polNamespace p, polName p) p) policies []"

text \<open>One pod of the loop; the accumulator is the retry flag and the errors.\<close>

definition reconcilePod ::
  "'k cluster \<Rightarrow> 'k nodeReconciler \<Rightarrow> policy list \<Rightarrow> pod \<Rightarrow> bool \<times> go_error list \<Rightarrow>
   ('k node, bool \<times> go_error list) comp" where
  "reconcilePod C R policyMap p acc =
     (if \<not> IsMultiNetworkpolicyTarget p then ret acc
      else
        seq (attempt (deps_GetPodInfo C R p)) (\<lambda>r.
        case r of
          Inl e \<Rightarrow> ret (True, snd acc @ [Wrap ''get pod info'' e])
        | Inr None \<Rightarrow> ret acc
        | Inr (Some info) \<Rightarrow>
            if length (piInterfaces info) = 0 then ret acc
            else
              seq (attempt (applyRules C R policyMap p info)) (\<lambda>r.
              case r of
                Inl e \<Rightarrow> ret (True, snd acc @ [Wrap ''apply rules'' e])
              | Inr _ \<Rightarrow> ret acc)))"

text \<open>The result is the time after which to run again, if any.\<close>

definition Reconcile :: "'k cluster \<Rightarrow> 'k nodeReconciler \<Rightarrow> namespacedName \<Rightarrow> ('k node, nat option) comp" where
  "Reconcile C R req =
     (if snd req \<noteq> NodeName R then ret None
      else
        seq (wrapped ''list policies'' (lift_result (listPolicies C))) (\<lambda>items.
        let policyMap = mapOrder C (map snd (buildPolicyMap items)) in
        seq (wrapped ''list pods for node'' (lift_result (podsByIndex C (NodeName R)))) (\<lambda>pods.
        seq (for_acc pods (False, []) (reconcilePod C R policyMap)) (\<lambda>(retryNeeded, retryErrs).
        if 0 < length retryErrs then fail (Joined retryErrs)
        else if retryNeeded then ret (Some 2)
        else ret None))))"

subsection \<open>Removal at shutdown\<close>

definition joined :: "go_error list \<Rightarrow> ('s, unit) comp" where
  "joined es = (if es = [] then ret () else fail (Joined es))"

definition managedTables :: "nft_table list" where
  "managedTables = [filterTable, natTable]"

text \<open>The loop over the managed tables: one that exists is deleted and counted.\<close>

definition deleteTable :: "'k kernel \<Rightarrow> nft_table \<Rightarrow> nat \<Rightarrow> ('k conn, nat) comp" where
  "deleteTable K table deleted =
     seq (attempt (ListTableOfFamily K (tName table) (tFamily table))) (\<lambda>r.
     case r of
       Inl e \<Rightarrow> if errors_Is e ErrNotExist then ret deleted else fail (Wrap ''failed to list table'' e)
     | Inr existing \<Rightarrow> seq (DelTable existing) (\<lambda>_. ret (deleted + 1)))"

text \<open>The function that flushRulesForPod runs inside the namespace.\<close>

definition flushTables :: "'k kernel \<Rightarrow> ('k conn, unit) comp" where
  "flushTables K =
     seq (attempt (CleanupLegacyTables K)) (\<lambda>r.
     let cleanupErrs = (case r of Inl e \<Rightarrow> [Wrap ''failed to clean legacy daemon-owned tables'' e] | Inr _ \<Rightarrow> []) in
     seq (for_acc managedTables 0 (deleteTable K)) (\<lambda>deleted.
     if deleted = 0 then joined cleanupErrs
     else
       seq (attempt (Flush K)) (\<lambda>r.
       joined (cleanupErrs @
         (case r of Inl e \<Rightarrow> [Wrap ''failed to flush table deletions'' e] | Inr _ \<Rightarrow> [])))))"

text \<open>
  \<open>enterNS\<close> is the outcome of entering the namespace with \<^verbatim>\<open>Do\<close> and of opening the netlink
  connection there.
\<close>

definition flushRulesForPod :: "'k cluster \<Rightarrow> string \<Rightarrow> string \<Rightarrow> ('k node, unit) comp" where
  "flushRulesForPod C netnsPath hostPrefix =
     seq (wrapped ''cannot get pod netns'' (lift_result (GetNS C (prefixedPath hostPrefix netnsPath)))) (\<lambda>i.
     seq (lift_result (enterNS C i)) (\<lambda>_.
     inNS i (flushTables (kern (envOf C)))))"

text \<open>The part of the loop of cleanupAllPods that follows once there is a runtime client.\<close>

definition cleanupNetNS ::
  "'k cluster \<Rightarrow> 'k nodeReconciler \<Rightarrow> pod \<Rightarrow> go_error list \<Rightarrow> criService \<Rightarrow>
   ('k node, criService option \<times> go_error list) comp" where
  "cleanupNetNS C R p errs c =
     seq (attempt (lift_result (GetPodNetNSPathWithContext (Some c) p))) (\<lambda>r.
     case r of
       Inl e \<Rightarrow> ret (Some c, errs @ [Wrap ''resolve netns'' e])
     | Inr netnsPath \<Rightarrow>
         if netnsPath = [] then ret (Some c, errs @ [Wrap ''resolve netns'' (ErrText ''empty netns path'')])
         else
           seq (attempt (flushRulesForPod C netnsPath (HostPrefix R))) (\<lambda>r.
           case r of
             Inl e \<Rightarrow> ret (Some c, errs @ [Wrap ''flush rules'' e])
           | Inr _ \<Rightarrow> ret (Some c, errs)))"

text \<open>
  One pod of the loop of cleanupAllPods; the accumulator is the local client variable and the
  errors. \<open>ctxErr\<close> tells for each pod whether the context is over by then.
\<close>

definition cleanupPod ::
  "'k cluster \<Rightarrow> 'k nodeReconciler \<Rightarrow> (nat \<Rightarrow> go_error option) \<Rightarrow> nat \<times> pod \<Rightarrow> criService option \<times> go_error list \<Rightarrow>
   ('k node, criService option \<times> go_error list) comp" where
  "cleanupPod C R ctxErr ip acc =
     (case ip of (i, p) \<Rightarrow> case acc of (cl, errs) \<Rightarrow>
      case ctxErr i of
        Some e \<Rightarrow> fail (Wrap ''cleanup canceled'' e)
      | None \<Rightarrow>
          if \<not> IsMultiNetworkpolicyTarget p then ret (cl, errs)
          else
            seq (case cl of
                   Some c \<Rightarrow> ret c
                 | None \<Rightarrow> wrapped ''cleanup: connect to CRI'' (criRuntimeClient C R))
                (cleanupNetNS C R p errs))"

text \<open>The pods are listed with a client that does not read the cache.\<close>

definition cleanupAllPods ::
  "'k cluster \<Rightarrow> 'k nodeReconciler \<Rightarrow> (string \<Rightarrow> pod list result) \<Rightarrow> (nat \<Rightarrow> go_error option) \<Rightarrow> ('k node, unit) comp" where
  "cleanupAllPods C R directPods ctxErr =
     seq (lift_result (directPods (NodeName R))) (\<lambda>pods.
     seq (for_acc (enumerate 0 pods) (None, []) (cleanupPod C R ctxErr)) (\<lambda>(cl, cleanupErrs).
     if 0 < length cleanupErrs then fail (Joined cleanupErrs) else ret ()))"

definition CleanupOnShutdown ::
  "'k cluster \<Rightarrow> 'k nodeReconciler \<Rightarrow> (string \<Rightarrow> pod list result) \<Rightarrow> (nat \<Rightarrow> go_error option) \<Rightarrow> ('k node, unit) comp" where
  "CleanupOnShutdown C R directPods ctxErr = cleanupAllPods C R directPods ctxErr"

end
