(* ===== verification/NodeRuns.thy ===== *)
theory NodeRuns
  imports Reconciler
begin

text \<open>
  Properties of whole reconciliations of a node: what a reconciliation can change in the network
  namespaces, and that one pod does not disturb another. The loop over the pods is related to
  the step of a single pod, so the theorems speak about the state after the last pod. A small
  cluster with two pods serves as a concrete run.
\<close>

subsection \<open>What a reconciliation changes\<close>

text \<open>A property of every network namespace.\<close>

definition everywhere :: "(nsid \<Rightarrow> 'k \<Rightarrow> bool) \<Rightarrow> 'k node \<Rightarrow> bool" where
  "everywhere I s \<longleftrightarrow> (\<forall>i. I i (netns s i))"

lemma everywhere_criClient [simp]: "everywhere I (s\<lparr>criClient := c\<rparr>) = everywhere I s"
  by (simp add: everywhere_def)

lemma everywhere_criRuntimeClient: "keeps (everywhere I) (criRuntimeClient C R)"
  unfolding criRuntimeClient_def by (intro keeps_intros keeps_modify) simp

lemma everywhere_GetPodInfo_node: "keeps (everywhere I) (GetPodInfo_node C R p)"
  unfolding GetPodInfo_node_def by (intro keeps_intros everywhere_criRuntimeClient)

lemma everywhere_inNS:
  assumes "\<And>k. I i k \<Longrightarrow> I i (kst (snd (m (new_conn k))))"
  shows "keeps (everywhere I) (inNS i m)"
  using assms by (auto intro!: keepsI simp: inNS_def everywhere_def split: prod.splits) (metis snd_conv)

lemma everywhere_applyRulesForPod:
  assumes "netlink_reads (kern (envOf C))"
    and "\<And>i k ms. I i k \<Longrightarrow> list_all daemon_msg ms \<Longrightarrow> I i (snd (k_commit (kern (envOf C)) k ms))"
  shows "keeps (everywhere I) (applyRulesForPod C D cfg pm p info h)"
proof -
  have "I i (kst (snd (ApplyPolicyRulesForPodAndFamily (envOf C) D cfg pm p (Some info) (new_conn k))))" if "I i k" for i k
    using keepsD [OF ApplyPolicyRules_guarded [where I = "I i", OF assms] guarded_new_conn [of "I i", OF that]]
    by (simp add: guarded_def)
  then show ?thesis
    unfolding applyRulesForPod_def by (intro keeps_intros everywhere_inNS)
qed

lemma everywhere_reconcilePod:
  assumes "netlink_reads (kern (envOf C))"
    and "\<And>i k ms. I i k \<Longrightarrow> list_all daemon_msg ms \<Longrightarrow> I i (snd (k_commit (kern (envOf C)) k ms))"
    and "ApplyRulesForPodFunc R = None"
  shows "keeps (everywhere I) (reconcilePod C R pm p acc)"
  unfolding reconcilePod_def deps_GetPodInfo_def applyRules_def assms(3) option.case
  by (intro keeps_intros everywhere_GetPodInfo_node everywhere_applyRulesForPod assms)

lemma everywhere_Reconcile:
  assumes "netlink_reads (kern (envOf C))"
    and "\<And>i k ms. I i k \<Longrightarrow> list_all daemon_msg ms \<Longrightarrow> I i (snd (k_commit (kern (envOf C)) k ms))"
    and "ApplyRulesForPodFunc R = None"
  shows "keeps (everywhere I) (Reconcile C R req)"
  unfolding Reconcile_def by (intro keeps_intros everywhere_reconcilePod assms)

text \<open>
  C12. A reconciliation leaves everything but the daemon's own objects alone, in every network
  namespace of the node. Whatever the API server, the container runtime and the kernel answer,
  and on every error path: a property of a namespace that is kept by messages about the
  daemon's two tables and by the removal of daemon-owned legacy objects, such as the contents
  of all other tables, holds after Reconcile if it held before.
\<close>

theorem Reconcile_owned:
  assumes "netlink_reads (kern (envOf C))"
    and "\<And>i k ms. I i k \<Longrightarrow> list_all daemon_msg ms \<Longrightarrow> I i (snd (k_commit (kern (envOf C)) k ms))"
    and "ApplyRulesForPodFunc R = None" and "\<And>i. I i (netns s i)"
  shows "I i (netns (snd (Reconcile C R req s)) i)"
proof -
  have "keeps (everywhere I) (Reconcile C R req)" by (intro everywhere_Reconcile assms)
  then show ?thesis using assms(4) by (auto simp: keeps_def everywhere_def)
qed

subsection \<open>One pod does not disturb another\<close>

text \<open>The namespace in which the rules of a pod are generated, and the pod's information.\<close>

definition podTarget :: "'k cluster \<Rightarrow> 'k nodeReconciler \<Rightarrow> 'k node \<Rightarrow> pod \<Rightarrow> (nsid \<times> podInfo) option" where
  "podTarget C R s p =
     (if \<not> IsMultiNetworkpolicyTarget p then None
      else case fst (GetPodInfo_node C R p s) of
          Inr (Some info) \<Rightarrow>
            if piInterfaces info = [] then None
            else (case GetNS C (prefixedPath (HostPrefix R) (piNetNSPath info)) of
                    Inl e \<Rightarrow> None
                  | Inr i \<Rightarrow>
                      if 0x7FFFFFFFFFFFFFFF < nsFd C i then None
                      else (case openLasting C i of Inl e \<Rightarrow> None | Inr _ \<Rightarrow> Some (i, info)))
        | _ \<Rightarrow> None)"

definition generate :: "'k cluster \<Rightarrow> 'k nodeReconciler \<Rightarrow> 'k node \<Rightarrow> policy list \<Rightarrow> pod \<Rightarrow> podInfo \<Rightarrow> ('k conn, unit) comp" where
  "generate C R s pm p info =
     ApplyPolicyRulesForPodAndFamily (envOf C) (policyDepsOf C R s) (CommonCfg R) pm p (Some info)"

definition podStep :: "'k cluster \<Rightarrow> 'k nodeReconciler \<Rightarrow> policy list \<Rightarrow> pod \<Rightarrow> 'k node \<Rightarrow> 'k node" where
  "podStep C R pm p s =
     (case podTarget C R s p of
        None \<Rightarrow> s
      | Some (i, info) \<Rightarrow> snd (inNS i (generate C R s pm p info) s))"

lemma criRuntimeClient_cached: "criClient s = Some c \<Longrightarrow> criRuntimeClient C R s = (Inr c, s)"
  by (simp add: criRuntimeClient_def comp_simps)

lemma GetPodInfo_cached:
  assumes "criClient s = Some c"
  shows "snd (GetPodInfo_node C R p s) = s"
  using assms
  by (simp add: GetPodInfo_node_def comp_simps criRuntimeClient_cached split: sum.splits)

lemma GetPodInfo_same_client:
  assumes "criClient s = Some c" "criClient s' = Some c"
  shows "fst (GetPodInfo_node C R p s) = fst (GetPodInfo_node C R p s')"
  using assms
  by (simp add: GetPodInfo_node_def comp_simps criRuntimeClient_cached split: sum.splits)

lemma policyDepsOf_same_client:
  "criClient s = Some c \<Longrightarrow> criClient s' = Some c \<Longrightarrow> policyDepsOf C R s = policyDepsOf C R s'"
  by (simp add: policyDepsOf_def GetPodInfo_same_client [of s c s'] split: option.splits)

lemma podTarget_same_client:
  "criClient s = Some c \<Longrightarrow> criClient s' = Some c \<Longrightarrow> podTarget C R s p = podTarget C R s' p"
  by (simp add: podTarget_def GetPodInfo_same_client [of s c s'])

lemma inNS_criClient [simp]: "criClient (snd (inNS i m s)) = criClient s"
  by (simp add: inNS_def split: prod.splits)

lemma inNS_netns: "netns (snd (inNS i m s)) j = (if j = i then kst (snd (m (new_conn (netns s i)))) else netns s j)"
  by (simp add: inNS_def split: prod.splits)

lemma podStep_criClient [simp]: "criClient (podStep C R pm p s) = criClient s"
  by (simp add: podStep_def split: option.splits prod.splits)

lemma snd_applyRulesForPod:
  "snd (applyRulesForPod C D cfg pm p info h s) =
     (case GetNS C (prefixedPath h (piNetNSPath info)) of
        Inl e \<Rightarrow> s
      | Inr i \<Rightarrow>
          if 0x7FFFFFFFFFFFFFFF < nsFd C i then s
          else (case openLasting C i of
                  Inl e \<Rightarrow> s
                | Inr _ \<Rightarrow> snd (inNS i (ApplyPolicyRulesForPodAndFamily (envOf C) D cfg pm p (Some info)) s)))"
  by (simp add: applyRulesForPod_def comp_simps split: sum.splits)

lemma seq_attempt_eq:
  "m s = (g, s') \<Longrightarrow> seq (attempt m) f s = (if is_panic g then (Inl (projl g), s') else f g s')"
  by (simp add: comp_simps)

lemma snd_attempt_ret:
  "snd (seq (attempt m) (\<lambda>r. case r of Inl e \<Rightarrow> ret (f e) | Inr x \<Rightarrow> ret (h x)) s) = snd (m s)"
  by (cases "m s") (auto simp: seq_attempt_eq comp_simps split: sum.splits)

lemma reconcilePod_state:
  assumes "PolicyDeps R = None" "ApplyRulesForPodFunc R = None" "criClient s = Some c"
  shows "snd (reconcilePod C R pm p acc s) = podStep C R pm p s"
proof -
  obtain g where g: "deps_GetPodInfo C R p s = (g, s)" "fst (GetPodInfo_node C R p s) = g"
    using GetPodInfo_cached [OF assms(3)] by (metis assms(1) deps_GetPodInfo_def option.simps(4) prod.collapse)
  have ap: "snd (applyRules C R pm p info s) =
      snd (applyRulesForPod C (policyDepsOf C R s) (CommonCfg R) pm p info (HostPrefix R) s)" for info
    by (simp add: applyRules_def assms(2) comp_simps)
  show ?thesis
  proof (cases g)
    case (Inl e)
    then show ?thesis
      by (simp add: reconcilePod_def seq_attempt_eq [of "deps_GetPodInfo C R p", OF g(1)] podStep_def podTarget_def g(2) ret_eq)
  next
    case (Inr x)
    then show ?thesis
      by (cases x)
        (simp_all add: reconcilePod_def seq_attempt_eq [of "deps_GetPodInfo C R p", OF g(1)] podStep_def podTarget_def g(2) ret_eq
          snd_attempt_ret ap snd_applyRulesForPod generate_def split: sum.splits)
  qed
qed

text \<open>The loop variables of a pod's turn: the flag is set and the error appended, or nothing changes.\<close>

lemma reconcilePod_acc:
  "reconcilePod C R pm p acc s =
     (map_sum id (\<lambda>(b, es). (fst acc \<or> b, snd acc @ es)) (fst (reconcilePod C R pm p (False, []) s)),
      snd (reconcilePod C R pm p (False, []) s))"
proof -
  obtain g s1 where g: "deps_GetPodInfo C R p s = (g, s1)" by fastforce
  show ?thesis
  proof (cases "\<exists>info. g = Inr (Some info) \<and> piInterfaces info \<noteq> []")
    case True
    then obtain info where i: "g = Inr (Some info)" "piInterfaces info \<noteq> []" by blast
    obtain h s2 where h: "applyRules C R pm p info s1 = (h, s2)" by fastforce
    show ?thesis
      by (cases h)
        (simp_all add: reconcilePod_def seq_attempt_eq [of "deps_GetPodInfo C R p", OF g] i
          seq_attempt_eq [of "applyRules C R pm p info", OF h] ret_eq)
  next
    case False
    then show ?thesis
      by (cases g)
        (auto simp: reconcilePod_def seq_attempt_eq [of "deps_GetPodInfo C R p", OF g] ret_eq split: option.splits)
  qed
qed

definition podErrors :: "'k cluster \<Rightarrow> 'k nodeReconciler \<Rightarrow> policy list \<Rightarrow> 'k node \<Rightarrow> pod \<Rightarrow> go_error list" where
  "podErrors C R pm s p = (case fst (reconcilePod C R pm p (False, []) s) of Inl e \<Rightarrow> [e] | Inr (b, es) \<Rightarrow> es)"

lemma podErrors_flag:
  "fst (reconcilePod C R pm p (False, []) s) = Inr (b, es) \<Longrightarrow> b = (es \<noteq> [])"
  by (auto simp: reconcilePod_def comp_simps split: if_splits sum.splits option.splits prod.splits)

lemma reconcilePod_error: "fst (reconcilePod C R pm p acc s) = Inl e \<Longrightarrow> is_panic (Inl e :: unit result)"
  by (auto simp: reconcilePod_def comp_simps split: if_splits sum.splits option.splits prod.splits elim!: is_panic.elims)

lemma fst_applyRulesForPod_same:
  assumes "\<And>i. GetNS C (prefixedPath h (piNetNSPath info)) = Inr i \<Longrightarrow> \<not> 0x7FFFFFFFFFFFFFFF < nsFd C i \<Longrightarrow>
      openLasting C i = Inr () \<Longrightarrow> netns s i = netns s' i"
  shows "fst (applyRulesForPod C D cfg pm p info h s) = fst (applyRulesForPod C D cfg pm p info h s')"
proof (cases "GetNS C (prefixedPath h (piNetNSPath info))")
  case (Inr i)
  with assms show ?thesis
    by (cases "openLasting C i") (auto simp: applyRulesForPod_def comp_simps inNS_def split: prod.splits)
qed (simp add: applyRulesForPod_def comp_simps)

lemma reconcilePod_same:
  assumes "PolicyDeps R = None" "ApplyRulesForPodFunc R = None" "criClient s = Some c" "criClient s' = Some c"
    and same: "\<And>i info. podTarget C R s p = Some (i, info) \<Longrightarrow> netns s i = netns s' i"
  shows "fst (reconcilePod C R pm p acc s) = fst (reconcilePod C R pm p acc s')"
proof -
  obtain g where g: "deps_GetPodInfo C R p s = (g, s)" "deps_GetPodInfo C R p s' = (g, s')"
      "fst (GetPodInfo_node C R p s) = g"
    using GetPodInfo_cached [OF assms(3), of C R p] GetPodInfo_cached [OF assms(4), of C R p]
      GetPodInfo_same_client [OF assms(3,4), of C R p]
    by (simp add: deps_GetPodInfo_def assms(1)) (metis prod.collapse)
  show ?thesis
  proof (cases "IsMultiNetworkpolicyTarget p \<and> (\<exists>info. g = Inr (Some info) \<and> piInterfaces info \<noteq> [])")
    case True
    then obtain info where i: "g = Inr (Some info)" "piInterfaces info \<noteq> []" by blast
    have "fst (applyRules C R pm p info s) = fst (applyRules C R pm p info s')"
    proof -
      have "fst (applyRulesForPod C (policyDepsOf C R s) (CommonCfg R) pm p info (HostPrefix R) s) =
          fst (applyRulesForPod C (policyDepsOf C R s) (CommonCfg R) pm p info (HostPrefix R) s')"
        using same True i g(3) by (intro fst_applyRulesForPod_same) (simp add: podTarget_def)
      then show ?thesis
        by (simp add: applyRules_def assms(2) comp_simps policyDepsOf_same_client [OF assms(3,4)])
    qed
    then obtain h t t' where "applyRules C R pm p info s = (h, t)" "applyRules C R pm p info s' = (h, t')"
      by (metis prod.collapse)
    then show ?thesis
      by (cases h)
        (simp_all add: reconcilePod_def seq_attempt_eq [of "deps_GetPodInfo C R p", OF g(1)] i
          seq_attempt_eq [of "deps_GetPodInfo C R p", OF g(2)] seq_attempt_eq [of "applyRules C R pm p info"] ret_eq)
  next
    case False
    then show ?thesis
      by (cases g)
        (auto simp: reconcilePod_def seq_attempt_eq [of "deps_GetPodInfo C R p", OF g(1)]
          seq_attempt_eq [of "deps_GetPodInfo C R p", OF g(2)] ret_eq split: option.splits)
  qed
qed

text \<open>Pods are in separate namespaces: no two pods' rules are generated in the same one.\<close>

definition separate :: "'k cluster \<Rightarrow> 'k nodeReconciler \<Rightarrow> 'k node \<Rightarrow> pod list \<Rightarrow> bool" where
  "separate C R s pods \<longleftrightarrow> distinct pods \<and>
     (\<forall>p \<in> set pods. \<forall>q \<in> set pods. \<forall>i x y. podTarget C R s p = Some (i, x) \<longrightarrow> podTarget C R s q = Some (i, y) \<longrightarrow> p = q)"

lemma podStep_other:
  "(\<And>info. podTarget C R s p \<noteq> Some (i, info)) \<Longrightarrow> netns (podStep C R pm p s) i = netns s i"
  by (auto simp: podStep_def inNS_netns split: option.splits)

lemma reconcile_loop_Cons:
  assumes "PolicyDeps R = None" "ApplyRulesForPodFunc R = None" "criClient s = Some c"
  shows "for_acc (p # pods) acc (reconcilePod C R pm) s =
    (case fst (reconcilePod C R pm p (False, []) s) of
       Inl e \<Rightarrow> (Inl e, podStep C R pm p s)
     | Inr (b, es) \<Rightarrow> for_acc pods (fst acc \<or> b, snd acc @ es) (reconcilePod C R pm) (podStep C R pm p s))"
  using reconcilePod_state [OF assms, of C pm p "(False, [])"]
  by (cases "fst (reconcilePod C R pm p (False, []) s)") (auto simp: seq_eq reconcilePod_acc [of C R pm p acc s])

lemma reconcile_loop:
  assumes R: "PolicyDeps R = None" "ApplyRulesForPodFunc R = None" and c: "criClient s = Some c"
    and run: "for_acc pods acc (reconcilePod C R pm) s = (Inr out, s')" and sep: "separate C R s pods"
  shows "snd out = snd acc @ concat (map (podErrors C R pm s) pods) \<and>
     (fst out \<longleftrightarrow> fst acc \<or> concat (map (podErrors C R pm s) pods) \<noteq> []) \<and>
     (\<forall>i. netns s' i =
        (case find (\<lambda>p. \<exists>info. podTarget C R s p = Some (i, info)) pods of
           None \<Rightarrow> netns s i
         | Some p \<Rightarrow> kst (snd (generate C R s pm p (snd (the (podTarget C R s p))) (new_conn (netns s i))))))"
  using c run sep
proof (induction pods arbitrary: s acc)
  case Nil
  then show ?case by (simp add: ret_eq)
next
  case (Cons p pods)
  let ?t = "podStep C R pm p s"
  obtain b es where r: "fst (reconcilePod C R pm p (False, []) s) = Inr (b, es)"
    and rest: "for_acc pods (fst acc \<or> b, snd acc @ es) (reconcilePod C R pm) ?t = (Inr out, s')"
    using Cons.prems(2) unfolding reconcile_loop_Cons [OF R Cons.prems(1)] by (auto split: sum.splits)
  have t: "criClient ?t = Some c" using Cons.prems(1) by simp
  have tgt: "podTarget C R ?t q = podTarget C R s q" for q
    by (rule podTarget_same_client [OF t Cons.prems(1)])
  have dep: "generate C R ?t = generate C R s"
    by (simp add: generate_def policyDepsOf_same_client [OF t Cons.prems(1)] fun_eq_iff)
  have sep': "separate C R ?t pods" using Cons.prems(3) by (auto simp: separate_def tgt)
  have other: "netns ?t i = netns s i" if "q \<in> set pods" "podTarget C R s q = Some (i, x)" for q i x
    using Cons.prems(3) that by (intro podStep_other) (auto simp: separate_def)
  have err: "podErrors C R pm ?t q = podErrors C R pm s q" if "q \<in> set pods" for q
    unfolding podErrors_def
    using reconcilePod_same [OF R t Cons.prems(1), of C q pm "(False, [])"] other that tgt by simp
  have errs: "map (podErrors C R pm ?t) pods = map (podErrors C R pm s) pods" using err by simp
  have e: "podErrors C R pm s p = es" "b = (es \<noteq> [])"
    using r podErrors_flag [OF r] by (simp_all add: podErrors_def)
  note IH = Cons.IH [OF t rest sep', unfolded errs tgt dep]
  show ?case
  proof (intro conjI allI)
    show "snd out = snd acc @ concat (map (podErrors C R pm s) (p # pods))" using IH by (simp add: e(1))
    show "fst out \<longleftrightarrow> fst acc \<or> concat (map (podErrors C R pm s) (p # pods)) \<noteq> []" using IH e by auto
  next
    fix i
    let ?at = "\<lambda>q. \<exists>info. podTarget C R s q = Some (i, info)"
    show "netns s' i = (case find ?at (p # pods) of None \<Rightarrow> netns s i
       | Some q \<Rightarrow> kst (snd (generate C R s pm q (snd (the (podTarget C R s q))) (new_conn (netns s i)))))"
    proof (cases "?at p")
      case True
      then obtain x where x: "podTarget C R s p = Some (i, x)" by blast
      then have "find ?at pods = None"
        using Cons.prems(3) by (auto simp: separate_def find_None_iff)
      moreover have "netns ?t i = kst (snd (generate C R s pm p x (new_conn (netns s i))))"
        using x by (simp add: podStep_def inNS_netns)
      ultimately show ?thesis using IH x by simp
    next
      case False
      then have "netns ?t i = netns s i" by (intro podStep_other) blast
      with IH False show ?thesis by (simp cong: option.case_cong)
    qed
  qed
qed

lemma reconcile_loop_panic:
  assumes "PolicyDeps R = None" "ApplyRulesForPodFunc R = None"
  shows "criClient s = Some c \<Longrightarrow> for_acc pods acc (reconcilePod C R pm) s = (Inl e, s') \<Longrightarrow> is_panic (Inl e :: unit result)"
proof (induction pods arbitrary: s acc)
  case Nil
  then show ?case by (simp add: ret_eq)
next
  case (Cons p pods)
  show ?case
  proof (cases "fst (reconcilePod C R pm p (False, []) s)")
    case (Inl e')
    with Cons.prems(2) have "e' = e" unfolding reconcile_loop_Cons [OF assms Cons.prems(1)] by simp
    with reconcilePod_error [OF Inl] show ?thesis by simp
  next
    case (Inr x)
    with Cons.prems(2) have
      "for_acc pods (fst acc \<or> fst x, snd acc @ snd x) (reconcilePod C R pm) (podStep C R pm p s) = (Inl e, s')"
      unfolding reconcile_loop_Cons [OF assms Cons.prems(1)] by (simp add: case_prod_unfold)
    from Cons.IH [OF _ this] Cons.prems(1) show ?thesis by simp
  qed
qed

lemma is_panic_unit: "is_panic (Inl e :: 'a result) = is_panic (Inl e :: 'b result)"
  by (cases e) simp_all

lemma find_separate:
  assumes "separate C R s pods" "p \<in> set pods" "podTarget C R s p = Some (i, info)"
  shows "find (\<lambda>q. \<exists>x. podTarget C R s q = Some (i, x)) pods = Some p"
proof -
  obtain q where q: "find (\<lambda>q. \<exists>x. podTarget C R s q = Some (i, x)) pods = Some q"
    using assms(2,3) by (cases "find (\<lambda>q. \<exists>x. podTarget C R s q = Some (i, x)) pods") (auto simp: find_None_iff)
  then have "q \<in> set pods" "\<exists>x. podTarget C R s q = Some (i, x)" by (auto simp: find_Some_iff)
  with assms have "q = p" by (auto simp: separate_def)
  with q show ?thesis by simp
qed

text \<open>
  C5. Reconcile treats every pod on its own. With a runtime connection and pods in separate
  network namespaces, a run that does not panic generates, for every pod of the node that is a
  target and whose namespace can be opened, the rules in that namespace exactly as if the pod
  were alone; it changes no other namespace; and its result is success (without asking for
  another run) if no pod failed, and otherwise the joined errors of the pods that failed, so
  that one failing pod neither hides another's error nor keeps it from being served.
\<close>

theorem Reconcile_isolated:
  assumes "snd req = NodeName R" and "listPolicies C = Inr items" and "podsByIndex C (NodeName R) = Inr pods"
    and "PolicyDeps R = None" and "ApplyRulesForPodFunc R = None" and "criClient s = Some c"
    and "separate C R s pods" and "Reconcile C R req s = (r, s')" and "\<not> is_panic r"
    and "pm = mapOrder C (map snd (buildPolicyMap items))"
  shows "(\<forall>p i info. p \<in> set pods \<and> podTarget C R s p = Some (i, info) \<longrightarrow>
            netns s' i = kst (snd (generate C R s pm p info (new_conn (netns s i))))) \<and>
     (\<forall>i. (\<forall>p info. p \<in> set pods \<longrightarrow> podTarget C R s p \<noteq> Some (i, info)) \<longrightarrow> netns s' i = netns s i) \<and>
     r = (let errs = concat (map (podErrors C R pm s) pods) in if errs = [] then Inr None else Inl (Joined errs))"
proof -
  obtain a t where a: "for_acc pods (False, []) (reconcilePod C R pm) s = (a, t)" by fastforce
  have r: "Reconcile C R req s = (case a of Inl e \<Rightarrow> (Inl e, t)
      | Inr (b, es) \<Rightarrow> (if es \<noteq> [] then Inl (Joined es) else if b then Inr (Some 2) else Inr None, t))"
    using assms(1-3,10) a
    by (auto simp: Reconcile_def comp_simps Let_def split: sum.splits)
  obtain out where out: "a = Inr out"
  proof (cases a)
    case (Inl e)
    with r assms(8) have "r = Inl e" by simp
    moreover have "is_panic (Inl e :: unit result)"
      using reconcile_loop_panic [OF assms(4,5,6)] a Inl by blast
    ultimately show ?thesis using assms(9) is_panic_unit by blast
  qed
  from reconcile_loop [OF assms(4,5,6) a [unfolded out] assms(7)]
  have l: "snd out = concat (map (podErrors C R pm s) pods)" "fst out = (concat (map (podErrors C R pm s) pods) \<noteq> [])"
    "\<And>i. netns t i = (case find (\<lambda>p. \<exists>info. podTarget C R s p = Some (i, info)) pods of
           None \<Rightarrow> netns s i
         | Some p \<Rightarrow> kst (snd (generate C R s pm p (snd (the (podTarget C R s p))) (new_conn (netns s i)))))"
    by simp_all
  define errs where "errs = concat (map (podErrors C R pm s) pods)"
  have "Reconcile C R req s = (if errs = [] then Inr None else Inl (Joined errs), t)"
    using r out l(1,2) by (cases out) (simp add: errs_def [symmetric])
  then have "s' = t" "r = (let errs = concat (map (podErrors C R pm s) pods) in if errs = [] then Inr None else Inl (Joined errs))"
    using assms(8) by (simp_all add: errs_def [symmetric] Let_def)
  moreover have "netns t i = kst (snd (generate C R s pm p info (new_conn (netns s i))))"
    if "p \<in> set pods" "podTarget C R s p = Some (i, info)" for p i info
    using l(3) [of i] find_separate [OF assms(7) that] that(2) by simp
  moreover have "netns t i = netns s i" if "\<forall>p info. p \<in> set pods \<longrightarrow> podTarget C R s p \<noteq> Some (i, info)" for i
  proof -
    have "find (\<lambda>p. \<exists>info. podTarget C R s p = Some (i, info)) pods = None" using that by (auto simp: find_None_iff)
    then show ?thesis using l(3) [of i] by simp
  qed
  ultimately show ?thesis by blast
qed

subsection \<open>Events of the cluster\<close>

text \<open>The state after all requests that an event enqueues have been worked off.\<close>

definition worked :: "'k cluster \<Rightarrow> 'k nodeReconciler \<Rightarrow> event \<Rightarrow> 'k node \<Rightarrow> 'k node" where
  "worked C R e s = fold (\<lambda>req s. snd (Reconcile C R req s)) (SetupWithManager (NodeName R) e) s"

text \<open>
  The events that concern a node: its pods, before or after the event, the node itself, and all
  policies, network definitions and namespaces, as far as the filters let the event pass. An
  update has two objects of the same kind.
\<close>

fun podOn :: "string \<Rightarrow> kobject \<Rightarrow> bool" where
  "podOn n (PodObj p) = (podNodeName p = n)"
| "podOn n x = False"

fun wakes :: "string \<Rightarrow> event \<Rightarrow> bool" where
  "wakes n (UpdateEvent x y) =
     (case y of
        PodObj _ \<Rightarrow> PodPredicate (UpdateEvent x y) \<and> (podOn n x \<or> podOn n y)
      | PolicyObj _ \<Rightarrow> PolicyPredicate (UpdateEvent x y)
      | NodeObj m \<Rightarrow> m = n
      | _ \<Rightarrow> True)"
| "wakes n (GenericEvent x) = (case x of PodObj _ \<Rightarrow> False | PolicyObj _ \<Rightarrow> False | NodeObj m \<Rightarrow> m = n | _ \<Rightarrow> True)"
| "wakes n (CreateEvent x) = (case x of PodObj _ \<Rightarrow> podOn n x | NodeObj m \<Rightarrow> m = n | _ \<Rightarrow> True)"
| "wakes n (DeleteEvent x) = (case x of PodObj _ \<Rightarrow> podOn n x | NodeObj m \<Rightarrow> m = n | _ \<Rightarrow> True)"

fun oneKind :: "event \<Rightarrow> bool" where
  "oneKind (UpdateEvent x y) =
     (case (x, y) of
        (PodObj _, PodObj _) \<Rightarrow> True | (PolicyObj _, PolicyObj _) \<Rightarrow> True | (NodeObj _, NodeObj _) \<Rightarrow> True
      | (NamespaceObj _, NamespaceObj _) \<Rightarrow> True | (NetDefObj _, NetDefObj _) \<Rightarrow> True | _ \<Rightarrow> False)"
| "oneKind e = True"

lemma requests_once:
  assumes "n \<noteq> []" "oneKind e"
  shows "filter (\<lambda>req. snd req = n) (SetupWithManager n e) = (if wakes n e then [([], n)] else [])"
proof (cases e)
  case (UpdateEvent x y)
  with assms show ?thesis
    by (cases x; cases y) (auto simp: SetupWithManager_def EnqueueRequestForObject_def mapAndEnqueue_def)
next
  case (CreateEvent x)
  with assms show ?thesis
    by (cases x) (auto simp: SetupWithManager_def EnqueueRequestForObject_def mapAndEnqueue_def)
next
  case (DeleteEvent x)
  with assms show ?thesis
    by (cases x) (auto simp: SetupWithManager_def EnqueueRequestForObject_def mapAndEnqueue_def)
next
  case (GenericEvent x)
  with assms show ?thesis
    by (cases x) (auto simp: SetupWithManager_def EnqueueRequestForObject_def mapAndEnqueue_def)
qed

lemma Reconcile_other: "snd req \<noteq> NodeName R \<Longrightarrow> Reconcile C R req s = (Inr None, s)"
  by (simp add: Reconcile_def ret_def)

lemma fold_filter_id: "(\<And>x s. \<not> P x \<Longrightarrow> f x s = s) \<Longrightarrow> fold f xs s = fold f (filter P xs) s"
  by (induction xs arbitrary: s) auto

text \<open>
  C13. An event of the cluster leads to exactly one reconciliation when it concerns the node, and
  changes nothing otherwise. Policies, network definitions and namespaces concern every node.
  Of the pods only those of the node itself do: a pod of another node whose labels or addresses
  change does not reconcile the nodes whose policies select it as a peer; they notice it when
  the periodic resynchronisation delivers their own node again.
\<close>

theorem events_reconcile:
  assumes "NodeName R \<noteq> []" and "oneKind e"
  shows "worked C R e s = (if wakes (NodeName R) e then snd (Reconcile C R ([], NodeName R) s) else s)"
proof -
  have "worked C R e s = fold (\<lambda>req s. snd (Reconcile C R req s)) (filter (\<lambda>req. snd req = NodeName R) (SetupWithManager (NodeName R) e)) s"
    unfolding worked_def by (rule fold_filter_id) (simp add: Reconcile_other)
  then show ?thesis by (simp add: requests_once [OF assms])
qed

subsection \<open>A concrete node\<close>

definition demo_cluster :: "'k env \<Rightarrow> 'k cluster" where
  "demo_cluster E = \<lparr>listPolicies = Inr [],
     podsByIndex = (\<lambda>n. Inr [demo_networks\<lparr>podNodeName := n\<rparr>,
        demo_networks\<lparr>podName := ''q'', podNodeName := n,
          podContainers := [\<lparr>csName = ''app'', csContainerID = ''containerd://c2'', csRunning = True\<rparr>]\<rparr>]),
     podsBySelector = (\<lambda>_. Inr []), getNamespace = (\<lambda>_. Inr []),
     getNetDef = (\<lambda>n. Inr (snd n)), GetCNIConfig = Inr,
     decodeConfList = (\<lambda>t. if t = ''mac'' then Inr [Some ''macvlan''] else Inr []), decodeConf = (\<lambda>_. Inr ''bridge''),
     source = demo_source, addressAndDialer = Inr, newClient = (\<lambda>_. Inl ErrNotExist), connStates = (\<lambda>_. []),
     GetNS = (\<lambda>path. if path = ''/proc/1/ns/net'' then Inr 1 else if path = ''/proc/2/ns/net'' then Inr 2 else Inl ErrNotExist),
     nsFd = (\<lambda>_. 7), openLasting = (\<lambda>_. Inr ()), enterNS = (\<lambda>_. Inr ()), mapOrder = id,
     labelChecks = \<lparr>isLabelKey = (\<lambda>_. True), isLabelValue = (\<lambda>_. True)\<rparr>, selectorText0 = (\<lambda>_. []), keyOrder = id,
     envOf = E\<rparr>"

definition demo_reconciler :: "'k nodeReconciler" where
  "demo_reconciler = \<lparr>NodeName = ''n1'', HostPrefix = [], NetworkPlugins = [''macvlan''], CommonCfg = demo_cfg,
     ContainerRuntimeEndpoint = ''/run/cri.sock'', PolicyDeps = None, ApplyRulesForPodFunc = None\<rparr>"

definition demo_runtime :: criService where
  "demo_runtime = \<lparr>ContainerStatus = Inr, json_Unmarshal = (\<lambda>cid. Inr (JObj [(''pid'', JNum (if cid = ''c1'' then 1 else 2))]))\<rparr>"

definition demo_node :: "'k \<Rightarrow> 'k node" where
  "demo_node k = \<lparr>netns = (\<lambda>_. k), criClient = Some demo_runtime\<rparr>"

theorem Reconcile_owned_witness:
  "outside (netns (snd (Reconcile (demo_cluster memE) demo_reconciler ([], ''n1'') (demo_node mem_empty))) 1) = outside mem_empty"
  by (rule Reconcile_owned [where I = "\<lambda>_ k. outside k = outside mem_empty"])
    (use memK.netlink_reads_axioms mem_owned.commit in
      \<open>auto simp: memE_def demo_cluster_def demo_reconciler_def demo_node_def\<close>)

text \<open>An in-memory kernel that does not list tables.\<close>

definition mute :: "mem env" where
  "mute = memE\<lparr>kern := memK\<lparr>k_tables := (\<lambda>_ _. Inl (NlError ''netlink''))\<rparr>\<rparr>"

definition demo_q :: pod where
  "demo_q = demo_networks\<lparr>podName := ''q'',
     podContainers := [\<lparr>csName = ''app'', csContainerID = ''containerd://c2'', csRunning = True\<rparr>]\<rparr>"

lemma demo_pods: "podsByIndex (demo_cluster E) ''n1'' = Inr [demo_networks, demo_q]"
  by (simp add: demo_cluster_def demo_q_def demo_networks_def demo_running_def)

lemma demo_targets:
  "map_option fst (podTarget (demo_cluster mute) demo_reconciler (demo_node mem_empty) demo_networks) = Some 1"
  "map_option fst (podTarget (demo_cluster mute) demo_reconciler (demo_node mem_empty) demo_q) = Some 2"
  by code_simp+

lemma demo_no_panic:
  "\<not> is_panic (fst (Reconcile (demo_cluster mute) demo_reconciler ([], ''n1'') (demo_node mem_empty)))"
  by code_simp

theorem Reconcile_isolated_witness:
  "\<exists>s'. Reconcile (demo_cluster mute) demo_reconciler ([], ''n1'') (demo_node mem_empty) =
     (let errs = concat (map (podErrors (demo_cluster mute) demo_reconciler [] (demo_node mem_empty)) [demo_networks, demo_q])
      in if errs = [] then Inr None else Inl (Joined errs), s') \<and> netns s' 3 = mem_empty"
proof -
  obtain r s' where run: "Reconcile (demo_cluster mute) demo_reconciler ([], ''n1'') (demo_node mem_empty) = (r, s')"
    by fastforce
  have sep: "separate (demo_cluster mute) demo_reconciler (demo_node mem_empty) [demo_networks, demo_q]"
    using demo_targets by (auto simp: separate_def demo_q_def demo_networks_def demo_running_def)
  have none: "\<forall>p info. p \<in> set [demo_networks, demo_q] \<longrightarrow>
      podTarget (demo_cluster mute) demo_reconciler (demo_node mem_empty) p \<noteq> Some (3, info)"
    using demo_targets by auto
  note iso = Reconcile_isolated [where pods = "[demo_networks, demo_q]" and items = "[]" and c = demo_runtime and pm = "[]",
      OF _ _ _ _ _ _ sep run]
  have "netns s' 3 = netns (demo_node mem_empty) 3"
    by (rule iso [THEN conjunct2, THEN conjunct1, rule_format])
      (use demo_no_panic run demo_pods [of mute] none in
        \<open>auto simp: demo_reconciler_def demo_node_def demo_cluster_def buildPolicyMap_def\<close>)
  moreover have "r = (let errs = concat (map (podErrors (demo_cluster mute) demo_reconciler [] (demo_node mem_empty)) [demo_networks, demo_q])
      in if errs = [] then Inr None else Inl (Joined errs))"
    by (rule iso [THEN conjunct2, THEN conjunct2])
      (use demo_no_panic run demo_pods [of mute] in
        \<open>simp_all add: demo_reconciler_def demo_node_def demo_cluster_def buildPolicyMap_def\<close>)
  ultimately show ?thesis using run by (simp add: demo_node_def)
qed

theorem events_reconcile_witness:
  "worked (demo_cluster memE) demo_reconciler (CreateEvent (PodObj (demo_running\<lparr>podNodeName := ''n2''\<rparr>))) (demo_node mem_empty) =
     demo_node mem_empty \<and>
   worked (demo_cluster memE) demo_reconciler (UpdateEvent (NodeObj ''n1'') (NodeObj ''n1'')) (demo_node mem_empty) =
     snd (Reconcile (demo_cluster memE) demo_reconciler ([], ''n1'') (demo_node mem_empty))"
  using events_reconcile [where R = demo_reconciler and C = "demo_cluster memE" and s = "demo_node mem_empty"
      and e = "CreateEvent (PodObj (demo_running\<lparr>podNodeName := ''n2''\<rparr>))"]
    events_reconcile [where R = demo_reconciler and C = "demo_cluster memE" and s = "demo_node mem_empty"
      and e = "UpdateEvent (NodeObj ''n1'') (NodeObj ''n1'')"]
  by (simp add: demo_reconciler_def)

end
