(* ===== verification/Shutdown.thy ===== *)
theory Shutdown
  imports NodeRuns
begin

text \<open>
  The cleanup that runs when the daemon stops: the locale \<open>table_deletions\<close> states what it needs
  of the kernel, the properties say that a cleanup without error leaves no managed table in any
  target pod, and that it never deletes anything else.
\<close>

subsection \<open>Tables are gone after a cleanup\<close>

text \<open>
  What the shutdown relies on of the kernel: a committed deletion removes the table, and a
  missing table stays missing as long as nobody adds it.
\<close>

definition absent :: "'k kernel \<Rightarrow> nft_table \<Rightarrow> 'k \<Rightarrow> bool" where
  "absent K t k \<longleftrightarrow> k_table K k (tFamily t) (tName t) = Inl ENOENT"

definition adds_none :: "nft_msg \<Rightarrow> bool" where
  "adds_none m \<longleftrightarrow> (\<forall>t. m \<noteq> MsgNewTable t)"

lemma adds_none_simps [simp]: "adds_none (MsgDelTable t)" "legacy_msg m \<Longrightarrow> adds_none m"
  by (auto simp: adds_none_def)

locale table_deletions = netlink_reads K for K :: "'k kernel" +
  assumes deleted: "k_commit K k ms = (None, k') \<Longrightarrow> MsgDelTable t \<in> set ms \<Longrightarrow>
      list_all adds_none ms \<Longrightarrow> absent K t k'"
    and stays_absent: "absent K t k \<Longrightarrow> list_all adds_none ms \<Longrightarrow> absent K t (snd (k_commit K k ms))"
begin

lemma guarded_absent: "guarded_batches K adds_none (absent K t)"
  by unfold_locales (rule stays_absent)

lemma guarded_flushTables:
  assumes "guarded_batches K adds_none I"
  shows "keeps (guarded adds_none I) (flushTables K)"
  unfolding flushTables_def deleteTable_def joined_def
  by (intro keeps_intros guarded_intros guarded_batches.guarded_CleanupLegacyTables [OF assms netlink_reads_axioms]
      guarded_batches.guarded_Flush [OF assms]) simp_all

lemma flushTables_keeps_absent: "absent K t k \<Longrightarrow> absent K t (kst (snd (flushTables K (new_conn k))))"
  using keepsD [OF guarded_flushTables [OF guarded_absent] guarded_new_conn [of "absent K t" k]]
  by (simp add: guarded_def)

lemma listed_table: "k_table K k (tFamily t) (tName t) = Inr u \<Longrightarrow> u = t"
  using table_found [of k "tFamily t" "tName t" u] by simp

text \<open>The list requests and the deletions they lead to.\<close>

lemma deleteTable_cases:
  assumes "deleteTable K t d c = (Inr d', c')"
  obtains (gone) "absent K t (kst c)" "d' = d" "c' = c"
  | (there) "d' = d + 1" "c' = c\<lparr>messages := messages c @ [MsgDelTable t]\<rparr>"
proof (cases "k_table K (kst c) (tFamily t) (tName t)")
  case (Inl e)
  with assms show ?thesis
    by (cases e) (auto simp: deleteTable_def comp_simps ListTableOfFamily_def absent_def intro: that(1))
next
  case (Inr u)
  with listed_table [OF Inr] assms show ?thesis
    by (auto simp: deleteTable_def comp_simps ListTableOfFamily_def DelTable_def buffer_def intro: that(2))
qed

lemma tables_loop:
  assumes "for_acc ts d (deleteTable K) c = (Inr d', c')"
  shows "kst c' = kst c \<and> d \<le> d' \<and> set (messages c) \<subseteq> set (messages c') \<and>
    (\<forall>t \<in> set ts. absent K t (kst c) \<or> MsgDelTable t \<in> set (messages c') \<and> d < d')"
  using assms
proof (induction ts arbitrary: d c)
  case Nil
  then show ?case by (simp add: ret_def)
next
  case (Cons t ts)
  from Cons.prems obtain d1 c1 where one: "deleteTable K t d c = (Inr d1, c1)"
    and rest: "for_acc ts d1 (deleteTable K) c1 = (Inr d', c')"
    by (auto simp: seq_Inr)
  from one show ?case
  proof (cases rule: deleteTable_cases)
    case gone
    then show ?thesis using Cons.IH [OF rest] by auto
  next
    case there
    then show ?thesis using Cons.IH [OF rest] by auto
  qed
qed

lemma guarded_tables_loop: "keeps (guarded adds_none I) (for_acc ts d (deleteTable K))"
  unfolding deleteTable_def by (intro keeps_intros guarded_intros) simp

lemma Flush_deletes:
  assumes "Flush K c = (Inr (), c')" "MsgDelTable t \<in> set (messages c)" "list_all adds_none (messages c)"
  shows "absent K t (kst c')"
  using assms deleted [of "kst c" "messages c" _ t]
  by (auto simp: Flush_def Let_def split: if_splits option.splits prod.splits)

lemma Flush_stays_absent:
  assumes "absent K t (kst c)" "list_all adds_none (messages c)"
  shows "absent K t (kst (snd (Flush K c)))"
  using keepsD [OF guarded_batches.guarded_Flush [OF guarded_absent]] assms by (simp add: guarded_def)

text \<open>A run without error leaves neither of the two tables.\<close>

lemma flushTables_complete:
  assumes "fst (flushTables K (new_conn k)) = Inr ()" "t \<in> set managedTables"
  shows "absent K t (kst (snd (flushTables K (new_conn k))))"
proof -
  obtain c' where run: "flushTables K (new_conn k) = (Inr (), c')"
    using assms(1) by (cases "flushTables K (new_conn k)") auto
  have true: "guarded_batches K adds_none (\<lambda>_. True)" by unfold_locales simp
  obtain r c1 where r: "attempt (CleanupLegacyTables K) (new_conn k) = (Inr r, c1)"
    using run by (auto simp: flushTables_def seq_Inr)
  have "keeps (guarded adds_none (\<lambda>_. True)) (attempt (CleanupLegacyTables K))"
    by (intro keeps_attempt guarded_batches.guarded_CleanupLegacyTables [OF true netlink_reads_axioms]) simp
  from keepsD [OF this, of "new_conn k"] r have c1: "guarded adds_none (\<lambda>_. True) c1"
    by (simp add: guarded_new_conn)
  obtain d c2 where d: "for_acc managedTables 0 (deleteTable K) c1 = (Inr d, c2)"
    using run r by (auto simp: flushTables_def seq_Inr Let_def)
  have c2: "list_all adds_none (messages c2)"
    using keepsD [OF guarded_tables_loop c1, of managedTables 0] d by (simp add: guarded_def)
  have loop: "kst c2 = kst c1 \<and> (absent K t (kst c1) \<or> MsgDelTable t \<in> set (messages c2) \<and> 0 < d)"
    using tables_loop [OF d] assms(2) by auto
  show ?thesis
  proof (cases "d = 0")
    case True
    then have "c' = c2"
      using run r d by (auto simp: flushTables_def Let_def seq_Inr joined_def ret_def fail_def split: if_splits)
    with True loop run show ?thesis by simp
  next
    case False
    then have "Flush K c2 = (Inr (), c')"
      using run r d by (auto simp: flushTables_def Let_def seq_Inr joined_def ret_def fail_def attempt_Inr split: if_splits sum.splits)
    then show ?thesis
      using loop c2 Flush_deletes [of c2 c' t] Flush_stays_absent [of t c2] run by auto
  qed
qed

end

lemma criRuntimeClient_Inr:
  assumes "criRuntimeClient C R s = (Inr c, s')"
  shows "criClient s' = Some c \<and> netns s' = netns s \<and> (\<forall>c'. criClient s = Some c' \<longrightarrow> c' = c)"
  using assms by (auto simp: criRuntimeClient_def seq_Inr comp_simps split: option.splits if_splits sum.splits)

text \<open>
  What holds of a pod once its rules are removed, with the runtime connection in use: its
  namespace has been resolved, and none of the managed tables is left there.
\<close>

definition cleaned :: "'k cluster \<Rightarrow> 'k nodeReconciler \<Rightarrow> 'k node \<Rightarrow> pod \<Rightarrow> bool" where
  "cleaned C R s p \<longleftrightarrow> (\<exists>c path i. criClient s = Some c \<and> GetPodNetNSPathWithContext (Some c) p = Inr path \<and>
     GetNS C (prefixedPath (HostPrefix R) path) = Inr i \<and>
     (\<forall>t \<in> set managedTables. absent (kern (envOf C)) t (netns s i)))"

text \<open>Going on from \<open>s\<close> to \<open>s'\<close>, nothing that is cleaned gets dirty again.\<close>

definition onward :: "'k cluster \<Rightarrow> 'k node \<Rightarrow> 'k node \<Rightarrow> bool" where
  "onward C s s' \<longleftrightarrow> (\<forall>c. criClient s = Some c \<longrightarrow> criClient s' = Some c) \<and>
     (\<forall>t i. absent (kern (envOf C)) t (netns s i) \<longrightarrow> absent (kern (envOf C)) t (netns s' i))"

lemma onward_refl [simp]: "onward C s s"
  by (simp add: onward_def)

lemma onward_trans: "onward C s s' \<Longrightarrow> onward C s' s'' \<Longrightarrow> onward C s s''"
  by (simp add: onward_def)

lemma cleaned_onward: "cleaned C R s p \<Longrightarrow> onward C s s' \<Longrightarrow> cleaned C R s' p"
  unfolding cleaned_def onward_def by blast

lemma flushRulesForPod_onward:
  assumes "table_deletions (kern (envOf C))"
  shows "onward C s (snd (flushRulesForPod C path h s))"
  using table_deletions.flushTables_keeps_absent [OF assms]
  by (auto simp: onward_def flushRulesForPod_def comp_simps inNS_def split: sum.splits prod.splits) (metis snd_conv)

lemma flushRulesForPod_Inr:
  assumes "table_deletions (kern (envOf C))" "flushRulesForPod C path h s = (Inr (), s')"
  shows "\<exists>i. GetNS C (prefixedPath h path) = Inr i \<and> (\<forall>t \<in> set managedTables. absent (kern (envOf C)) t (netns s' i))"
  using assms(2) table_deletions.flushTables_complete [OF assms(1)]
  by (auto simp: flushRulesForPod_def comp_simps inNS_def split: sum.splits prod.splits) (metis fst_conv snd_conv)+

lemma cleanupNetNS_step:
  assumes "table_deletions (kern (envOf C))"
    and "cleanupNetNS C R p errs c s = (Inr (cl', errs'), s')" and "criClient s = Some c"
  shows "onward C s s' \<and> cl' = Some c \<and> criClient s' = Some c \<and> (errs' = [] \<longrightarrow> errs = [] \<and> cleaned C R s' p)"
proof (cases "GetPodNetNSPathWithContext (Some c) p")
  case (Inl e)
  with assms(2) have "s' = s \<and> cl' = Some c \<and> errs' \<noteq> []"
    by (auto simp: cleanupNetNS_def seq_Inr attempt_Inr ret_def lift_result_def)
  with assms(3) show ?thesis by simp
next
  case (Inr path)
  show ?thesis
  proof (cases "path = []")
    case True
    with Inr assms(2) have "s' = s \<and> cl' = Some c \<and> errs' \<noteq> []"
      by (auto simp: cleanupNetNS_def seq_Inr attempt_Inr ret_def lift_result_def)
    with assms(3) show ?thesis by simp
  next
    case False
    obtain r s1 where r: "flushRulesForPod C path (HostPrefix R) s = (r, s1)" by force
    with False Inr assms(2) have res: "s' = s1 \<and> cl' = Some c \<and> (errs' = [] \<longrightarrow> errs = [] \<and> r = Inr ())"
      by (cases r) (auto simp: cleanupNetNS_def seq_Inr attempt_Inr ret_def lift_result_def)
    have on: "onward C s s1" using flushRulesForPod_onward [OF assms(1), of s path "HostPrefix R"] r by simp
    then have "criClient s1 = Some c" using assms(3) by (simp add: onward_def)
    then show ?thesis
      using res on Inr r flushRulesForPod_Inr [OF assms(1), of path "HostPrefix R" s s1] by (auto simp: cleaned_def)
  qed
qed

lemma cleanupPod_step:
  assumes "table_deletions (kern (envOf C))"
    and "cleanupPod C R ctxErr (i, p) (cl, errs) s = (Inr (cl', errs'), s')"
    and cl: "\<forall>c. cl = Some c \<longrightarrow> criClient s = Some c"
  shows "onward C s s' \<and> (\<forall>c. cl' = Some c \<longrightarrow> criClient s' = Some c) \<and> (errs' = [] \<longrightarrow> errs = []) \<and>
    (IsMultiNetworkpolicyTarget p \<and> errs' = [] \<longrightarrow> cleaned C R s' p)"
proof (cases "IsMultiNetworkpolicyTarget p")
  case False
  with assms show ?thesis by (auto simp: cleanupPod_def ret_def fail_def split: option.splits)
next
  case True
  have "ctxErr i = None" using assms(2) by (cases "ctxErr i") (simp_all add: cleanupPod_def fail_def)
  with True assms(2) obtain c s1 where c: "(case cl of Some c \<Rightarrow> ret c
      | None \<Rightarrow> wrapped ''cleanup: connect to CRI'' (criRuntimeClient C R)) s = (Inr c, s1)"
    and rest: "cleanupNetNS C R p errs c s1 = (Inr (cl', errs'), s')"
    by (auto simp: cleanupPod_def seq_Inr)
  have s1: "criClient s1 = Some c \<and> netns s1 = netns s \<and> (\<forall>c'. criClient s = Some c' \<longrightarrow> c' = c)"
  proof (cases cl)
    case None
    with c have "criRuntimeClient C R s = (Inr c, s1)"
      by (auto simp: wrapped_def split: prod.splits sum.splits)
    then show ?thesis by (rule criRuntimeClient_Inr)
  next
    case (Some c0)
    with c cl show ?thesis by (simp add: ret_def)
  qed
  then have "onward C s s1" by (auto simp: onward_def)
  then show ?thesis
    using cleanupNetNS_step [OF assms(1) rest] s1 onward_trans [of C s s1 s'] by auto
qed

lemma cleanup_loop:
  assumes "table_deletions (kern (envOf C))"
    and "for_acc ps (cl, errs) (cleanupPod C R ctxErr) s = (Inr (cl', []), s')"
    and "\<forall>c. cl = Some c \<longrightarrow> criClient s = Some c"
  shows "onward C s s' \<and> errs = [] \<and> (\<forall>p \<in> set (map snd ps). IsMultiNetworkpolicyTarget p \<longrightarrow> cleaned C R s' p)"
  using assms(2,3)
proof (induction ps arbitrary: cl errs s)
  case Nil
  then show ?case by (simp add: ret_def)
next
  case (Cons x ps)
  obtain i p where x: "x = (i, p)" by (cases x)
  obtain cl1 errs1 s1 where one: "cleanupPod C R ctxErr (i, p) (cl, errs) s = (Inr (cl1, errs1), s1)"
    and rest: "for_acc ps (cl1, errs1) (cleanupPod C R ctxErr) s1 = (Inr (cl', []), s')"
    using Cons.prems(1) x by (auto simp: seq_Inr)
  note step = cleanupPod_step [OF assms(1) one Cons.prems(2)]
  have ih: "onward C s1 s' \<and> errs1 = [] \<and> (\<forall>p \<in> set (map snd ps). IsMultiNetworkpolicyTarget p \<longrightarrow> cleaned C R s' p)"
    using Cons.IH [OF rest] step by simp
  have "onward C s s'" using step ih onward_trans by metis
  moreover have "cleaned C R s' p" if "IsMultiNetworkpolicyTarget p"
    using step ih that cleaned_onward by metis
  ultimately show ?case using step ih x by auto
qed

lemma cleanupAllPods_cleaned:
  assumes "table_deletions (kern (envOf C))"
    and "cleanupAllPods C R directPods ctxErr s = (Inr (), s')"
    and "directPods (NodeName R) = Inr pods" and "p \<in> set pods" and "IsMultiNetworkpolicyTarget p"
  shows "cleaned C R s' p"
proof -
  obtain cl where "for_acc (enumerate 0 pods) (None, []) (cleanupPod C R ctxErr) s = (Inr (cl, []), s')"
    using assms(2,3) by (auto simp: cleanupAllPods_def seq_Inr lift_result_def ret_def fail_def split: if_splits)
  from cleanup_loop [OF assms(1) this] assms(4,5) show ?thesis
    by (auto simp: enumerate_map_upt)
qed

text \<open>
  C6. A shutdown cleanup that reports success has removed the rules of every pod: when
  cleanupAllPods returns without an error, then for every listed pod that is a target of the
  daemon the network namespace has been resolved and neither of the daemon's two tables is
  left in it, also when several pods share a namespace or a later pod was cleaned afterwards.
\<close>

theorem cleanupAllPods_complete:
  assumes "table_deletions (kern (envOf C))"
    and "cleanupAllPods C R directPods ctxErr s = (Inr (), s')"
    and "directPods (NodeName R) = Inr pods" and "p \<in> set pods" and "IsMultiNetworkpolicyTarget p"
  shows "\<exists>c path i. criClient s' = Some c \<and> GetPodNetNSPathWithContext (Some c) p = Inr path \<and>
     GetNS C (prefixedPath (HostPrefix R) path) = Inr i \<and>
     (\<forall>t \<in> set managedTables. k_table (kern (envOf C)) (netns s' i) (tFamily t) (tName t) = Inl ENOENT)"
  using cleanupAllPods_cleaned [OF assms] by (simp add: cleaned_def absent_def)

subsection \<open>The in-memory kernel deletes tables\<close>

lemma mem_commit: "k_commit memK m ms = (case mem_batch ms m of None \<Rightarrow> (Some (NlError ''netlink''), m) | Some m' \<Rightarrow> (None, m'))"
  by (simp add: memK_def)

lemma mem_apply_tables:
  assumes "adds_none x" "mem_apply x m = Some m'"
  shows "set (m_tables m') \<subseteq> set (m_tables m) \<and> (\<forall>t. x = MsgDelTable t \<longrightarrow> t \<notin> set (m_tables m'))"
  using assms by (cases x) (auto simp: adds_none_def Let_def split: if_splits rule_op.splits)

lemma mem_batch_tables:
  assumes "list_all adds_none xs" "mem_batch xs m = Some m'"
  shows "set (m_tables m') \<subseteq> set (m_tables m) \<and> (\<forall>t. MsgDelTable t \<in> set xs \<longrightarrow> t \<notin> set (m_tables m'))"
  using assms
proof (induction xs arbitrary: m)
  case Nil
  then show ?case by simp
next
  case (Cons x xs)
  then obtain m1 where m1: "mem_apply x m = Some m1" "mem_batch xs m1 = Some m'" by (auto split: option.splits)
  have 1: "set (m_tables m1) \<subseteq> set (m_tables m) \<and> (\<forall>t. x = MsgDelTable t \<longrightarrow> t \<notin> set (m_tables m1))"
    using Cons.prems(1) m1(1) mem_apply_tables [of x m m1] by simp
  have 2: "set (m_tables m') \<subseteq> set (m_tables m1) \<and> (\<forall>t. MsgDelTable t \<in> set xs \<longrightarrow> t \<notin> set (m_tables m'))"
    using Cons.IH [OF _ m1(2)] Cons.prems(1) by simp
  show ?case using 1 2 by auto
qed

lemma mem_absent: "absent memK t m \<longleftrightarrow> t \<notin> set (m_tables m)"
proof -
  have "(\<forall>u \<in> set (m_tables m). \<not> (tName u = tName t \<and> tFamily u = tFamily t)) \<longleftrightarrow> t \<notin> set (m_tables m)"
    by (metis (full_types) nft_table.equality old.unit.exhaust)
  then show ?thesis
    by (simp add: absent_def memK_def found_def find_None_iff find_Some_iff split: option.splits) (metis nth_mem)
qed

interpretation mem_deletes: table_deletions memK
proof unfold_locales
  fix k ms k' t
  assume "k_commit memK k ms = (None, k')" "MsgDelTable t \<in> set ms" "list_all adds_none ms"
  then show "absent memK t k'"
    using mem_batch_tables [of ms k k'] by (auto simp: mem_absent mem_commit split: option.splits)
next
  fix t k ms
  assume "absent memK t k" "list_all adds_none ms"
  then show "absent memK t (snd (k_commit memK k ms))"
    using mem_batch_tables [of ms k] by (auto simp: mem_absent mem_commit split: option.splits)
qed

definition demo_tables :: mem where
  "demo_tables = mem_empty\<lparr>m_tables := [filterTable, \<lparr>tName = ''x'', tFamily = 1\<rparr>, natTable]\<rparr>"

lemma demo_cleanup:
  "fst (cleanupAllPods (demo_cluster memE) demo_reconciler (\<lambda>_. Inr [demo_networks, demo_q]) (\<lambda>_. None)
     (demo_node demo_tables)) = Inr ()"
  by code_simp

theorem cleanupAllPods_complete_witness:
  "\<exists>s' i. cleanupAllPods (demo_cluster memE) demo_reconciler (\<lambda>_. Inr [demo_networks, demo_q]) (\<lambda>_. None)
      (demo_node demo_tables) = (Inr (), s') \<and>
     (\<forall>t \<in> set managedTables. k_table memK (netns s' i) (tFamily t) (tName t) = Inl ENOENT)"
proof -
  obtain s' where run: "cleanupAllPods (demo_cluster memE) demo_reconciler (\<lambda>_. Inr [demo_networks, demo_q]) (\<lambda>_. None)
      (demo_node demo_tables) = (Inr (), s')"
    using demo_cleanup by (cases "cleanupAllPods (demo_cluster memE) demo_reconciler (\<lambda>_. Inr [demo_networks, demo_q])
      (\<lambda>_. None) (demo_node demo_tables)") simp
  have K: "kern (envOf (demo_cluster memE)) = memK" by (simp add: demo_cluster_def memE_def)
  have "IsMultiNetworkpolicyTarget demo_networks" by code_simp
  from cleanupAllPods_complete [OF _ run refl, of demo_networks, unfolded K, OF mem_deletes.table_deletions_axioms] this run
  show ?thesis by auto
qed

subsection \<open>What a cleanup changes\<close>

definition cleanup_msg :: "nft_msg \<Rightarrow> bool" where
  "cleanup_msg m \<longleftrightarrow> legacy_msg m \<or> (\<exists>t \<in> set managedTables. m = MsgDelTable t)"

lemma guarded_cleanup_flushTables:
  fixes K :: "'k kernel"
  assumes "netlink_reads K" and "guarded_batches K cleanup_msg I"
  shows "keeps (guarded cleanup_msg I) (flushTables K)"
proof -
  have found: "ensures (guarded cleanup_msg I) (ListTableOfFamily K (tName t) (tFamily t)) (\<lambda>u. u = t)" for t
    unfolding ListTableOfFamily_def
  proof (rule ensures_reads)
    fix s :: "'k conn" and u
    assume "answer (k_table K (kst s) (tFamily t) (tName t)) = Inr u"
    then have "k_table K (kst s) (tFamily t) (tName t) = Inr u"
      by (cases "k_table K (kst s) (tFamily t) (tName t)") simp_all
    from netlink_reads.table_found [OF assms(1) this] show "u = t" by simp
  qed
  have one: "keeps (guarded cleanup_msg I) (deleteTable K t d)" if "t \<in> set managedTables" for t d
    unfolding deleteTable_def
    by (rule ensures_keeps_seq [OF ensures_attempt [OF found]], intro keeps_intros guarded_intros)
      (simp add: cleanup_msg_def that)
  show ?thesis
    unfolding flushTables_def joined_def
    by (intro keeps_intros one guarded_batches.guarded_CleanupLegacyTables [OF assms(2,1)]
        guarded_batches.guarded_Flush [OF assms(2)]) (simp_all add: cleanup_msg_def)
qed

lemma everywhere_cleanupPod:
  assumes "netlink_reads (kern (envOf C))"
    and "\<And>i k ms. I i k \<Longrightarrow> list_all cleanup_msg ms \<Longrightarrow> I i (snd (k_commit (kern (envOf C)) k ms))"
  shows "keeps (everywhere I) (cleanupPod C R ctxErr ip acc)"
proof -
  have "guarded_batches (kern (envOf C)) cleanup_msg (I i)" for i
    using assms(2) by unfold_locales
  from keepsD [OF guarded_cleanup_flushTables [OF assms(1) this] guarded_new_conn]
  have "I i (kst (snd (flushTables (kern (envOf C)) (new_conn k))))" if "I i k" for i k
    using that by (simp add: guarded_def)
  then show ?thesis
    unfolding cleanupPod_def cleanupNetNS_def flushRulesForPod_def
    by (intro keeps_intros everywhere_inNS everywhere_criRuntimeClient)
qed

lemma everywhere_CleanupOnShutdown:
  assumes "netlink_reads (kern (envOf C))"
    and "\<And>i k ms. I i k \<Longrightarrow> list_all cleanup_msg ms \<Longrightarrow> I i (snd (k_commit (kern (envOf C)) k ms))"
  shows "keeps (everywhere I) (CleanupOnShutdown C R directPods ctxErr)"
  unfolding CleanupOnShutdown_def cleanupAllPods_def by (intro keeps_intros everywhere_cleanupPod assms)

text \<open>
  C27. The shutdown cleanup removes the daemon's objects only. Whatever the API server, the
  runtime and the kernel answer and wherever the cleanup stops, every message it commits deletes
  one of the two managed tables or a daemon-owned object of a legacy table; so a property of a
  namespace that such deletions keep, like the contents of all other tables, holds afterwards
  in every namespace of the node.
\<close>

theorem CleanupOnShutdown_owned:
  assumes "netlink_reads (kern (envOf C))"
    and "\<And>i k ms. I i k \<Longrightarrow> list_all cleanup_msg ms \<Longrightarrow> I i (snd (k_commit (kern (envOf C)) k ms))"
    and "\<And>i. I i (netns s i)"
  shows "I i (netns (snd (CleanupOnShutdown C R directPods ctxErr s)) i)"
proof -
  have "keeps (everywhere I) (CleanupOnShutdown C R directPods ctxErr)"
    by (intro everywhere_CleanupOnShutdown assms)
  then show ?thesis using assms(3) by (auto simp: keeps_def everywhere_def)
qed

lemma mem_apply_cleanup:
  assumes "cleanup_msg x" "mem_apply x m = Some m'" "t \<notin> set managedTables"
  shows "t \<in> set (m_tables m) \<longrightarrow> t \<in> set (m_tables m')"
  using assms by (cases x) (auto simp: cleanup_msg_def split: if_splits)

lemma mem_batch_cleanup:
  "list_all cleanup_msg ms \<Longrightarrow> mem_batch ms m = Some m' \<Longrightarrow> t \<notin> set managedTables \<Longrightarrow>
   t \<in> set (m_tables m) \<Longrightarrow> t \<in> set (m_tables m')"
  by (induction ms arbitrary: m) (auto simp: mem_apply_cleanup split: option.splits)

theorem CleanupOnShutdown_owned_witness:
  "\<lparr>tName = ''x'', tFamily = 1\<rparr> \<in> set (m_tables
     (netns (snd (CleanupOnShutdown (demo_cluster memE) demo_reconciler (\<lambda>_. Inr [demo_networks, demo_q]) (\<lambda>_. None)
       (demo_node demo_tables))) 1))"
proof (rule CleanupOnShutdown_owned [where I = "\<lambda>_ m. \<lparr>tName = ''x'', tFamily = 1\<rparr> \<in> set (m_tables m)"])
  have K: "kern (envOf (demo_cluster memE)) = memK" by (simp add: demo_cluster_def memE_def)
  show "netlink_reads (kern (envOf (demo_cluster memE)))" unfolding K by (rule memK.netlink_reads_axioms)
  have x: "\<lparr>tName = ''x'', tFamily = 1\<rparr> \<notin> set managedTables" by code_simp
  show "\<lparr>tName = ''x'', tFamily = 1\<rparr> \<in> set (m_tables (snd (k_commit (kern (envOf (demo_cluster memE))) k ms)))"
    if "\<lparr>tName = ''x'', tFamily = 1\<rparr> \<in> set (m_tables k)" "list_all cleanup_msg ms" for k :: mem and ms
    using that mem_batch_cleanup [OF that(2) _ x] unfolding K by (auto simp: mem_commit split: option.splits)
  show "\<lparr>tName = ''x'', tFamily = 1\<rparr> \<in> set (m_tables (netns (demo_node demo_tables) i))" for i
    by (simp add: demo_node_def demo_tables_def)
qed

end
