(* ===== verification/Options.thy ===== *)
theory Options
  imports NodeInfo Elements
begin

text \<open>
  The command line options (\<^verbatim>\<open>pkg/server/options.go\<close>): their defaults, their validation, the
  configuration of the reconciler built from them, and the address of the health server. The
  prefix lists are checked with another parser than the one the rule generator uses; the
  properties say which texts pass the first and fail in the second.
\<close>

subsection \<open>Package net: CIDR notation\<close>

text \<open>\<^verbatim>\<open>dtoi\<close>: the value of the leading digits and their number; none, or a value from 0xFFFFFF on, is an error.\<close>

fun dtoi_loop :: "string \<Rightarrow> int \<Rightarrow> nat \<Rightarrow> (int \<times> nat) option" where
  "dtoi_loop [] n i = (if i = 0 then None else Some (n, i))"
| "dtoi_loop (c # cs) n i =
     (if \<not> is_digit c then (if i = 0 then None else Some (n, i))
      else if 0xFFFFFF \<le> n * 10 + digit_val c then None
      else dtoi_loop cs (n * 10 + digit_val c) (Suc i))"

definition dtoi :: "string \<Rightarrow> (int \<times> nat) option" where
  "dtoi s = dtoi_loop s 0 0"

definition zone_of :: "netip_addr \<Rightarrow> string" where
  "zone_of ip = (case ip of Addr4 w \<Rightarrow> [] | Addr6 w z \<Rightarrow> z)"

definition BitLen :: "netip_addr \<Rightarrow> int" where
  "BitLen ip = (if Is6 ip then 128 else 32)"

text \<open>\<^verbatim>\<open>net.ParseCIDR\<close>; the address and the number of bits of the result are kept.\<close>

definition ParseCIDR :: "string \<Rightarrow> netip_prefix result" where
  "ParseCIDR s =
     (case Cut s ''/'' of (addr, bits, hasSlash) \<Rightarrow>
      if \<not> hasSlash then Inl (ErrText ''invalid CIDR address'')
      else case ParseAddr addr of
          Inl e \<Rightarrow> Inl (ErrText ''invalid CIDR address'')
        | Inr ip \<Rightarrow>
            if zone_of ip \<noteq> [] then Inl (ErrText ''invalid CIDR address'')
            else (case dtoi bits of
                    None \<Rightarrow> Inl (ErrText ''invalid CIDR address'')
                  | Some (n, i) \<Rightarrow>
                      if i \<noteq> length bits \<or> BitLen ip < n then Inl (ErrText ''invalid CIDR address'')
                      else Inr \<lparr>pAddr = ip, pBits = nat n\<rparr>))"

text \<open>\<^verbatim>\<open>net.JoinHostPort\<close>.\<close>

definition JoinHostPort :: "string \<Rightarrow> string \<Rightarrow> string" where
  "JoinHostPort host port =
     (if CHR '':'' \<in> set host then ''['' @ host @ '']:'' @ port else host @ '':'' @ port)"

subsection \<open>Options\<close>

definition defaultSyncPeriod :: int where
  "defaultSyncPeriod = 30"

record options =
  Kubeconfig :: string
  master :: string
  hostnameOverride :: string
  hostPrefix :: string
  containerRuntime :: string
  containerRuntimeEndpoint :: string
  networkPlugins :: "string list"
  syncPeriod :: int
  acceptICMPv6 :: bool
  acceptICMP :: bool
  allowSrcPrefixText :: string
  allowDstPrefixText :: string
  healthPort :: int
  healthBindAddress :: string
  allowSrcPrefix :: "string list"
  allowDstPrefix :: "string list"

record ReconcilerConfig =
  rcKubeconfig :: string
  rcMaster :: string
  rcNodeName :: string
  rcHostPrefix :: string
  rcContainerRuntimeEndpoint :: string
  rcNetworkPlugins :: "string list"
  SyncPeriodSeconds :: int
  rcCommonRuleConfig :: CommonRuleConfig

definition NewOptions :: options where
  "NewOptions = \<lparr>Kubeconfig = [], master = [], hostnameOverride = [], hostPrefix = [], containerRuntime = Cri,
     containerRuntimeEndpoint = [], networkPlugins = [], syncPeriod = 0, acceptICMPv6 = False, acceptICMP = False,
     allowSrcPrefixText = [], allowDstPrefixText = [], healthPort = 0, healthBindAddress = [],
     allowSrcPrefix = [], allowDstPrefix = []\<rparr>"

text \<open>What the options hold once the flags are registered and none is given.\<close>

definition AddFlags :: "options \<Rightarrow> options" where
  "AddFlags o' = o'\<lparr>networkPlugins := [''macvlan''], syncPeriod := defaultSyncPeriod,
     acceptICMP := False, acceptICMPv6 := False, allowSrcPrefixText := [], allowDstPrefixText := [],
     healthPort := 0, healthBindAddress := []\<rparr>"

text \<open>The loop over the parts of a prefix list.\<close>

fun parsePrefixes :: "string list \<Rightarrow> string list \<Rightarrow> string list result \<times> string list" where
  "parsePrefixes [] acc = (Inr acc, acc)"
| "parsePrefixes (addrRaw # rest) acc =
     (case ParseCIDR (TrimSpace addrRaw) of
        Inl e \<Rightarrow> (Inl e, acc)
      | Inr _ \<Rightarrow> parsePrefixes rest (acc @ [TrimSpace addrRaw]))"

text \<open>The list is written through a pointer: it is changed also when an error is returned.\<close>

definition parseIPPrefixText :: "string \<Rightarrow> (string list \<Rightarrow> options \<Rightarrow> options) \<Rightarrow> (options, unit) comp" where
  "parseIPPrefixText prefixText put =
     (if prefixText \<noteq> [] then
        (\<lambda>s. case parsePrefixes (Split CHR '','' prefixText) [] of
               (Inl e, xs) \<Rightarrow> (Inl e, put xs s)
             | (Inr _, xs) \<Rightarrow> (Inr (), put xs s))
      else ret ())"

definition IsAbs :: "string \<Rightarrow> bool" where
  "IsAbs path = HasPrefix path ''/''"

definition Validate :: "(options, unit) comp" where
  "Validate =
     seq (gets id) (\<lambda>o1.
     if healthPort o1 < 0 \<or> 65535 < healthPort o1 then fail (ErrText ''health-port is out of range'')
     else if healthBindAddress o1 \<noteq> [] \<and> net_ParseIP (healthBindAddress o1) = None
       then fail (ErrText ''health-bind-address is not a valid IP address'')
     else
       seq (parseIPPrefixText (allowSrcPrefixText o1) (\<lambda>xs s. s\<lparr>allowSrcPrefix := xs\<rparr>)) (\<lambda>_.
       seq (parseIPPrefixText (allowDstPrefixText o1) (\<lambda>xs s. s\<lparr>allowDstPrefix := xs\<rparr>)) (\<lambda>_.
       seq (modify (\<lambda>s. s\<lparr>containerRuntimeEndpoint := TrimSpace (containerRuntimeEndpoint s)\<rparr>)) (\<lambda>_.
       seq (gets containerRuntimeEndpoint) (\<lambda>endpoint.
       if endpoint = [] then fail (ErrText ''container-runtime-endpoint must not be empty'')
       else if Contains endpoint ''://''
         then fail (ErrText ''container-runtime-endpoint must be an absolute filesystem path, not a URL'')
       else if \<not> IsAbs endpoint then fail (ErrText ''container-runtime-endpoint must be an absolute filesystem path'')
       else ret ())))))"

text \<open>\<open>getHostname\<close> stands for the node utilities of Kubernetes.\<close>

definition BuildReconcilerConfig :: "(string \<Rightarrow> string result) \<Rightarrow> (options, ReconcilerConfig) comp" where
  "BuildReconcilerConfig getHostname =
     seq (wrapped ''options validation'' Validate) (\<lambda>_.
     seq (gets id) (\<lambda>o1.
     seq (wrapped ''get hostname'' (lift_result (getHostname (hostnameOverride o1)))) (\<lambda>hostname.
     ret \<lparr>rcKubeconfig = Kubeconfig o1, rcMaster = master o1, rcNodeName = hostname, rcHostPrefix = hostPrefix o1,
          rcContainerRuntimeEndpoint = containerRuntimeEndpoint o1, rcNetworkPlugins = networkPlugins o1,
          SyncPeriodSeconds = syncPeriod o1,
          rcCommonRuleConfig = \<lparr>AcceptICMPv6 = acceptICMPv6 o1, AcceptICMP = acceptICMP o1,
            AllowSrcPrefix = allowSrcPrefix o1, AllowDstPrefix = allowDstPrefix o1\<rparr>\<rparr>)))"

definition HealthEnabled :: "options \<Rightarrow> bool" where
  "HealthEnabled o1 = (healthPort o1 \<noteq> 0)"

definition HealthAddr :: "options \<Rightarrow> string" where
  "HealthAddr o1 = JoinHostPort (healthBindAddress o1) (fmt_int (healthPort o1))"

subsection \<open>Which options are accepted\<close>

definition valid_prefixes :: "string \<Rightarrow> bool" where
  "valid_prefixes t \<longleftrightarrow> t = [] \<or> list_all (\<lambda>x. \<not> isl (ParseCIDR (TrimSpace x))) (Split CHR '','' t)"

definition valid_options :: "options \<Rightarrow> bool" where
  "valid_options o1 \<longleftrightarrow> 0 \<le> healthPort o1 \<and> healthPort o1 \<le> 65535 \<and>
     (healthBindAddress o1 = [] \<or> net_ParseIP (healthBindAddress o1) \<noteq> None) \<and>
     valid_prefixes (allowSrcPrefixText o1) \<and> valid_prefixes (allowDstPrefixText o1) \<and>
     (let endpoint = TrimSpace (containerRuntimeEndpoint o1) in IsAbs endpoint \<and> \<not> Contains endpoint ''://'')"

definition split_prefixes :: "string \<Rightarrow> string list \<Rightarrow> string list" where
  "split_prefixes t old = (if t = [] then old else map TrimSpace (Split CHR '','' t))"

definition processed :: "options \<Rightarrow> options" where
  "processed o1 = o1\<lparr>allowSrcPrefix := split_prefixes (allowSrcPrefixText o1) (allowSrcPrefix o1),
     allowDstPrefix := split_prefixes (allowDstPrefixText o1) (allowDstPrefix o1),
     containerRuntimeEndpoint := TrimSpace (containerRuntimeEndpoint o1)\<rparr>"

lemma parsePrefixes_ok:
  "list_all (\<lambda>x. \<not> isl (ParseCIDR (TrimSpace x))) xs \<Longrightarrow>
   parsePrefixes xs acc = (Inr (acc @ map TrimSpace xs), acc @ map TrimSpace xs)"
  by (induction xs arbitrary: acc) (auto split: sum.splits)

lemma parsePrefixes_err:
  "\<not> list_all (\<lambda>x. \<not> isl (ParseCIDR (TrimSpace x))) xs \<Longrightarrow> \<exists>e ys. parsePrefixes xs acc = (Inl e, ys)"
  by (induction xs arbitrary: acc) (auto split: sum.splits)

lemma parseIPPrefixText_ok:
  "valid_prefixes t \<Longrightarrow> parseIPPrefixText t put s = (Inr (), if t = [] then s else put (map TrimSpace (Split CHR '','' t)) s)"
  by (auto simp: parseIPPrefixText_def valid_prefixes_def parsePrefixes_ok ret_def)

lemma parseIPPrefixText_err:
  assumes "\<not> valid_prefixes t"
  shows "\<exists>e s'. parseIPPrefixText t put s = (Inl e, s')"
proof -
  from assms have "t \<noteq> []" "\<not> list_all (\<lambda>x. \<not> isl (ParseCIDR (TrimSpace x))) (Split CHR '','' t)"
    by (auto simp: valid_prefixes_def)
  with parsePrefixes_err [of "Split CHR '','' t" "[]"] show ?thesis by (auto simp: parseIPPrefixText_def)
qed

lemma IsAbs_not_Nil: "IsAbs p \<Longrightarrow> p \<noteq> []"
  by (auto simp: IsAbs_def HasPrefix_def)

lemma Validate_ok: "valid_options o1 \<Longrightarrow> Validate o1 = (Inr (), processed o1)"
  by (auto simp: Validate_def comp_simps parseIPPrefixText_ok valid_options_def processed_def split_prefixes_def Let_def
      dest: IsAbs_not_Nil)

lemma Validate_err:
  assumes "\<not> valid_options o1"
  shows "\<exists>e o2. Validate o1 = (Inl e, o2)"
proof (cases "valid_prefixes (allowSrcPrefixText o1) \<and> valid_prefixes (allowDstPrefixText o1)")
  case True
  with assms show ?thesis
    by (auto simp: Validate_def comp_simps parseIPPrefixText_ok valid_options_def Let_def)
next
  case False
  then consider "\<not> valid_prefixes (allowSrcPrefixText o1)"
    | "valid_prefixes (allowSrcPrefixText o1)" "\<not> valid_prefixes (allowDstPrefixText o1)" by blast
  then show ?thesis
  proof cases
    case 1
    obtain e o2 where "parseIPPrefixText (allowSrcPrefixText o1) (\<lambda>xs s. s\<lparr>allowSrcPrefix := xs\<rparr>) o1 = (Inl e, o2)"
      using parseIPPrefixText_err [OF 1] by metis
    then show ?thesis by (simp add: Validate_def comp_simps)
  next
    case 2
    obtain o2 where src: "parseIPPrefixText (allowSrcPrefixText o1) (\<lambda>xs s. s\<lparr>allowSrcPrefix := xs\<rparr>) o1 = (Inr (), o2)"
      using parseIPPrefixText_ok [OF 2(1)] by metis
    obtain e o3 where "parseIPPrefixText (allowDstPrefixText o1) (\<lambda>xs s. s\<lparr>allowDstPrefix := xs\<rparr>) o2 = (Inl e, o3)"
      using parseIPPrefixText_err [OF 2(2)] by metis
    with src show ?thesis by (simp add: Validate_def comp_simps)
  qed
qed

lemma BuildReconcilerConfig_run:
  "BuildReconcilerConfig getHostname o1 = (Inr cfg, o2) \<longleftrightarrow>
     valid_options o1 \<and> o2 = processed o1 \<and>
     (\<exists>h. getHostname (hostnameOverride o1) = Inr h \<and>
       cfg = \<lparr>rcKubeconfig = Kubeconfig o1, rcMaster = master o1, rcNodeName = h, rcHostPrefix = hostPrefix o1,
         rcContainerRuntimeEndpoint = TrimSpace (containerRuntimeEndpoint o1), rcNetworkPlugins = networkPlugins o1,
         SyncPeriodSeconds = syncPeriod o1,
         rcCommonRuleConfig = \<lparr>AcceptICMPv6 = acceptICMPv6 o1, AcceptICMP = acceptICMP o1,
           AllowSrcPrefix = split_prefixes (allowSrcPrefixText o1) (allowSrcPrefix o1),
           AllowDstPrefix = split_prefixes (allowDstPrefixText o1) (allowDstPrefix o1)\<rparr>\<rparr>)"
proof (cases "valid_options o1")
  case True
  then show ?thesis
    by (auto simp: BuildReconcilerConfig_def comp_simps Validate_ok processed_def split: sum.splits)
next
  case False
  with Validate_err [OF False] show ?thesis by (auto simp: BuildReconcilerConfig_def comp_simps)
qed

text \<open>
  C39. The daemon starts exactly with valid options: BuildReconcilerConfig succeeds if and only if
  the health port is a TCP port or 0, the bind address is empty or an IP address, every part of
  the two prefix lists is a CIDR after trimming, the trimmed runtime endpoint is an absolute path
  and not a URL, and the host name can be determined. The configuration then carries the trimmed
  prefixes and the trimmed endpoint, everything else as given.
\<close>

theorem BuildReconcilerConfig_exact:
  "BuildReconcilerConfig getHostname o1 = (Inr cfg, o2) \<longleftrightarrow>
     valid_options o1 \<and> o2 = processed o1 \<and>
     (\<exists>h. getHostname (hostnameOverride o1) = Inr h \<and>
       cfg = \<lparr>rcKubeconfig = Kubeconfig o1, rcMaster = master o1, rcNodeName = h, rcHostPrefix = hostPrefix o1,
         rcContainerRuntimeEndpoint = TrimSpace (containerRuntimeEndpoint o1), rcNetworkPlugins = networkPlugins o1,
         SyncPeriodSeconds = syncPeriod o1,
         rcCommonRuleConfig = \<lparr>AcceptICMPv6 = acceptICMPv6 o1, AcceptICMP = acceptICMP o1,
           AllowSrcPrefix = split_prefixes (allowSrcPrefixText o1) (allowSrcPrefix o1),
           AllowDstPrefix = split_prefixes (allowDstPrefixText o1) (allowDstPrefix o1)\<rparr>\<rparr>)"
  by (rule BuildReconcilerConfig_run)

subsection \<open>Validated prefixes and the rule generator\<close>

lemma dtoi_loop_all:
  "dtoi_loop s n i = Some (m, i + length s) \<Longrightarrow> 0 \<le> n \<Longrightarrow> n < 0xFFFFFF \<Longrightarrow>
   list_all is_digit s \<and> m = dec_val n s \<and> 0 \<le> m \<and> m < 0xFFFFFF"
proof (induction s arbitrary: n i)
  case Nil
  then show ?case by (auto split: if_splits)
next
  case (Cons c cs)
  have "is_digit c" using Cons.prems by (auto split: if_splits)
  moreover from this have "0 \<le> digit_val c" by (simp add: is_digit_def digit_val_def Let_def)
  ultimately show ?case using Cons.prems Cons.IH [of "n * 10 + digit_val c" "Suc i"] by (auto split: if_splits)
qed

lemma dtoi_all:
  assumes "dtoi s = Some (m, length s)"
  shows "s \<noteq> [] \<and> list_all is_digit s \<and> m = dec_val 0 s \<and> 0 \<le> m \<and> m < 0xFFFFFF"
  using assms dtoi_loop_all [of s 0 0 m] by (cases s) (auto simp: dtoi_def)

definition leading_zero :: "string \<Rightarrow> bool" where
  "leading_zero s \<longleftrightarrow> (case Cut s ''/'' of (_, bits, _) \<Rightarrow> 1 < length bits \<and> hd bits = CHR ''0'')"

lemma digit_not_slash: "list_all is_digit s \<Longrightarrow> CHR ''/'' \<notin> set s"
  by (auto simp: list_all_iff is_digit_def Let_def)

lemma digit_not_sign: "is_digit c \<Longrightarrow> c \<noteq> CHR ''-'' \<and> c \<noteq> CHR ''+''"
  by (auto simp: is_digit_def Let_def)

lemma Atoi_digits:
  "s \<noteq> [] \<Longrightarrow> list_all is_digit s \<Longrightarrow> 0 \<le> dec_val 0 s \<Longrightarrow> dec_val 0 s < 0xFFFFFF \<Longrightarrow> Atoi s = Inr (dec_val 0 s)"
  by (cases s) (auto simp: Atoi_def Let_def dest!: digit_not_sign)

lemma validated_prefix_parses:
  assumes "ParseCIDR s = Inr p"
  shows "ParsePrefix s = (if leading_zero s then Inl (ErrText ''bad bits after slash'') else Inr p)"
proof -
  obtain addr bits where cut: "Cut s ''/'' = (addr, bits, True)"
    using assms by (auto simp: ParseCIDR_def split: prod.splits if_splits)
  from assms cut obtain ip n where ip: "ParseAddr addr = Inr ip" "zone_of ip = []"
    and n: "dtoi bits = Some (n, length bits)" "n \<le> BitLen ip" and p: "p = \<lparr>pAddr = ip, pBits = nat n\<rparr>"
    by (auto simp: ParseCIDR_def not_less split: sum.splits option.splits if_splits)
  note digits = dtoi_all [OF n(1)]
  then have slash: "CHR ''/'' \<notin> set bits" using digit_not_slash by blast
  have s: "s = addr @ CHR ''/'' # bits" using Cut_found [OF cut] by simp
  have last: "rev (takeWhile (\<lambda>c. c \<noteq> CHR ''/'') (rev s)) = bits"
    using slash by (simp add: s takeWhile_append)
  have hd: "is_digit (hd bits)" using digits by (cases bits) auto
  have bits: "Atoi bits = Inr n" using Atoi_digits digits by metis
  have zone: "(case ip of Addr4 w \<Rightarrow> False | Addr6 w z \<Rightarrow> z \<noteq> []) = False"
    using ip(2) by (simp add: zone_of_def split: netip_addr.splits)
  have mem: "CHR ''/'' \<in> set s" and front: "take (length s - length bits - 1) s = addr" by (simp_all add: s)
  have range: "\<not> n < 0" "\<not> (if Is6 ip then 128 else 32) < n" using digits n(2) by (auto simp: BitLen_def)
  show ?thesis
    unfolding ParsePrefix_def Let_def last front
    using hd range by (auto simp: mem ip(1) zone bits p leading_zero_def cut)
qed

lemma prefixes_loop_isl: "isl (prefixes_loop i ps v4 v6) \<longleftrightarrow> list_ex (\<lambda>s. isl (ParsePrefix s)) ps"
  by (induction ps arbitrary: i v4 v6) (auto split: sum.splits)

lemma validated_prefixes_isl:
  assumes "list_all (\<lambda>s. \<not> isl (ParseCIDR s)) ps"
  shows "isl (getPrefixesAsSetInterval ps) \<longleftrightarrow> list_ex leading_zero ps"
proof -
  have "isl (ParsePrefix s) \<longleftrightarrow> leading_zero s" if "s \<in> set ps" for s
  proof -
    have "\<not> isl (ParseCIDR s)" using assms that by (simp add: list_all_iff)
    then obtain p where "ParseCIDR s = Inr p" by (cases "ParseCIDR s") auto
    from validated_prefix_parses [OF this] show ?thesis by simp
  qed
  then show ?thesis by (auto simp: getPrefixesAsSetInterval_def prefixes_loop_isl list_ex_iff)
qed

text \<open>
  C40. The prefix lists are validated with another parser than the one the rule generator uses.
  With validated options, the set of the allowed source prefixes can be generated unless a prefix
  length is written with a leading zero, as in "10.0.0.0/08": the validation accepts such a text,
  the generator then refuses it for every pod.
\<close>

theorem validated_prefixes_generate:
  assumes "BuildReconcilerConfig getHostname o1 = (Inr cfg, o2)" and "allowSrcPrefixText o1 \<noteq> []"
  shows "isl (getPrefixesAsSetInterval (AllowSrcPrefix (rcCommonRuleConfig cfg))) \<longleftrightarrow>
     list_ex leading_zero (AllowSrcPrefix (rcCommonRuleConfig cfg))"
proof -
  note cfg = assms(1) [unfolded BuildReconcilerConfig_run]
  then have "list_all (\<lambda>s. \<not> isl (ParseCIDR s)) (AllowSrcPrefix (rcCommonRuleConfig cfg))"
    using assms(2) by (auto simp: valid_options_def valid_prefixes_def split_prefixes_def list_all_iff)
  then show ?thesis by (rule validated_prefixes_isl)
qed

definition demo_options :: options where
  "demo_options = (AddFlags NewOptions)\<lparr>containerRuntimeEndpoint := '' /run/crio.sock'',
     allowSrcPrefixText := ''fe80::/10, 10.0.0.0/08'', hostnameOverride := ''n1''\<rparr>"

lemma demo_config: "fst (BuildReconcilerConfig Inr demo_options) =
   Inr \<lparr>rcKubeconfig = [], rcMaster = [], rcNodeName = ''n1'', rcHostPrefix = [],
     rcContainerRuntimeEndpoint = ''/run/crio.sock'', rcNetworkPlugins = [''macvlan''], SyncPeriodSeconds = 30,
     rcCommonRuleConfig = \<lparr>AcceptICMPv6 = False, AcceptICMP = False,
       AllowSrcPrefix = [''fe80::/10'', ''10.0.0.0/08''], AllowDstPrefix = []\<rparr>\<rparr>"
  by code_simp

theorem validated_prefixes_generate_witness:
  "\<exists>cfg o2. BuildReconcilerConfig Inr demo_options = (Inr cfg, o2) \<and>
     isl (getPrefixesAsSetInterval (AllowSrcPrefix (rcCommonRuleConfig cfg)))"
proof -
  obtain r o2 where run: "BuildReconcilerConfig Inr demo_options = (r, o2)" by force
  have src: "allowSrcPrefixText demo_options \<noteq> []" by (simp add: demo_options_def)
  have "leading_zero ''10.0.0.0/08''" by code_simp
  with validated_prefixes_generate [OF _ src, of Inr _ o2] run demo_config show ?thesis by auto
qed

end
