(* ===== verification/Health.thy ===== *)
theory Health
  imports Prelude
begin

text \<open>
  The readiness state of the daemon (type Server of \<^verbatim>\<open>pkg/server/server.go\<close>), the HTTP handlers
  and the life of the health server (\<^verbatim>\<open>pkg/server/healthserver.go\<close>), and the goroutines of
  \<^verbatim>\<open>cmd/multi-networkpolicy-nftables/main.go\<close> that write that state: the runnable that waits for
  the informer caches, the shutdown watcher, and the deferred calls of \<^verbatim>\<open>run\<close>. The flags are
  atomics, so the goroutines interleave at single loads and stores.
\<close>

subsection \<open>The readiness state\<close>

record server =
  policySynced :: bool
  netdefSynced :: bool
  nsSynced :: bool
  shuttingDown :: bool

definition NewServer :: server where
  "NewServer = \<lparr>policySynced = False, netdefSynced = False, nsSynced = False, shuttingDown = False\<rparr>"

definition AllSynced :: "server \<Rightarrow> bool" where
  "AllSynced s = (policySynced s \<and> netdefSynced s \<and> nsSynced s)"

definition MarkPolicySynced :: "server \<Rightarrow> server" where
  "MarkPolicySynced s = s\<lparr>policySynced := True\<rparr>"

definition MarkNetDefSynced :: "server \<Rightarrow> server" where
  "MarkNetDefSynced s = s\<lparr>netdefSynced := True\<rparr>"

definition MarkNSSynced :: "server \<Rightarrow> server" where
  "MarkNSSynced s = s\<lparr>nsSynced := True\<rparr>"

definition MarkShuttingDown :: "server \<Rightarrow> server" where
  "MarkShuttingDown s = s\<lparr>shuttingDown := True\<rparr>"

subsection \<open>The handlers\<close>

datatype response = Response (status: nat) (body: string)

definition healthz :: "server \<Rightarrow> response" where
  "healthz s = Response 200 ''ok''"

text \<open>The answer of \<^verbatim>\<open>/readyz\<close> when nothing changes while the handler runs.\<close>

definition readyz :: "server \<Rightarrow> response" where
  "readyz s =
     (if shuttingDown s then Response 503 ''shutting down''
      else if AllSynced s then Response 200 ''ok''
      else Response 503 ''not ready'')"

text \<open>
  The handler as it runs: one atomic load per step. It first loads the shutdown flag, then the
  flags of AllSynced from left to right until one is unset.
\<close>

datatype handler = AtShutdown | AtPolicy | AtNetDef | AtNS | Answered response

fun readyz_step :: "server \<Rightarrow> handler \<Rightarrow> handler" where
  "readyz_step s AtShutdown = (if shuttingDown s then Answered (Response 503 ''shutting down'') else AtPolicy)"
| "readyz_step s AtPolicy = (if policySynced s then AtNetDef else Answered (Response 503 ''not ready''))"
| "readyz_step s AtNetDef = (if netdefSynced s then AtNS else Answered (Response 503 ''not ready''))"
| "readyz_step s AtNS = (if nsSynced s then Answered (Response 200 ''ok'') else Answered (Response 503 ''not ready''))"
| "readyz_step s (Answered r) = Answered r"

subsection \<open>Waiting for the informers\<close>

datatype informer = PolicyInformer | NetDefInformer | NSInformer

fun mark :: "informer \<Rightarrow> server \<Rightarrow> server" where
  "mark PolicyInformer s = MarkPolicySynced s"
| "mark NetDefInformer s = MarkNetDefSynced s"
| "mark NSInformer s = MarkNSSynced s"

definition targets :: "informer list" where
  "targets = [PolicyInformer, NetDefInformer, NSInformer]"

text \<open>\<open>getInformer\<close> blocks until the cache of the informer is synced or the context is over.\<close>

definition healthSync_Start :: "(informer \<Rightarrow> unit result) \<Rightarrow> (server, unit) comp" where
  "healthSync_Start getInformer =
     for_each targets (\<lambda>t.
       seq (wrapped ''wait for informer sync'' (lift_result (getInformer t))) (\<lambda>_.
       modify (mark t)))"

subsection \<open>The goroutines around the health server\<close>

text \<open>
  The calls that \<^verbatim>\<open>run\<close> defers when the health server is enabled, in the order of the defer
  statements; Go runs them in the opposite order. HealthServer.Stop consists of four steps.
\<close>

datatype exitCall = CancelWatcher | WaitWatcher | CloseRuntime
  | StopAwaitServing | StopCloseListener | StopShutdown | StopWait

definition Stop :: "exitCall list" where
  "Stop = [StopAwaitServing, StopCloseListener, StopShutdown, StopWait]"

definition deferStatements :: "exitCall list list" where
  "deferStatements = [Stop, [WaitWatcher], [CancelWatcher], [CloseRuntime]]"

definition exitCalls :: "exitCall list" where
  "exitCalls = concat (rev deferStatements)"

text \<open>
  The state: the flags, the informers the runnable still waits for, whether the signal context and
  the watcher context are cancelled, whether the watcher goroutine runs, the state of the server
  goroutine that Start launched, the calls \<^verbatim>\<open>run\<close> still has to make once it returns, and the
  running requests.
\<close>

record health =
  flags :: server
  pending :: "informer list"
  ctxDone :: bool
  watcherCancelled :: bool
  watcherRunning :: bool
  serving :: bool
  listenerClosed :: bool
  shutdownCalled :: bool
  serveDone :: bool
  returning :: bool
  exits :: "exitCall list"
  handlers :: "nat \<Rightarrow> handler"

text \<open>After HealthServer.Start and the launch of the watcher.\<close>

definition Start :: health where
  "Start = \<lparr>flags = NewServer, pending = targets, ctxDone = False, watcherCancelled = False,
     watcherRunning = True, serving = False, listenerClosed = False, shutdownCalled = False,
     serveDone = False, returning = False, exits = exitCalls, handlers = (\<lambda>_. AtShutdown)\<rparr>"

text \<open>When a deferred call can finish, and what it does. The shutdown has a timeout of its own.\<close>

fun exit_ready :: "exitCall \<Rightarrow> health \<Rightarrow> bool" where
  "exit_ready WaitWatcher d = (\<not> watcherRunning d)"
| "exit_ready StopAwaitServing d = serving d"
| "exit_ready StopWait d = serveDone d"
| "exit_ready _ d = True"

fun exit_do :: "exitCall \<Rightarrow> health \<Rightarrow> health" where
  "exit_do CancelWatcher d = d\<lparr>watcherCancelled := True\<rparr>"
| "exit_do StopCloseListener d = d\<lparr>listenerClosed := True\<rparr>"
| "exit_do StopShutdown d = d\<lparr>shutdownCalled := True\<rparr>"
| "exit_do _ d = d"

text \<open>The shutdown watcher wakes up when its context is over, and marks the state on a signal.\<close>

definition watcher_wakes :: "health \<Rightarrow> bool" where
  "watcher_wakes d = (watcherRunning d \<and> (ctxDone d \<or> watcherCancelled d))"

definition shutdownWatcher :: "health \<Rightarrow> health" where
  "shutdownWatcher d =
     d\<lparr>watcherRunning := False, flags := (if ctxDone d then MarkShuttingDown (flags d) else flags d)\<rparr>"

lemmas watcher_defs = watcher_wakes_def shutdownWatcher_def

text \<open>
  The steps that bring the end of \<^verbatim>\<open>run\<close> closer: the deferred calls, the watcher, and the server
  goroutine, whose Serve returns once its listener is closed or it is shut down.
\<close>

inductive exit_step :: "health \<Rightarrow> health \<Rightarrow> bool" where
  deferred_call: "returning d \<Longrightarrow> exits d = c # cs \<Longrightarrow> exit_ready c d \<Longrightarrow> exit_step d ((exit_do c d)\<lparr>exits := cs\<rparr>)"
| watch: "watcher_wakes d \<Longrightarrow> exit_step d (shutdownWatcher d)"
| begin_serving: "\<not> serving d \<Longrightarrow> exit_step d (d\<lparr>serving := True\<rparr>)"
| serve_returns: "serving d \<Longrightarrow> \<not> serveDone d \<Longrightarrow> listenerClosed d \<or> shutdownCalled d \<Longrightarrow>
    exit_step d (d\<lparr>serveDone := True\<rparr>)"

text \<open>All steps.\<close>

inductive step :: "health \<Rightarrow> health \<Rightarrow> bool" where
  exiting: "exit_step d d' \<Longrightarrow> step d d'"
| synced: "pending d = t # ts \<Longrightarrow> step d (d\<lparr>flags := mark t (flags d), pending := ts\<rparr>)"
| sync_failed: "step d (d\<lparr>pending := []\<rparr>)"
| signal: "step d (d\<lparr>ctxDone := True\<rparr>)"
| run_returns: "step d (d\<lparr>returning := True\<rparr>)"
| serve_failed: "serving d \<Longrightarrow> step d (d\<lparr>serveDone := True\<rparr>)"
| request: "step d (d\<lparr>handlers := (handlers d)(i := readyz_step (flags d) (handlers d i))\<rparr>)"

lemmas exit_stepE = exit_step.cases [unfolded watcher_defs]
lemmas exit_step_induct = exit_step.induct [unfolded watcher_defs, consumes 1, case_names deferred_call watch begin_serving serve_returns]
inductive_cases stepE: "step d d'"

definition reachable :: "health \<Rightarrow> bool" where
  "reachable d \<longleftrightarrow> step\<^sup>*\<^sup>* Start d"

subsection \<open>Invariants\<close>

text \<open>
  The informers are marked in the order of the targets, a handler that has passed a flag finds it
  set, the exit calls are made in order, and the watcher ends only after a cancellation.
\<close>

definition handler_ok :: "server \<Rightarrow> handler \<Rightarrow> bool" where
  "handler_ok s h =
     (case h of
        AtShutdown \<Rightarrow> True
      | AtPolicy \<Rightarrow> True
      | AtNetDef \<Rightarrow> policySynced s
      | AtNS \<Rightarrow> policySynced s \<and> netdefSynced s
      | Answered r \<Rightarrow> status r = 200 \<longrightarrow> AllSynced s)"

definition exits_ok :: "health \<Rightarrow> bool" where
  "exits_ok d \<longleftrightarrow>
     (\<exists>done. exitCalls = done @ exits d \<and>
       (CancelWatcher \<in> set done \<longrightarrow> watcherCancelled d) \<and>
       (WaitWatcher \<in> set done \<longrightarrow> \<not> watcherRunning d) \<and>
       (StopCloseListener \<in> set done \<longrightarrow> listenerClosed d) \<and>
       (StopWait \<in> set done \<longrightarrow> serveDone d))"

definition sync_ok :: "server \<Rightarrow> informer list \<Rightarrow> bool" where
  "sync_ok s ts \<longleftrightarrow>
     (netdefSynced s \<longrightarrow> policySynced s) \<and> (nsSynced s \<longrightarrow> netdefSynced s) \<and>
     (ts = targets \<or> ts = [NetDefInformer, NSInformer] \<and> policySynced s \<or>
      ts = [NSInformer] \<and> netdefSynced s \<or> ts = [])"

definition health_inv :: "health \<Rightarrow> bool" where
  "health_inv d \<longleftrightarrow> (\<forall>i. handler_ok (flags d) (handlers d i)) \<and> sync_ok (flags d) (pending d) \<and>
     (shuttingDown (flags d) \<longrightarrow> ctxDone d) \<and> exits_ok d \<and> (serveDone d \<longrightarrow> serving d)"

lemmas mark_defs = MarkPolicySynced_def MarkNetDefSynced_def MarkNSSynced_def MarkShuttingDown_def

definition grows :: "server \<Rightarrow> server \<Rightarrow> bool" where
  "grows s s' \<longleftrightarrow> (policySynced s \<longrightarrow> policySynced s') \<and> (netdefSynced s \<longrightarrow> netdefSynced s') \<and>
     (nsSynced s \<longrightarrow> nsSynced s') \<and> (shuttingDown s \<longrightarrow> shuttingDown s')"

lemma handler_ok_grows: "handler_ok s h \<Longrightarrow> grows s s' \<Longrightarrow> handler_ok s' h"
  by (auto simp: handler_ok_def grows_def AllSynced_def split: handler.splits)

lemma handler_ok_step: "handler_ok s h \<Longrightarrow> handler_ok s (readyz_step s h)"
  by (cases h) (auto simp: handler_ok_def AllSynced_def)

lemma exit_do_simps [simp]:
  "flags (exit_do c d) = flags d" "pending (exit_do c d) = pending d" "ctxDone (exit_do c d) = ctxDone d"
  "watcherRunning (exit_do c d) = watcherRunning d" "serving (exit_do c d) = serving d"
  "serveDone (exit_do c d) = serveDone d" "returning (exit_do c d) = returning d"
  "handlers (exit_do c d) = handlers d"
  "watcherCancelled (exit_do c d) \<longleftrightarrow> watcherCancelled d \<or> c = CancelWatcher"
  "listenerClosed (exit_do c d) \<longleftrightarrow> listenerClosed d \<or> c = StopCloseListener"
  by (cases c; simp)+

lemma grows_mark: "grows s (mark t s)" "grows s (MarkShuttingDown s)" "grows s s"
  by (cases t; simp add: grows_def mark_defs)+

lemma step_grows: "step d d' \<Longrightarrow> grows (flags d) (flags d')"
  by (induction rule: step.induct) (auto elim!: exit_stepE simp: grows_mark)

lemma exits_ok_call:
  assumes "exits_ok d" "exits d = c # cs" "exit_ready c d"
  shows "exits_ok ((exit_do c d)\<lparr>exits := cs\<rparr>)"
proof -
  obtain done' where "exitCalls = done' @ c # cs" "CancelWatcher \<in> set done' \<longrightarrow> watcherCancelled d"
    "WaitWatcher \<in> set done' \<longrightarrow> \<not> watcherRunning d" "StopCloseListener \<in> set done' \<longrightarrow> listenerClosed d"
    "StopWait \<in> set done' \<longrightarrow> serveDone d"
    using assms(1,2) by (auto simp: exits_ok_def)
  with assms(3) show ?thesis unfolding exits_ok_def
    by (intro exI [of _ "done' @ [c]"]) auto
qed

lemma exits_ok_exit_step: "exit_step d d' \<Longrightarrow> exits_ok d \<Longrightarrow> exits_ok d'"
proof (induction rule: exit_step_induct)
  case (deferred_call d c cs)
  then show ?case by (simp add: exits_ok_call)
qed (auto simp: exits_ok_def)

lemma sync_ok_MarkShuttingDown [simp]: "sync_ok (MarkShuttingDown s) ts = sync_ok s ts"
  by (simp add: sync_ok_def MarkShuttingDown_def)

lemma sync_ok_mark: "sync_ok s (t # ts) \<Longrightarrow> sync_ok (mark t s) ts"
  by (cases t) (auto simp: sync_ok_def targets_def mark_defs)

lemma shuttingDown_mark [simp]: "shuttingDown (mark t s) = shuttingDown s"
  by (cases t) (simp_all add: mark_defs)

lemma health_inv_Start: "health_inv Start"
  by (auto simp: health_inv_def exits_ok_def Start_def NewServer_def handler_ok_def sync_ok_def intro!: exI [of _ "[]"])

lemma health_inv_exit_step:
  assumes st: "exit_step d d'" and inv: "health_inv d"
  shows "health_inv d'"
proof -
  have exits: "exits_ok d'" using exits_ok_exit_step [OF st] inv by (simp add: health_inv_def)
  have same: "handlers d' = handlers d" "pending d' = pending d" "ctxDone d' = ctxDone d"
    using st by (auto elim!: exit_stepE)
  have serve: "serveDone d' \<longrightarrow> serving d'"
    using st inv unfolding health_inv_def by (auto elim!: exit_stepE)
  have "flags d' = flags d \<or> flags d' = MarkShuttingDown (flags d) \<and> ctxDone d"
    using st by (auto elim!: exit_stepE split: if_splits)
  then have "sync_ok (flags d') (pending d') \<and> (shuttingDown (flags d') \<longrightarrow> ctxDone d')"
    using inv same by (auto simp: health_inv_def)
  moreover have "grows (flags d) (flags d')" by (rule step_grows [OF exiting [OF st]])
  ultimately show ?thesis
    using exits serve same inv handler_ok_grows [of "flags d" _ "flags d'"] by (simp add: health_inv_def)
qed

lemma exits_ok_others [simp]:
  "exits_ok (d\<lparr>flags := f\<rparr>) = exits_ok d" "exits_ok (d\<lparr>pending := ts\<rparr>) = exits_ok d"
  "exits_ok (d\<lparr>ctxDone := b\<rparr>) = exits_ok d" "exits_ok (d\<lparr>returning := b\<rparr>) = exits_ok d"
  "exits_ok (d\<lparr>handlers := h\<rparr>) = exits_ok d" "exits_ok d \<Longrightarrow> exits_ok (d\<lparr>serveDone := True\<rparr>)"
  by (auto simp: exits_ok_def)

lemma health_inv_step: "step d d' \<Longrightarrow> health_inv d \<Longrightarrow> health_inv d'"
proof (induction rule: step.induct)
  case (exiting d d')
  then show ?case by (rule health_inv_exit_step)
next
  case (synced d t ts)
  then show ?case
    using handler_ok_grows [OF _ grows_mark(1)] sync_ok_mark by (simp add: health_inv_def)
next
  case (request d i)
  then show ?case by (simp add: health_inv_def handler_ok_step)
qed (simp_all add: health_inv_def sync_ok_def)

lemma health_inv_reachable: "reachable d \<Longrightarrow> health_inv d"
  unfolding reachable_def
  by (induction rule: rtranclp_induct) (auto intro: health_inv_Start health_inv_step)

subsection \<open>Properties of the readiness answers\<close>

text \<open>
  C28. The readiness state is consistent in every reachable state, however the goroutines
  interleave: a request answered with 200 means that all three informers have synced, the
  informers are marked in the order policies, network attachment definitions, namespaces, and the
  shutdown flag is set only after a shutdown signal.
\<close>

theorem readyz_sound:
  assumes "reachable d"
  shows "(\<forall>i b. handlers d i = Answered (Response 200 b) \<longrightarrow> AllSynced (flags d)) \<and>
     (nsSynced (flags d) \<longrightarrow> AllSynced (flags d)) \<and> (netdefSynced (flags d) \<longrightarrow> policySynced (flags d)) \<and>
     (shuttingDown (flags d) \<longrightarrow> ctxDone d)"
proof -
  note inv = health_inv_reachable [OF assms]
  have "AllSynced (flags d)" if "handlers d i = Answered (Response 200 b)" for i b
  proof -
    from inv have "handler_ok (flags d) (handlers d i)" by (simp add: health_inv_def)
    with that show ?thesis by (simp add: handler_ok_def)
  qed
  with inv show ?thesis by (auto simp: health_inv_def sync_ok_def AllSynced_def)
qed

text \<open>
  C15. Readiness ends with the shutdown: a request whose handler starts after the shutdown flag has
  been set is never answered with 200, whatever happens in between.
\<close>

theorem readyz_after_shutdown:
  assumes "step\<^sup>*\<^sup>* d d'" and "shuttingDown (flags d)" and "handlers d i = AtShutdown"
  shows "handlers d' i \<in> {AtShutdown, Answered (Response 503 ''shutting down'')}"
proof -
  have "shuttingDown (flags d') \<and> handlers d' i \<in> {AtShutdown, Answered (Response 503 ''shutting down'')}"
    using assms
  proof (induction rule: rtranclp_induct)
    case (step d1 d2)
    have "shuttingDown (flags d2)" using step step_grows by (auto simp: grows_def)
    moreover have "handlers d2 i = handlers d1 i \<or> handlers d2 i = readyz_step (flags d1) (handlers d1 i)"
      using step.hyps(2) by (auto elim!: stepE exit_stepE)
    ultimately show ?case using step by auto
  qed simp
  then show ?thesis by blast
qed

text \<open>
  The runnable that waits for the informers makes the daemon ready exactly when it succeeds:
  started on a new state, it returns without an error if and only if \<^verbatim>\<open>/readyz\<close> then answers 200.
\<close>

lemma healthSync_ready:
  "fst (healthSync_Start getInformer NewServer) = Inr () \<longleftrightarrow>
     readyz (snd (healthSync_Start getInformer NewServer)) = Response 200 ''ok''"
  by (auto simp: healthSync_Start_def targets_def comp_simps NewServer_def readyz_def AllSynced_def mark_defs
      split: sum.splits)

subsection \<open>The end of run\<close>

definition exit_measure :: "health \<Rightarrow> nat" where
  "exit_measure d = length (exits d) + (if watcherRunning d then 1 else 0) + (if serving d then 0 else 1) +
     (if serveDone d then 0 else 1)"

lemma exit_step_measure: "exit_step d d' \<Longrightarrow> exit_measure d' < exit_measure d"
  by (induction rule: exit_step_induct) (auto simp: exit_measure_def)

lemma exit_step_returning: "exit_step d d' \<Longrightarrow> returning d' = returning d"
  by (auto elim!: exit_stepE)

text \<open>Whenever a deferred call has to wait, the goroutine it waits for can make a step.\<close>

lemma exit_progress:
  assumes "health_inv d" "returning d" "exits d \<noteq> []"
  shows "\<exists>d'. exit_step d d'"
proof -
  obtain c cs where c: "exits d = c # cs" using assms(3) by (cases "exits d") auto
  show ?thesis
  proof (cases "exit_ready c d")
    case True
    then show ?thesis using deferred_call [OF assms(2) c] by blast
  next
    case False
    from assms(1) obtain pre where pre: "exitCalls = pre @ c # cs"
      "CancelWatcher \<in> set pre \<longrightarrow> watcherCancelled d" "StopCloseListener \<in> set pre \<longrightarrow> listenerClosed d"
      by (auto simp: health_inv_def exits_ok_def c)
    from False consider "c = WaitWatcher" "watcherRunning d" | "c = StopAwaitServing" "\<not> serving d"
      | "c = StopWait" "\<not> serveDone d"
      by (cases c) auto
    then show ?thesis
    proof cases
      case 1
      with pre have "watcherCancelled d"
        by (auto simp: exitCalls_def deferStatements_def Stop_def Cons_eq_append_conv)
      with 1 show ?thesis using watch [of d] by (auto simp: watcher_wakes_def)
    next
      case 2
      then show ?thesis using begin_serving by blast
    next
      case 3
      with pre have "listenerClosed d"
        by (auto simp: exitCalls_def deferStatements_def Stop_def Cons_eq_append_conv)
      with 3 show ?thesis using begin_serving serve_returns by (cases "serving d") blast+
    qed
  qed
qed

lemma exit_invs:
  assumes "exit_step\<^sup>*\<^sup>* d d'" "health_inv d" "returning d"
  shows "health_inv d' \<and> returning d'"
  using assms by (induction rule: rtranclp_induct) (auto simp: health_inv_exit_step exit_step_returning)

lemma exit_finishes:
  assumes "health_inv d" "returning d"
  shows "\<exists>d'. exit_step\<^sup>*\<^sup>* d d' \<and> exits d' = []"
  using assms
proof (induction "exit_measure d" arbitrary: d rule: less_induct)
  case less
  show ?case
  proof (cases "exits d = []")
    case False
    with exit_progress [OF less.prems] obtain d1 where d1: "exit_step d d1" by blast
    from less.hyps [OF exit_step_measure [OF d1]] less.prems d1
    obtain d' where "exit_step\<^sup>*\<^sup>* d1 d'" "exits d' = []"
      using health_inv_exit_step exit_step_returning by blast
    with d1 show ?thesis by (meson converse_rtranclp_into_rtranclp)
  qed auto
qed

text \<open>
  C11. The daemon ends: once \<^verbatim>\<open>run\<close> returns, its deferred calls, the shutdown watcher and the server
  goroutine cannot deadlock, in whatever order they are scheduled. They have no infinite run, they
  can make a step until all deferred calls have been made, and when none of them can make a step
  any more all calls are made and neither goroutine is left running. Cancelling the watcher
  context before waiting for the watcher is what makes this hold without a shutdown signal.
\<close>

theorem run_exit_terminates:
  assumes "reachable d" and "returning d"
  shows "wfP (\<lambda>d2 d1. exit_step d1 d2) \<and>
     (\<exists>d'. exit_step\<^sup>*\<^sup>* d d' \<and> exits d' = []) \<and>
     (\<forall>d'. exit_step\<^sup>*\<^sup>* d d' \<and> (\<nexists>d''. exit_step d' d'') \<longrightarrow> exits d' = [] \<and> \<not> watcherRunning d' \<and> serveDone d')"
proof (intro conjI allI impI)
  show "wfP (\<lambda>d2 d1. exit_step d1 d2)"
    by (rule wfp_if_convertible_to_nat [of _ exit_measure]) (rule exit_step_measure)
  note inv = health_inv_reachable [OF assms(1)]
  show "\<exists>d'. exit_step\<^sup>*\<^sup>* d d' \<and> exits d' = []" by (rule exit_finishes [OF inv assms(2)])
  fix d' assume d': "exit_step\<^sup>*\<^sup>* d d' \<and> (\<nexists>d''. exit_step d' d'')"
  then have inv': "health_inv d'" "returning d'" using exit_invs [OF _ inv assms(2)] by blast+
  with d' exit_progress show none: "exits d' = []" by blast
  then have "exits_ok d'" "exits d' = []" using inv' by (auto simp: health_inv_def)
  then show "\<not> watcherRunning d'" "serveDone d'"
    by (auto simp: exits_ok_def exitCalls_def deferStatements_def Stop_def)
qed

subsection \<open>Schedules\<close>

text \<open>An executable schedule: the steps of the goroutines that change the flags and of the requests.\<close>

datatype act = Sync | Signal | Watch | Return | Load nat

fun act_do :: "act \<Rightarrow> health \<Rightarrow> health" where
  "act_do Sync d = (case pending d of [] \<Rightarrow> d | t # ts \<Rightarrow> d\<lparr>flags := mark t (flags d), pending := ts\<rparr>)"
| "act_do Signal d = d\<lparr>ctxDone := True\<rparr>"
| "act_do Watch d = (if watcher_wakes d then shutdownWatcher d else d)"
| "act_do Return d = d\<lparr>returning := True\<rparr>"
| "act_do (Load i) d = d\<lparr>handlers := (handlers d)(i := readyz_step (flags d) (handlers d i))\<rparr>"

fun schedule :: "act list \<Rightarrow> health \<Rightarrow> health list" where
  "schedule [] d = [d]"
| "schedule (a # as) d = d # schedule as (act_do a d)"

lemma act_do_step: "step\<^sup>=\<^sup>= d (act_do a d)"
proof (cases a)
  case Sync
  then show ?thesis using synced [of d] by (cases "pending d") auto
next
  case Watch
  then show ?thesis using exiting [OF watch [of d]] by auto
qed (auto intro: step.intros)

lemma hd_schedule: "schedule as d \<noteq> []" "hd (schedule as d) = d"
  by (cases as; simp)+

lemma schedule_steps: "step\<^sup>*\<^sup>* d (last (schedule as d))"
proof (induction as arbitrary: d)
  case Nil
  then show ?case by simp
next
  case (Cons a as)
  have "step\<^sup>*\<^sup>* d (act_do a d)" using act_do_step [of d a] by auto
  also have "step\<^sup>*\<^sup>* (act_do a d) (last (schedule (a # as) d))" using Cons.IH [of "act_do a d"] hd_schedule by simp
  finally show ?case .
qed

lemma reachable_schedule: "reachable (last (schedule as Start))"
  by (simp add: reachable_def schedule_steps)

theorem readyz_sound_witness:
  "AllSynced (flags (last (schedule [Sync, Sync, Load 0, Sync, Load 0, Load 0, Load 0] Start)))"
proof -
  let ?d = "last (schedule [Sync, Sync, Load 0, Sync, Load 0, Load 0, Load 0] Start)"
  have "handlers ?d 0 = Answered (Response 200 ''ok'')" by code_simp
  then show ?thesis using readyz_sound [OF reachable_schedule] by blast
qed

theorem readyz_after_shutdown_witness:
  "handlers (last (schedule [Sync, Sync, Sync, Load 0, Load 0, Load 0, Load 0] (last (schedule [Signal, Watch] Start)))) 0
     \<in> {AtShutdown, Answered (Response 503 ''shutting down'')}"
  by (rule readyz_after_shutdown [OF schedule_steps]) code_simp+

theorem run_exit_terminates_witness:
  "\<exists>d'. exit_step\<^sup>*\<^sup>* (last (schedule [Sync, Return] Start)) d' \<and> exits d' = [] \<and> \<not> ctxDone (last (schedule [Sync, Return] Start))"
proof -
  have "returning (last (schedule [Sync, Return] Start))" "\<not> ctxDone (last (schedule [Sync, Return] Start))" by code_simp+
  then show ?thesis using run_exit_terminates [OF reachable_schedule] by blast
qed

text \<open>
  C38. The answer of \<^verbatim>\<open>/readyz\<close> is not atomic. The documentation promises 200 only while all
  informers have synced and the daemon is not shutting down; there is a run in which a request is
  answered with 200 although no state of the run is ready: the shutdown starts after the handler
  has loaded the shutdown flag and before the last informer syncs.
\<close>

theorem readyz_not_atomic:
  "\<exists>as. (let run = schedule as Start in
     handlers (last run) 0 = Answered (Response 200 ''ok'') \<and>
     list_all (\<lambda>d. status (readyz (flags d)) = 503) run \<and> step\<^sup>*\<^sup>* Start (last run))"
proof (intro exI)
  let ?as = "[Sync, Sync, Load 0, Signal, Watch, Sync, Load 0, Load 0, Load 0]"
  have "handlers (last (schedule ?as Start)) 0 = Answered (Response 200 ''ok'')" by code_simp
  moreover have "list_all (\<lambda>d. status (readyz (flags d)) = 503) (schedule ?as Start)" by code_simp
  ultimately show "let run = schedule ?as Start in
     handlers (last run) 0 = Answered (Response 200 ''ok'') \<and>
     list_all (\<lambda>d. status (readyz (flags d)) = 503) run \<and> step\<^sup>*\<^sup>* Start (last run)"
    by (simp add: Let_def schedule_steps del: schedule.simps)
qed

subsection \<open>An abstract view of readiness\<close>

text \<open>What the orchestrator sees: the daemon starts, becomes ready, and stops; there is no way back.\<close>

datatype phase = Starting | Available | Stopping

inductive phase_step :: "phase \<Rightarrow> phase \<Rightarrow> bool" where
  "phase_step Starting Available"
| "phase_step Starting Stopping"
| "phase_step Available Stopping"

definition phase_of :: "server \<Rightarrow> phase" where
  "phase_of s = (if shuttingDown s then Stopping else if AllSynced s then Available else Starting)"

fun phase_answer :: "phase \<Rightarrow> response" where
  "phase_answer Starting = Response 503 ''not ready''"
| "phase_answer Available = Response 200 ''ok''"
| "phase_answer Stopping = Response 503 ''shutting down''"

text \<open>
  C14. The goroutines refine the three-phase view: every step of the daemon, whichever goroutine
  makes it, leaves the phase alone or moves it forward, and a handler that is not interrupted
  answers according to the phase.
\<close>

theorem health_refines_phases:
  assumes "step d d'"
  shows "phase_step\<^sup>=\<^sup>= (phase_of (flags d)) (phase_of (flags d')) \<and>
    (readyz_step (flags d) ^^ 4) AtShutdown = Answered (phase_answer (phase_of (flags d)))"
proof -
  have "phase_step\<^sup>=\<^sup>= (phase_of (flags d)) (phase_of (flags d'))"
    using step_grows [OF assms] by (auto simp: phase_of_def grows_def AllSynced_def phase_step.simps)
  moreover have "(readyz_step s ^^ 4) AtShutdown = Answered (phase_answer (phase_of s))" for s
    by (simp add: numeral_eq_Suc phase_of_def AllSynced_def)
  ultimately show ?thesis by blast
qed

theorem health_refines_phases_witness:
  "phase_step\<^sup>=\<^sup>= (phase_of (flags Start)) (phase_of (flags (Start\<lparr>flags := mark PolicyInformer (flags Start),
     pending := [NetDefInformer, NSInformer]\<rparr>)))"
  using health_refines_phases [OF synced [of Start PolicyInformer "[NetDefInformer, NSInformer]"]]
  by (simp add: Start_def targets_def)

end
