(* ===== verification/Daemon.thy ===== *)
theory Daemon
  imports Shutdown Options Health
begin

text \<open>
  The command (\<^verbatim>\<open>cmd/multi-networkpolicy-nftables/main.go\<close>): building the configuration, starting
  the manager that runs the reconciler, and the cleanup afterwards. What is not code of the
  repository (client configuration, manager, listener, direct client) is a field of a record of
  outcomes. The properties speak about the network namespaces over the whole life of the process.
\<close>

subsection \<open>The command\<close>

text \<open>
  The requests the manager hands to the reconciler while it runs, in order, the error its Start
  returns, and whether the signal context is cancelled by then; the other fields are outcomes of
  single calls.
\<close>

record 'k world =
  getHostname :: "string \<Rightarrow> string result"
  inClusterConfig :: "unit result"
  clientConfig :: "string \<Rightarrow> string \<Rightarrow> unit result"
  setupScheme :: "unit result"
  newManager :: "u64 \<Rightarrow> unit result"
  setupIndexes :: "unit result"
  addRunnable :: "unit result"
  listen :: "string \<Rightarrow> unit result"
  setupReconciler :: "unit result"
  newDirectClient :: "(string \<Rightarrow> pod list result) result"
  requests :: "namespacedName list"
  startErr :: "go_error option"
  ctxCancelled :: bool
  cleanupCtxErr :: "nat \<Rightarrow> go_error option"
  closeResult :: "unit result"
  clusterOf :: "'k cluster"

text \<open>
  The manager runs the reconciler on one request after another; an error or a panic of a run is
  logged and does not end it.
\<close>

definition runManager :: "'k cluster \<Rightarrow> 'k nodeReconciler \<Rightarrow> namespacedName list \<Rightarrow> ('k node, unit) comp" where
  "runManager C R reqs = for_each reqs (\<lambda>req. modify (\<lambda>s. snd (Reconcile C R req s)))"

text \<open>\<^verbatim>\<open>mgr.Start\<close> is the first argument; its error is a value, since the function goes on after some errors.\<close>

definition startManagerAndCleanup ::
  "('s, go_error option) comp \<Rightarrow> bool \<Rightarrow> ('s, unit) comp \<Rightarrow> ('s, unit) comp" where
  "startManagerAndCleanup start ctxOver cleanupFn =
     seq start (\<lambda>startErr.
     case startErr of
       Some e \<Rightarrow>
         if \<not> ctxOver then fail e
         else
           seq (attempt cleanupFn) (\<lambda>r.
           fail (Joined (e # (case r of Inl e' \<Rightarrow> [e'] | Inr _ \<Rightarrow> []))))
     | None \<Rightarrow>
         seq (attempt cleanupFn) (\<lambda>r.
         case r of Inl e' \<Rightarrow> fail (Joined [e']) | Inr _ \<Rightarrow> ret ()))"

definition syncDuration :: "int \<Rightarrow> u64" where
  "syncDuration seconds = of_int seconds * 1000000000"

definition buildRestConfig :: "'k world \<Rightarrow> ReconcilerConfig \<Rightarrow> unit result" where
  "buildRestConfig W cfg =
     (if rcKubeconfig cfg = [] then inClusterConfig W else clientConfig W (rcKubeconfig cfg) (rcMaster cfg))"

definition reconcilerOf :: "ReconcilerConfig \<Rightarrow> 'k nodeReconciler" where
  "reconcilerOf cfg = \<lparr>NodeName = rcNodeName cfg, HostPrefix = rcHostPrefix cfg, NetworkPlugins = rcNetworkPlugins cfg,
     CommonCfg = rcCommonRuleConfig cfg, ContainerRuntimeEndpoint = rcContainerRuntimeEndpoint cfg,
     PolicyDeps = None, ApplyRulesForPodFunc = None\<rparr>"

text \<open>The part of \<^verbatim>\<open>run\<close> after the reconciler exists; closing the runtime connection is deferred.\<close>

definition runReconciler :: "'k world \<Rightarrow> 'k nodeReconciler \<Rightarrow> ('k node, unit) comp" where
  "runReconciler W R =
     deferred (\<lambda>s. snd (CloseCRI (closeResult W) s))
       (seq (wrapped ''setup reconciler'' (lift_result (setupReconciler W))) (\<lambda>_.
        seq (wrapped ''create direct client for cleanup'' (lift_result (newDirectClient W))) (\<lambda>directPods.
        startManagerAndCleanup
          (seq (runManager (clusterOf W) R (requests W)) (\<lambda>_. ret (startErr W)))
          (ctxCancelled W)
          (CleanupOnShutdown (clusterOf W) R directPods (cleanupCtxErr W)))))"

definition run :: "'k world \<Rightarrow> options \<Rightarrow> ('k node, unit) comp" where
  "run W opts =
     seq (wrapped ''build reconciler config'' (lift_result (fst (BuildReconcilerConfig (getHostname W) opts)))) (\<lambda>cfg.
     seq (wrapped ''build kubeconfig'' (lift_result (buildRestConfig W cfg))) (\<lambda>_.
     seq (wrapped ''setup scheme'' (lift_result (setupScheme W))) (\<lambda>_.
     seq (wrapped ''create manager'' (lift_result (newManager W (syncDuration (SyncPeriodSeconds cfg))))) (\<lambda>_.
     seq (wrapped ''setup indexes'' (lift_result (setupIndexes W))) (\<lambda>_.
     seq (wrapped ''add health sync runnable'' (lift_result (addRunnable W))) (\<lambda>_.
     seq (if HealthEnabled opts then wrapped ''start health server''
            (wrapped ''health server failed to listen'' (lift_result (listen W (HealthAddr opts)))) else ret ()) (\<lambda>_.
     runReconciler W (reconcilerOf cfg))))))))"

text \<open>The exit status of the process.\<close>

definition main :: "'k world \<Rightarrow> options \<Rightarrow> 'k node \<Rightarrow> nat \<times> 'k node" where
  "main W opts s = (case run W opts s of (Inl e, s') \<Rightarrow> (1, s') | (Inr _, s') \<Rightarrow> (0, s'))"

subsection \<open>Over the life of the process\<close>

lemma everywhere_modify_keeps: "keeps (everywhere I) m \<Longrightarrow> keeps (everywhere I) (modify (\<lambda>s. snd (m s)))"
  by (simp add: keeps_def modify_def)

lemma everywhere_CloseCRI: "keeps (everywhere I) (CloseCRI r)"
  unfolding CloseCRI_def by (intro keeps_intros keeps_modify) simp

lemma keeps_deferred: "keeps P m \<Longrightarrow> (\<And>s. P s \<Longrightarrow> P (f s)) \<Longrightarrow> keeps P (deferred f m)"
  by (auto simp: keeps_def deferred_def split: prod.splits)

text \<open>
  C9. Over its whole life the process touches nothing but the daemon's own objects: whatever
  requests the manager processes, whatever fails, and however the process ends, a property of a
  network namespace that is kept by messages about the daemon's two tables, by their deletion and
  by the removal of daemon-owned legacy objects, holds after the process if it held before, in
  every namespace of the node.
\<close>

theorem main_owned:
  assumes "netlink_reads (kern (envOf (clusterOf W)))"
    and "\<And>i k ms. I i k \<Longrightarrow> list_all daemon_msg ms \<or> list_all cleanup_msg ms \<Longrightarrow>
       I i (snd (k_commit (kern (envOf (clusterOf W))) k ms))"
    and "\<And>i. I i (netns s i)"
  shows "I i (netns (snd (main W opts s)) i)"
proof -
  have "keeps (everywhere I) (runReconciler W (reconcilerOf cfg))" for cfg
    unfolding runReconciler_def startManagerAndCleanup_def runManager_def
    by (intro keeps_intros keeps_deferred everywhere_modify_keeps everywhere_Reconcile everywhere_CleanupOnShutdown
        keepsD [OF everywhere_CloseCRI] assms(1,2)) (simp_all add: reconcilerOf_def)
  then have "keeps (everywhere I) (run W opts)"
    unfolding run_def by (intro keeps_intros)
  then have "everywhere I (snd (run W opts s))" using assms(3) by (auto simp: keeps_def everywhere_def)
  then show ?thesis by (auto simp: main_def everywhere_def split: prod.splits sum.splits)
qed

lemma startManagerAndCleanup_ok:
  "startManagerAndCleanup start b m s = (Inr (), s') \<longleftrightarrow>
     (\<exists>s1. start s = (Inr None, s1) \<and> m s1 = (Inr (), s'))"
proof (cases "start s")
  case (Pair r s1)
  obtain r2 s2 where m: "m s1 = (r2, s2)" by force
  consider e where "r = Inl e" | e where "r = Inr (Some e)" | "r = Inr None" by (cases r) auto
  then show ?thesis
  proof cases
    case 2
    then show ?thesis using Pair m by (simp add: startManagerAndCleanup_def comp_simps)
  next
    case 3
    then show ?thesis using Pair m
      by (cases r2) (auto simp: startManagerAndCleanup_def comp_simps)
  qed (simp add: startManagerAndCleanup_def comp_simps Pair)
qed


text \<open>
  C37. A manager that fails without a shutdown signal leaves the rules in place: the process returns
  the manager's error, the cleanup is skipped, and every network namespace is as the last
  reconciliation left it; only the runtime connection is dropped.
\<close>

theorem manager_failure_keeps_rules:
  assumes "setupReconciler W = Inr ()" and "newDirectClient W = Inr directPods"
    and "startErr W = Some e" and "\<not> ctxCancelled W"
  shows "runReconciler W R s = (Inl e, (snd (runManager (clusterOf W) R (requests W) s))\<lparr>criClient := None\<rparr>)"
proof -
  have "runManager (clusterOf W) R reqs s = (Inr (), snd (runManager (clusterOf W) R reqs s))" for reqs
    unfolding runManager_def by (induction reqs arbitrary: s) (simp_all add: comp_simps)
  then obtain s1 where "runManager (clusterOf W) R (requests W) s = (Inr (), s1)" by blast
  with assms show ?thesis
    by (simp add: runReconciler_def startManagerAndCleanup_def comp_simps CloseCRI_def)
qed

subsection \<open>A run of the process on the in-memory kernel\<close>

definition demo_world :: "namespacedName list \<Rightarrow> mem world" where
  "demo_world reqs = \<lparr>getHostname = Inr, inClusterConfig = Inr (), clientConfig = (\<lambda>_ _. Inr ()), setupScheme = Inr (),
     newManager = (\<lambda>_. Inr ()), setupIndexes = Inr (), addRunnable = Inr (), listen = (\<lambda>_. Inr ()),
     setupReconciler = Inr (), newDirectClient = Inr (\<lambda>_. Inr [demo_networks, demo_q]), requests = reqs,
     startErr = None, ctxCancelled = True, cleanupCtxErr = (\<lambda>_. None), closeResult = Inr (),
     clusterOf = demo_cluster memE\<rparr>"

lemma demo_kern: "kern (envOf (clusterOf (demo_world reqs))) = memK"
  by (simp add: demo_world_def demo_cluster_def memE_def)

lemma cleanup_msg_inside: "cleanup_msg x \<Longrightarrow> \<not> outside_table (msg_table x)"
  using daemon_msg_inside [of x]
  by (auto simp: cleanup_msg_def daemon_msg_def managedTables_def outside_table_def filterTable_def natTable_def)

lemma mem_batch_cleanup_outside: "list_all cleanup_msg ms \<Longrightarrow> mem_batch ms m = Some m' \<Longrightarrow> outside m' = outside m"
  by (induction ms arbitrary: m)
    (auto dest: mem_apply_outside [OF cleanup_msg_inside] split: option.splits)

theorem main_owned_witness:
  "outside (netns (snd (main (demo_world [([], ''n1'')]) demo_options (demo_node demo_tables))) 1) = outside demo_tables"
  by (rule main_owned [where I = "\<lambda>_ k. outside k = outside demo_tables"])
    (use mem_batch_outside mem_batch_cleanup_outside in
      \<open>auto simp: demo_kern memK.netlink_reads_axioms mem_commit demo_node_def split: option.splits\<close>)

lemma demo_main: "fst (main (demo_world [([], ''n2'')]) demo_options (demo_node demo_tables)) = 0"
  by code_simp


theorem manager_failure_keeps_rules_witness:
  "runReconciler ((demo_world [([], ''n2'')])\<lparr>startErr := Some (ErrText ''watch''), ctxCancelled := False\<rparr>)
     demo_reconciler (demo_node demo_tables) =
     (Inl (ErrText ''watch''), (demo_node demo_tables)\<lparr>criClient := None\<rparr>)"
  by (subst manager_failure_keeps_rules [where e = "ErrText ''watch''"])
    (simp_all add: demo_world_def runManager_def Reconcile_def demo_reconciler_def comp_simps)

end
