(* ===== verification/Stale.thy ===== *)
theory Stale
  imports Cleanup
begin

text \<open>
  What the removal of unused objects deletes: exactly the rules, sets and chains of the managed
  tables that the last run did not record. The lemmas compute the loops of theory Cleanup to the
  messages they buffer.
\<close>

subsection \<open>The messages of the loops\<close>

definition readable :: "nft_rule \<Rightarrow> bool" where
  "readable r \<longleftrightarrow> rHandle r \<noteq> 0 \<and> \<not> isl (userdata_GetString (rUserData r) TypeComment)"

definition buffered :: "nft_msg list \<Rightarrow> 'k nftState \<Rightarrow> 'k nftState" where
  "buffered ms n = n\<lparr>nft := emit ms (nft n)\<rparr>"

lemma buffered_simps [simp]:
  "buffered ms (buffered ms' n) = buffered (ms' @ ms) n" "buffered [] n = n"
  "nrules (buffered ms n) = nrules n" "nsets (buffered ms n) = nsets n" "nchains (buffered ms n) = nchains n"
  "nfilter (buffered ms n) = nfilter n" "nnat (buffered ms n) = nnat n" "nft (buffered ms n) = emit ms (nft n)"
  by (simp_all add: buffered_def)

definition stale :: "'k env \<Rightarrow> 'k nftState \<Rightarrow> nft_rule \<Rightarrow> bool" where
  "stale E n r \<longleftrightarrow> nrules n (ruleKey (gobT E) r) = None"

definition unused :: "'k nftState \<Rightarrow> nft_set \<Rightarrow> bool" where
  "unused n s \<longleftrightarrow> nsets n (setKey s) = None \<and> \<not> sAnonymous s"

lemma stale_buffered [simp]: "stale E (buffered ms n) = stale E n" "unused (buffered ms n) = unused n"
  by (simp_all add: stale_def unused_def fun_eq_iff)

lemma cleanupRule_eq:
  assumes "readable r"
  shows "cleanupRule E r (b, es) n =
     (if stale E n r then (Inr (True, es), buffered [MsgDelRule r] n) else (Inr (b, es), n))"
proof -
  obtain c where "userdata_GetString (rUserData r) TypeComment = Inr c"
    using assms by (cases "userdata_GetString (rUserData r) TypeComment") (auto simp: readable_def)
  then show ?thesis
    using assms by (simp add: cleanupRule_def hash_rule_eq comp_simps stale_def readable_def DelRule_def buffered_def)
qed

lemma cleanupRule_loop:
  assumes "list_all readable rs"
  shows "for_acc rs (b, es) (cleanupRule E) n =
     (Inr (b \<or> list_ex (stale E n) rs, es), buffered (map MsgDelRule (filter (stale E n) rs)) n)"
  using assms
  by (induction rs arbitrary: b n) (simp_all add: comp_simps cleanupRule_eq)

text \<open>The outcome of a flush of the messages \<open>ms\<close> alone.\<close>

definition committed :: "'k env \<Rightarrow> string \<Rightarrow> nft_msg list \<Rightarrow> 'k nftState \<Rightarrow> unit result \<times> 'k nftState" where
  "committed E t ms n =
     (if ms = [] then (Inr (), n)
      else case k_commit (kern E) (kst (nft n)) ms of
          (None, k') \<Rightarrow> (Inr (), n\<lparr>nft := (nft n)\<lparr>kst := k', messages := [], allocatedIDs := 0\<rparr>\<rparr>)
        | (Some e, k') \<Rightarrow> (Inl (Wrap t (nl_err e)), n\<lparr>nft := (nft n)\<lparr>kst := k', messages := [], allocatedIDs := 0\<rparr>\<rparr>))"

definition idle :: "'k conn \<Rightarrow> bool" where
  "idle c \<longleftrightarrow> messages c = [] \<and> connErr c = None"

lemma flush_buffered:
  assumes "idle (nft n)" "ms \<noteq> []"
  shows "wrapped t (inConn (Flush (kern E))) (buffered ms n) = committed E t ms n"
  using assms
  by (auto simp: committed_def idle_def comp_simps Flush_def Let_def buffered_def emit_def wrap_error_nl_err
      split: option.splits prod.splits)

definition listed :: "'k env \<Rightarrow> 'k nftState \<Rightarrow> nft_table \<Rightarrow> nft_chain \<Rightarrow> nft_rule list" where
  "listed E n table c =
     (case k_rules (kern E) (kst (nft n)) table (cName c) of Inl e \<Rightarrow> [] | Inr rs \<Rightarrow> rs)"

lemma listed_buffered [simp]: "listed E (buffered ms n) = listed E n"
  by (simp add: listed_def fun_eq_iff)

text \<open>Every rule list of the table is answered, and the comments can be read.\<close>

definition answers :: "'k env \<Rightarrow> 'k nftState \<Rightarrow> nft_table \<Rightarrow> nft_chain \<Rightarrow> bool" where
  "answers E n table c \<longleftrightarrow> k_rules (kern E) (kst (nft n)) table (cName c) = Inr (listed E n table c) \<and>
     list_all readable (listed E n table c)"

lemma answers_buffered [simp]: "answers E (buffered ms n) = answers E n"
  by (simp add: answers_def fun_eq_iff)

lemma cleanupRules_chains:
  assumes "list_all (answers E n table) (filter (\<lambda>c. tName (cTable c) = tName table) chs)"
  shows "for_acc chs (b, es) (\<lambda>chain acc.
       if tName (cTable chain) = tName table then
         seq (wrapped t (inConn (GetRules (kern E) table (cName chain)))) (\<lambda>rules.
         for_acc rules acc (cleanupRule E))
       else ret acc) n =
     (let rs = filter (stale E n) (concat (map (listed E n table) (filter (\<lambda>c. tName (cTable c) = tName table) chs)))
      in (Inr (b \<or> rs \<noteq> [], es), buffered (map MsgDelRule rs) n))"
  using assms
proof (induction chs arbitrary: b n)
  case Nil
  then show ?case by (simp add: ret_def)
next
  case (Cons c cs)
  show ?case
  proof (cases "tName (cTable c) = tName table")
    case False
    then show ?thesis using Cons by (simp add: comp_simps)
  next
    case True
    with Cons.prems have a: "answers E n table c" by simp
    let ?m = "buffered (map MsgDelRule (filter (stale E n) (listed E n table c))) n"
    have ex: "list_ex (stale E n) (listed E n table c) \<longleftrightarrow> filter (stale E n) (listed E n table c) \<noteq> []"
      by (simp add: list_ex_iff filter_empty_conv)
    have "list_all (answers E ?m table) (filter (\<lambda>c. tName (cTable c) = tName table) cs)"
      using Cons.prems True by simp
    from Cons.IH [OF this, of "b \<or> list_ex (stale E n) (listed E n table c)"] show ?thesis
      using a True by (simp add: comp_simps GetRules_def answers_def cleanupRule_loop Let_def ex)
  qed
qed

lemma cleanupSets_loop:
  "for_acc ss b (\<lambda>s pf.
     seq (gets nsets) (\<lambda>used.
     if used (setKey s) = None \<and> \<not> sAnonymous s then seq (inConn (DelSet s)) (\<lambda>_. ret True) else ret pf)) n =
   (Inr (b \<or> filter (unused n) ss \<noteq> []), buffered (map MsgDelSet (filter (unused n) ss)) n)"
proof (induction ss arbitrary: b n)
  case (Cons s ss)
  have "inConn (DelSet s) n = (Inr (), buffered [MsgDelSet s] n)"
    by (simp add: comp_simps DelSet_def buffered_def)
  then show ?case using Cons by (simp add: comp_simps unused_def [symmetric])
qed (simp add: ret_def)

lemma cleanupRules_eq:
  fixes n :: "'k nftState"
  assumes "idle (nft n)" and "k_chains (kern E) (kst (nft n)) (tFamily table) = Inr chs"
    and "list_all (answers E n table) (filter (\<lambda>c. tName (cTable c) = tName table) chs)"
    and "k_sets (kern E) (kst (nft n)) table = Inr ss"
  shows "cleanupRules E table n = committed E ''failed to flush rules/sets cleanup''
     (map MsgDelRule (filter (stale E n)
        (concat (map (listed E n table) (filter (\<lambda>c. tName (cTable c) = tName table) chs)))) @
      map MsgDelSet (filter (unused n) ss)) n"
proof -
  let ?rs = "filter (stale E n) (concat (map (listed E n table) (filter (\<lambda>c. tName (cTable c) = tName table) chs)))"
  let ?us = "filter (unused n) ss"
  let ?ms = "map MsgDelRule ?rs @ map MsgDelSet ?us"
  have flush: "seq m (\<lambda>_. ret ()) = m" for m :: "('k nftState, unit) comp"
    by (auto simp: fun_eq_iff comp_simps split: prod.splits sum.splits)
  have "cleanupRules E table n =
     (if ?rs \<noteq> [] \<or> ?us \<noteq> [] then wrapped ''failed to flush rules/sets cleanup'' (inConn (Flush (kern E))) else ret ())
       (buffered ?ms n)"
    unfolding cleanupRules_def
    by (simp add: seq_eq wrapped_eq inConn_eq reads_eq ListChainsOfTableFamily_def GetSets_def assms(2,4)
        cleanupRules_chains [OF assms(3)] cleanupSets_loop Let_def flush
        del: filter_concat filter_empty_conv)
      (auto simp: ret_eq split: prod.splits sum.splits)
  also have "\<dots> = committed E ''failed to flush rules/sets cleanup'' ?ms n"
  proof (cases "?ms = []")
    case True
    then show ?thesis by (simp add: committed_def ret_def)
  next
    case False
    then have "?rs \<noteq> [] \<or> ?us \<noteq> []" by auto
    then show ?thesis using flush_buffered [OF assms(1) False, of "''failed to flush rules/sets cleanup''" E]
      by simp
  qed
  finally show ?thesis .
qed

text \<open>A chain is removed when it is in a managed table, was not recorded, and has no rules.\<close>

definition managed :: "'k nftState \<Rightarrow> nft_chain \<Rightarrow> bool" where
  "managed n c \<longleftrightarrow> tName (cTable c) = tName (nfilter n) \<or> tName (cTable c) = tName (nnat n)"

definition abandoned :: "'k env \<Rightarrow> 'k nftState \<Rightarrow> nft_chain \<Rightarrow> bool" where
  "abandoned E n c \<longleftrightarrow> managed n c \<and> nchains n (chainID c) = None \<and>
     k_rules (kern E) (kst (nft n)) (cTable c) (cName c) = Inr []"

lemma abandoned_buffered [simp]: "managed (buffered ms n) = managed n" "abandoned E (buffered ms n) = abandoned E n"
  by (simp_all add: managed_def abandoned_def fun_eq_iff)

lemma cleanupChain_eq:
  assumes "managed n c \<longrightarrow> \<not> isl (k_rules (kern E) (kst (nft n)) (cTable c) (cName c))"
    and "nfilter n0 = nfilter n" "nnat n0 = nnat n"
  shows "cleanupChain E n0 c b n =
     (if abandoned E n c then (Inr True, buffered [MsgDelChain c] n) else (Inr b, n))"
proof (cases "managed n c")
  case False
  with assms show ?thesis by (simp add: cleanupChain_def abandoned_def managed_def ret_def)
next
  case True
  with assms(1) obtain rs where rs: "k_rules (kern E) (kst (nft n)) (cTable c) (cName c) = Inr rs"
    by (cases "k_rules (kern E) (kst (nft n)) (cTable c) (cName c)") auto
  with True assms(2,3) show ?thesis
    by (auto simp: cleanupChain_def abandoned_def managed_def comp_simps GetRules_def DelChain_def buffered_def)
qed

lemma cleanupChains_loop:
  assumes "list_all (\<lambda>c. managed n c \<longrightarrow> \<not> isl (k_rules (kern E) (kst (nft n)) (cTable c) (cName c))) chs"
    and "nfilter n0 = nfilter n" "nnat n0 = nnat n"
  shows "for_acc chs b (cleanupChain E n0) n =
     (Inr (b \<or> filter (abandoned E n) chs \<noteq> []), buffered (map MsgDelChain (filter (abandoned E n) chs)) n)"
  using assms
  by (induction chs arbitrary: b n) (simp_all add: comp_simps cleanupChain_eq)

lemma cleanupChains_eq:
  fixes n :: "'k nftState"
  assumes "idle (nft n)" and "k_chains (kern E) (kst (nft n)) TableFamilyINet = Inr chs"
    and "list_all (\<lambda>c. managed n c \<longrightarrow> \<not> isl (k_rules (kern E) (kst (nft n)) (cTable c) (cName c))) chs"
  shows "cleanupChains E n =
     committed E ''failed to flush chains cleanup'' (map MsgDelChain (filter (abandoned E n) chs)) n"
proof -
  have "cleanupChains E n =
     (if filter (abandoned E n) chs \<noteq> [] then wrapped ''failed to flush chains cleanup'' (inConn (Flush (kern E))) else ret ())
       (buffered (map MsgDelChain (filter (abandoned E n) chs)) n)"
    unfolding cleanupChains_def
    by (simp add: seq_eq wrapped_eq inConn_eq reads_eq gets_eq ListChainsOfTableFamily_def assms(2)
        cleanupChains_loop [OF assms(3) refl refl] del: filter_empty_conv)
  also have "\<dots> = committed E ''failed to flush chains cleanup'' (map MsgDelChain (filter (abandoned E n) chs)) n"
    using flush_buffered [OF assms(1)] by (simp add: committed_def ret_def del: filter_empty_conv)
  finally show ?thesis .
qed

subsection \<open>Properties of the removal\<close>

text \<open>
  C7. Removing unused rules and sets of a table is exact: when the kernel answers the list
  requests, cleanupRules sends one batch that deletes, in listing order, every rule of the table's
  chains whose key the last run did not record and then every named set that it did not record,
  and nothing else. With nothing to delete it sends nothing; an error of the kernel is returned.
\<close>

theorem cleanupRules_exact:
  assumes "messages (nft n) = []" and "connErr (nft n) = None"
    and "k_chains (kern E) (kst (nft n)) (tFamily table) = Inr chs"
    and "\<And>c. c \<in> set chs \<Longrightarrow> tName (cTable c) = tName table \<Longrightarrow>
       k_rules (kern E) (kst (nft n)) table (cName c) = Inr (rulesOf (cName c)) \<and> list_all readable (rulesOf (cName c))"
    and "k_sets (kern E) (kst (nft n)) table = Inr ss"
  shows "cleanupRules E table n =
     (let own = filter (\<lambda>c. tName (cTable c) = tName table) chs;
          deletions = map MsgDelRule (filter (\<lambda>r. nrules n (ruleKey (gobT E) r) = None) (concat (map (rulesOf \<circ> cName) own))) @
            map MsgDelSet (filter (\<lambda>s. nsets n (setKey s) = None \<and> \<not> sAnonymous s) ss) in
      if deletions = [] then (Inr (), n)
      else case k_commit (kern E) (kst (nft n)) deletions of (err, k') \<Rightarrow>
        (case err of None \<Rightarrow> Inr () | Some e \<Rightarrow> Inl (Wrap ''failed to flush rules/sets cleanup'' (nl_err e)),
         n\<lparr>nft := (nft n)\<lparr>kst := k', messages := [], allocatedIDs := 0\<rparr>\<rparr>))"
proof -
  let ?own = "filter (\<lambda>c. tName (cTable c) = tName table) chs"
  have own: "listed E n table c = rulesOf (cName c) \<and> answers E n table c" if "c \<in> set ?own" for c
    using assms(4) [of c] that by (auto simp: listed_def answers_def)
  then have lists: "map (listed E n table) ?own = map (rulesOf \<circ> cName) ?own" by auto
  have ans: "list_all (answers E n table) ?own" using own unfolding list_all_iff by blast
  have "idle (nft n)" using assms(1,2) by (simp add: idle_def)
  from cleanupRules_eq [OF this assms(3) ans assms(5)] show ?thesis
    unfolding lists stale_def unused_def committed_def Let_def
    by (auto split: prod.splits option.splits)
qed

text \<open>
  C22. Removing unused chains is exact: cleanupChains deletes the chains of the two managed tables
  that the last run did not record and that have no rules, in one batch, and no other chain, so a
  chain that still holds rules is never deleted.
\<close>

theorem cleanupChains_exact:
  assumes "messages (nft n) = []" and "connErr (nft n) = None"
    and "k_chains (kern E) (kst (nft n)) TableFamilyINet = Inr chs"
    and "\<And>c. c \<in> set chs \<Longrightarrow> \<not> isl (k_rules (kern E) (kst (nft n)) (cTable c) (cName c))"
  shows "cleanupChains E n =
     (let deletions = map MsgDelChain (filter (\<lambda>c.
            (tName (cTable c) = tName (nfilter n) \<or> tName (cTable c) = tName (nnat n)) \<and> nchains n (chainID c) = None \<and>
            k_rules (kern E) (kst (nft n)) (cTable c) (cName c) = Inr []) chs) in
      if deletions = [] then (Inr (), n)
      else case k_commit (kern E) (kst (nft n)) deletions of (err, k') \<Rightarrow>
        (case err of None \<Rightarrow> Inr () | Some e \<Rightarrow> Inl (Wrap ''failed to flush chains cleanup'' (nl_err e)),
         n\<lparr>nft := (nft n)\<lparr>kst := k', messages := [], allocatedIDs := 0\<rparr>\<rparr>))"
proof -
  have "list_all (\<lambda>c. managed n c \<longrightarrow> \<not> isl (k_rules (kern E) (kst (nft n)) (cTable c) (cName c))) chs"
    using assms(4) by (simp add: list_all_iff)
  moreover have "idle (nft n)" using assms(1,2) by (simp add: idle_def)
  ultimately show ?thesis
    using cleanupChains_eq [OF _ assms(3)] unfolding abandoned_def managed_def committed_def Let_def
    by (auto split: prod.splits option.splits)
qed

subsection \<open>Concrete runs\<close>

definition demo_chain :: nft_chain where
  "demo_chain = \<lparr>cName = ''c'', cTable = demo_table, cHooknum = None, cPriority = None, cType = []\<rparr>"

definition demo_lookup_set :: nft_set where
  "demo_lookup_set = zero_set\<lparr>sTable := demo_table, sName := ''s''\<rparr>"

definition lookup_state :: "nft_set list \<Rightarrow> nft_rule list \<Rightarrow> mem nftState" where
  "lookup_state ss rs = new_nftState (new_conn (mem_empty\<lparr>m_tables := [demo_table], m_chains := [demo_chain], m_sets := ss,
     m_rules := rs\<rparr>)) demo_table demo_table"

theorem cleanupRules_exact_witness:
  "cleanupRules memE demo_table (lookup_state [demo_lookup_set] [demo_rule\<lparr>rHandle := 7\<rparr>]) =
     (case k_commit memK (kst (nft (lookup_state [demo_lookup_set] [demo_rule\<lparr>rHandle := 7\<rparr>])))
         [MsgDelRule (demo_rule\<lparr>rHandle := 7\<rparr>), MsgDelSet demo_lookup_set] of (err, k') \<Rightarrow>
      (case err of None \<Rightarrow> Inr () | Some e \<Rightarrow> Inl (Wrap ''failed to flush rules/sets cleanup'' (nl_err e)),
       (lookup_state [demo_lookup_set] [demo_rule\<lparr>rHandle := 7\<rparr>])
         \<lparr>nft := (nft (lookup_state [demo_lookup_set] [demo_rule\<lparr>rHandle := 7\<rparr>]))\<lparr>kst := k', messages := [], allocatedIDs := 0\<rparr>\<rparr>))"
proof -
  have "readable (demo_rule\<lparr>rHandle := 7\<rparr>)" by code_simp
  then show ?thesis
    by (subst cleanupRules_exact [where chs = "[demo_chain]" and ss = "[demo_lookup_set]" and rulesOf = "\<lambda>_. [demo_rule\<lparr>rHandle := 7\<rparr>]"])
      (simp_all add: lookup_state_def new_nftState_def new_conn_def memE_def memK_def mem_empty_def demo_chain_def
        demo_table_def demo_rule_def demo_lookup_set_def zero_set_def mkRule_def)
qed

theorem cleanupChains_exact_witness:
  "cleanupChains memE (lookup_state [] []) =
     (case k_commit memK (kst (nft (lookup_state [] []))) [MsgDelChain demo_chain] of (err, k') \<Rightarrow>
      (case err of None \<Rightarrow> Inr () | Some e \<Rightarrow> Inl (Wrap ''failed to flush chains cleanup'' (nl_err e)),
       (lookup_state [] [])\<lparr>nft := (nft (lookup_state [] []))\<lparr>kst := k', messages := [], allocatedIDs := 0\<rparr>\<rparr>))"
  by (subst cleanupChains_exact [where chs = "[demo_chain]"])
    (simp_all add: lookup_state_def new_nftState_def new_conn_def memE_def memK_def mem_empty_def demo_chain_def
      demo_table_def TableFamilyINet_def)

text \<open>Creating a set, adding a rule that looks it up, flushing, and cleaning up, as one run does.\<close>

definition lookup_run :: "(mem, unit) stm" where
  "lookup_run =
     seq (updateSet memE demo_lookup_set []) (\<lambda>s.
     seq (updateRule memE (mkRule demo_table ''c'' ''x'' [Lookup 1 0 False (sID s) (sName s) False]) AddRule False) (\<lambda>_.
     seq (inConn (Flush memK)) (\<lambda>_.
     cleanupRules memE demo_table)))"


end
