(* ===== verification/Selection.thy ===== *)
theory Selection
  imports NodeRuns "HOL-Library.Multiset"
begin

text \<open>
  Which policies are rendered for a pod, and that the result does not depend on the order in which
  Go iterates over the policy map: the map holds one policy per name, the selected policies are
  sorted by a key that is unique among them, and everything after that is a function of the sorted
  lists.
\<close>

subsection \<open>The selected policies\<close>

definition directed :: "policyDeps \<Rightarrow> pod \<Rightarrow> podInfo \<Rightarrow> (bool \<times> bool \<Rightarrow> bool) \<Rightarrow> policy \<Rightarrow> internalPolicy option" where
  "directed D pod podInfo sel p =
     (case policyApplies D pod podInfo p of
        None \<Rightarrow> None
      | Some (i, e, networks) \<Rightarrow> if sel (i, e) then Some \<lparr>ipPolicy = p, ipNetworks = networks\<rparr> else None)"

lemma selectPolicies_fold:
  "fold (\<lambda>policy (ingressPolicies, egressPolicies).
       case policyApplies D pod podInfo policy of
         None \<Rightarrow> (ingressPolicies, egressPolicies)
       | Some (ingressEnable, egressEnable, networks) \<Rightarrow>
           let ip = \<lparr>ipPolicy = policy, ipNetworks = networks\<rparr> in
           (if ingressEnable then ingressPolicies @ [ip] else ingressPolicies,
            if egressEnable then egressPolicies @ [ip] else egressPolicies)) ps (is0, es0) =
   (is0 @ List.map_filter (directed D pod podInfo fst) ps, es0 @ List.map_filter (directed D pod podInfo snd) ps)"
proof (induction ps arbitrary: is0 es0)
  case (Cons p ps)
  show ?case
    by (cases "policyApplies D pod podInfo p")
      (auto simp: Cons directed_def List.map_filter_def Let_def split: prod.splits)
qed (simp add: List.map_filter_def)

lemma selectPolicies_eq:
  "selectPolicies D pod podInfo ps =
     (List.map_filter (directed D pod podInfo fst) ps, List.map_filter (directed D pod podInfo snd) ps)"
  unfolding selectPolicies_def by (simp add: selectPolicies_fold)

lemma mset_map_filter: "mset (List.map_filter f xs) = image_mset (the \<circ> f) (filter_mset (\<lambda>x. f x \<noteq> None) (mset xs))"
  by (simp add: List.map_filter_def)

text \<open>One policy per namespace and name, as in a map.\<close>

definition distinct_names :: "policy list \<Rightarrow> bool" where
  "distinct_names ps \<longleftrightarrow> distinct (map (\<lambda>p. (polNamespace p, polName p)) ps)"

lemma directed_Some:
  "directed D pod podInfo sel p = Some ip \<Longrightarrow> ipPolicy ip = p \<and> polNamespace p = podNamespace pod"
  by (auto simp: directed_def policyApplies_def split: if_splits option.splits)

lemma key_inj:
  assumes "distinct_names ps"
  shows "inj_on internalPolicyKey (set (List.map_filter (directed D pod podInfo sel) ps))"
proof (rule inj_onI)
  fix x y
  assume xy: "x \<in> set (List.map_filter (directed D pod podInfo sel) ps)"
    "y \<in> set (List.map_filter (directed D pod podInfo sel) ps)" "internalPolicyKey x = internalPolicyKey y"
  then obtain p q where p: "p \<in> set ps" "directed D pod podInfo sel p = Some x"
    and q: "q \<in> set ps" "directed D pod podInfo sel q = Some y"
    by (auto simp: List.map_filter_def)
  with directed_Some xy(3) have "polNamespace p = polNamespace q" "polName p = polName q"
    by (fastforce simp: internalPolicyKey_def)+
  with assms p(1) q(1) have "p = q"
    unfolding distinct_names_def by (auto simp: distinct_map dest: inj_onD)
  with p(2) q(2) show "x = y" by simp
qed

lemma sorted_selection:
  assumes "mset ps = mset qs" "distinct_names ps"
  shows "sort_key internalPolicyKey (List.map_filter (directed D pod podInfo sel) ps) =
     sort_key internalPolicyKey (List.map_filter (directed D pod podInfo sel) qs)"
proof (rule sort_key_inj_key_eq)
  show "mset (List.map_filter (directed D pod podInfo sel) ps) =
      mset (sort_key internalPolicyKey (List.map_filter (directed D pod podInfo sel) qs))"
    by (simp add: mset_map_filter assms(1))
qed (simp_all add: key_inj [OF assms(2)])

lemma applyPolicies_order:
  assumes "mset ps = mset qs" "distinct_names ps"
  shows "applyPolicies E D cfg ps pod podInfo = applyPolicies E D cfg qs pod podInfo"
  by (simp only: applyPolicies_def selectPolicies_eq prod.case Let_def sorted_selection [OF assms])

lemma applyRules_order:
  assumes "mset ps = mset qs" "distinct_names ps"
  shows "ApplyPolicyRulesForPodAndFamily E D cfg ps = ApplyPolicyRulesForPodAndFamily E D cfg qs"
  by (intro ext) (simp only: ApplyPolicyRulesForPodAndFamily_def applyPolicies_order [OF assms])

subsection \<open>The policy map\<close>

lemma buildPolicyMap_keys: "distinct (map fst (buildPolicyMap ps))"
proof -
  have "distinct (map fst (fold (\<lambda>p. AList.update (polNamespace p, polName p) p) ps m))"
    if "distinct (map fst m)" for m
    using that by (induction ps arbitrary: m) (simp_all add: distinct_update)
  then show ?thesis by (simp add: buildPolicyMap_def)
qed

lemma buildPolicyMap_lookup:
  "map_of (buildPolicyMap ps) k = find (\<lambda>p. (polNamespace p, polName p) = k) (rev ps)"
proof -
  have "map_of (fold (\<lambda>p. AList.update (polNamespace p, polName p) p) ps m) k =
      (case find (\<lambda>p. (polNamespace p, polName p) = k) (rev ps) of None \<Rightarrow> map_of m k | Some p \<Rightarrow> Some p)" for m
  proof (induction ps rule: rev_induct)
    case (snoc p ps)
    then show ?case by (auto simp: update_conv')
  qed simp
  then show ?thesis by (simp add: buildPolicyMap_def split: option.splits)
qed

lemma buildPolicyMap_names:
  assumes "(k, p) \<in> set (buildPolicyMap ps)"
  shows "k = (polNamespace p, polName p)"
proof -
  have "map_of (buildPolicyMap ps) k = Some p" by (rule map_of_is_SomeI [OF buildPolicyMap_keys assms])
  then have "find (\<lambda>p. (polNamespace p, polName p) = k) (rev ps) = Some p" by (simp add: buildPolicyMap_lookup)
  then show ?thesis by (auto simp: find_Some_iff)
qed

lemma buildPolicyMap_distinct: "distinct_names (map snd (buildPolicyMap ps))"
proof -
  have "map (\<lambda>p. (polNamespace p, polName p)) (map snd (buildPolicyMap ps)) = map fst (buildPolicyMap ps)"
    using buildPolicyMap_names [of _ _ ps] by (auto simp: map_eq_conv)
  then show ?thesis using buildPolicyMap_keys by (simp add: distinct_names_def del: map_map)
qed

subsection \<open>The iteration order of the map\<close>

lemma reconcilePod_mapOrder:
  assumes "mset ps = mset qs" "distinct_names ps" "ApplyRulesForPodFunc R = None"
  shows "reconcilePod (C\<lparr>mapOrder := f\<rparr>) R ps = reconcilePod (C\<lparr>mapOrder := g\<rparr>) R qs"
proof -
  have fields: "addressAndDialer (C\<lparr>mapOrder := h\<rparr>) = addressAndDialer C" "newClient (C\<lparr>mapOrder := h\<rparr>) = newClient C"
    "connStates (C\<lparr>mapOrder := h\<rparr>) = connStates C" "getNetDef (C\<lparr>mapOrder := h\<rparr>) = getNetDef C"
    "GetCNIConfig (C\<lparr>mapOrder := h\<rparr>) = GetCNIConfig C" "decodeConfList (C\<lparr>mapOrder := h\<rparr>) = decodeConfList C"
    "decodeConf (C\<lparr>mapOrder := h\<rparr>) = decodeConf C" "source (C\<lparr>mapOrder := h\<rparr>) = source C"
    "GetNS (C\<lparr>mapOrder := h\<rparr>) = GetNS C" "nsFd (C\<lparr>mapOrder := h\<rparr>) = nsFd C"
    "openLasting (C\<lparr>mapOrder := h\<rparr>) = openLasting C" "envOf (C\<lparr>mapOrder := h\<rparr>) = envOf C" for h
    by simp_all
  have client: "GetCriRuntimeClientWithContext (C\<lparr>mapOrder := h\<rparr>) = GetCriRuntimeClientWithContext C" for h
    by (intro ext) (simp only: GetCriRuntimeClientWithContext_def fields)
  have plugin: "resolvePluginType (C\<lparr>mapOrder := h\<rparr>) = resolvePluginType C" for h
    by (intro ext) (simp only: resolvePluginType_def fields)
  have cri: "criRuntimeClient (C\<lparr>mapOrder := h\<rparr>) R = criRuntimeClient C R" for h
    unfolding criRuntimeClient_def client ..
  have info: "GetPodInfo_node (C\<lparr>mapOrder := f\<rparr>) R = GetPodInfo_node (C\<lparr>mapOrder := g\<rparr>) R"
    unfolding GetPodInfo_node_def cri plugin fields ..
  have deps: "policyDepsOf (C\<lparr>mapOrder := f\<rparr>) R = policyDepsOf (C\<lparr>mapOrder := g\<rparr>) R"
    unfolding policyDepsOf_def info by (cases "PolicyDeps R") simp_all
  have pod: "applyRulesForPod (C\<lparr>mapOrder := f\<rparr>) D cfg ps = applyRulesForPod (C\<lparr>mapOrder := g\<rparr>) D cfg qs" for D cfg
    by (intro ext) (simp only: applyRulesForPod_def fields applyRules_order [OF assms(1,2)])
  have rules: "applyRules (C\<lparr>mapOrder := f\<rparr>) R ps = applyRules (C\<lparr>mapOrder := g\<rparr>) R qs"
    unfolding applyRules_def deps assms(3) option.case pod ..
  show ?thesis
    unfolding reconcilePod_def deps_GetPodInfo_def info rules ..
qed

text \<open>
  C8. The rules on a node do not depend on Go's map iteration order, which is random: whatever
  order the policy map is iterated in, a reconciliation returns the same result, sends the same
  messages and leaves the same state in every network namespace.
\<close>

theorem Reconcile_order_independent:
  assumes "\<And>ps. mset (f ps) = mset ps" and "\<And>ps. mset (g ps) = mset ps" and "ApplyRulesForPodFunc R = None"
  shows "Reconcile (C\<lparr>mapOrder := f\<rparr>) R req = Reconcile (C\<lparr>mapOrder := g\<rparr>) R req"
proof -
  have "reconcilePod (C\<lparr>mapOrder := f\<rparr>) R (f (map snd (buildPolicyMap items))) =
      reconcilePod (C\<lparr>mapOrder := g\<rparr>) R (g (map snd (buildPolicyMap items)))" for items
  proof (rule reconcilePod_mapOrder [OF _ _ assms(3)])
    have "mset (map (\<lambda>p. (polNamespace p, polName p)) (f (map snd (buildPolicyMap items)))) =
        mset (map (\<lambda>p. (polNamespace p, polName p)) (map snd (buildPolicyMap items)))"
      by (simp only: mset_map assms(1))
    from mset_eq_imp_distinct_iff [OF this] show "distinct_names (f (map snd (buildPolicyMap items)))"
      using buildPolicyMap_distinct [of items] unfolding distinct_names_def by (rule iffD2)
  qed (simp add: assms(1,2))
  moreover have "listPolicies (C\<lparr>mapOrder := h\<rparr>) = listPolicies C" "podsByIndex (C\<lparr>mapOrder := h\<rparr>) = podsByIndex C"
    "mapOrder (C\<lparr>mapOrder := h\<rparr>) = h" for h by simp_all
  ultimately show ?thesis by (simp only: Reconcile_def Let_def)
qed

theorem Reconcile_order_independent_witness:
  "Reconcile ((demo_cluster memE)\<lparr>mapOrder := rev\<rparr>) demo_reconciler ([], ''n1'') (demo_node mem_empty) =
     Reconcile ((demo_cluster memE)\<lparr>mapOrder := id\<rparr>) demo_reconciler ([], ''n1'') (demo_node mem_empty)"
  by (subst Reconcile_order_independent [where g = id]) (simp_all add: demo_reconciler_def)

end
