(* ===== verification/Rendering.thy ===== *)
theory Rendering
  imports Server
begin

text \<open>
  What the rule generator sends to a network namespace in which none of its objects exist yet
  (pkg/server/netfilterrules.go and pkg/server/server.go). \<open>renders\<close> relates an operation to a
  list of messages computed without any state: the operation succeeds exactly when the list
  exists (and the transaction IDs last), and then it has appended these messages, up to
  transaction IDs and comments.
\<close>

subsection \<open>Messages without transaction IDs and comments\<close>

fun strip :: "nft_msg \<Rightarrow> nft_msg" where
  "strip (MsgNewRule op r) = MsgNewRule op (r\<lparr>rID := 0, rExprs := map listed_expr (rExprs r), rUserData := []\<rparr>)"
| "strip (MsgNewSet s k) = MsgNewSet (s\<lparr>sID := 0\<rparr>) k"
| "strip (MsgNewSetElem s es) = MsgNewSetElem (s\<lparr>sID := 0\<rparr>) es"
| "strip m = m"

definition fresh :: "'k kernel \<Rightarrow> 'k \<Rightarrow> bool" where
  "fresh K k \<longleftrightarrow>
     (\<forall>t ch. k_rules K k t ch = Inr []) \<and> (\<forall>t name. k_chain K k t name = Inl ENOENT) \<and>
     (\<forall>t name. k_set K k t name = Inl ENOENT)"

definition statics :: "'k nftState \<Rightarrow> nft_table \<times> nft_table \<times> nft_chain list" where
  "statics n = (nfilter n, nnat n,
     [input_ch n, output_ch n, prerouting_ch n, ingress_ch n, egress_ch n, commonIngress_ch n, commonEgress_ch n])"

definition extends :: "nft_msg list \<Rightarrow> 'k nftState \<Rightarrow> 'k nftState \<Rightarrow> bool" where
  "extends ms n n' \<longleftrightarrow>
     kst (nft n') = kst (nft n) \<and>
     map strip (messages (nft n')) = map strip (messages (nft n)) @ ms \<and>
     unat (allocatedIDs (nft n')) \<le> unat (allocatedIDs (nft n)) + length ms \<and>
     statics n' = statics n"

definition no_room :: "'k nftState \<Rightarrow> nft_msg list \<Rightarrow> bool" where
  "no_room n ms \<longleftrightarrow> 2 ^ 32 - 1 \<le> unat (allocatedIDs (nft n)) + length ms"

definition renders ::
  "'k env \<Rightarrow> nft_table \<Rightarrow> ('k, 'a) stm \<Rightarrow> nft_msg list option \<Rightarrow> ('a \<Rightarrow> bool) \<Rightarrow> bool" where
  "renders E ft m r R \<longleftrightarrow>
     (\<forall>n. fresh (kern E) (kst (nft n)) \<and> nfilter n = ft \<longrightarrow>
        (case m n of
           (Inr x, n') \<Rightarrow> \<exists>ms. r = Some ms \<and> R x \<and> extends ms n n'
         | (Inl e, n') \<Rightarrow> r = None \<or> (\<exists>ms. r = Some ms \<and> no_room n ms)))"

named_theorems renders_intros \<open>what an operation sends to an empty namespace\<close>

lemma rendersI:
  fixes m :: "('k, 'a) stm"
  assumes "\<And>n x n'. fresh (kern E) (kst (nft n)) \<Longrightarrow> nfilter n = ft \<Longrightarrow> m n = (Inr x, n') \<Longrightarrow>
      \<exists>ms. r = Some ms \<and> R x \<and> extends ms n n'"
    and "\<And>n e n'. fresh (kern E) (kst (nft n)) \<Longrightarrow> nfilter n = ft \<Longrightarrow> m n = (Inl e, n') \<Longrightarrow>
      r = None \<or> (\<exists>ms. r = Some ms \<and> no_room n ms)"
  shows "renders E ft m r R"
  unfolding renders_def
proof (intro allI impI)
  fix n :: "'k nftState" assume n: "fresh (kern E) (kst (nft n)) \<and> nfilter n = ft"
  obtain y n' where y: "m n = (y, n')" by (cases "m n")
  then show "case m n of (Inr x, n') \<Rightarrow> \<exists>ms. r = Some ms \<and> R x \<and> extends ms n n'
     | (Inl e, n') \<Rightarrow> r = None \<or> (\<exists>ms. r = Some ms \<and> no_room n ms)"
    using n assms(1) [of n _ n'] assms(2) [of n _ n'] by (cases y) auto
qed

lemma rendersD:
  assumes "renders E ft m r R" "fresh (kern E) (kst (nft n))" "nfilter n = ft"
  shows "m n = (Inr x, n') \<Longrightarrow> \<exists>ms. r = Some ms \<and> R x \<and> extends ms n n'"
    and "m n = (Inl e, n') \<Longrightarrow> r = None \<or> (\<exists>ms. r = Some ms \<and> no_room n ms)"
  using assms unfolding renders_def by (drule_tac x = n in spec, simp)+

lemma extends_refl [simp]: "extends [] n n"
  by (simp add: extends_def)

lemma extends_trans: "extends ms n n' \<Longrightarrow> extends ms' n' n'' \<Longrightarrow> extends (ms @ ms') n n''"
  by (auto simp: extends_def)

lemma extends_start: "extends ms n n' \<Longrightarrow> kst (nft n') = kst (nft n) \<and> nfilter n' = nfilter n"
  by (simp add: extends_def statics_def)

lemma extends_room: "extends ms n n' \<Longrightarrow> no_room n' ms' \<Longrightarrow> no_room n (ms @ ms')"
  by (simp add: extends_def no_room_def)

subsection \<open>Lists of messages that may fail to exist\<close>

definition both :: "'a list option \<Rightarrow> 'a list option \<Rightarrow> 'a list option" where
  "both r s = (case r of None \<Rightarrow> None | Some xs \<Rightarrow> map_option (append xs) s)"

primrec allOf :: "'a list option list \<Rightarrow> 'a list option" where
  "allOf [] = Some []"
| "allOf (r # rs) = both r (allOf rs)"

definition opt :: "'a result \<Rightarrow> 'a option" where
  "opt r = (case r of Inl e \<Rightarrow> None | Inr x \<Rightarrow> Some x)"

lemma opt_simps [simp]: "opt (Inl e) = None" "opt (Inr x) = Some x"
  by (simp_all add: opt_def)

lemma both_eq_Some: "both r s = Some zs \<longleftrightarrow> (\<exists>xs ys. r = Some xs \<and> s = Some ys \<and> zs = xs @ ys)"
  by (auto simp: both_def split: option.splits)

lemma both_simps [simp]: "both (Some []) s = s" "both r (Some []) = r" "both (Some xs) (Some ys) = Some (xs @ ys)"
  by (auto simp: both_def map_option_case split: option.splits)

lemma allOf_eq_Some: "allOf rs = Some zs \<longleftrightarrow> (\<exists>xss. rs = map Some xss \<and> zs = concat xss)"
proof (induction rs arbitrary: zs)
  case (Cons r rs)
  note IH = Cons.IH
  show ?case
  proof
    assume "allOf (r # rs) = Some zs"
    then obtain xs ys where x: "r = Some xs" "allOf rs = Some ys" "zs = xs @ ys" by (auto simp: both_eq_Some)
    from x(2) obtain xss where "rs = map Some xss" "ys = concat xss" unfolding IH by (elim exE conjE)
    with x have "r # rs = map Some (xs # xss) \<and> zs = concat (xs # xss)" by simp
    then show "\<exists>xss. r # rs = map Some xss \<and> zs = concat xss" by (rule exI)
  next
    assume "\<exists>xss. r # rs = map Some xss \<and> zs = concat xss"
    then obtain xss where x: "r # rs = map Some xss" "zs = concat xss" by (elim exE conjE)
    show "allOf (r # rs) = Some zs"
    proof (cases xss)
      case Nil
      with x show ?thesis by simp
    next
      case (Cons xs xss')
      with x have "r = Some xs" "allOf rs = Some (concat xss')" "zs = xs @ concat xss'"
        using IH [of "concat xss'"] by auto
      then show ?thesis by simp
    qed
  qed
qed auto

subsection \<open>Rules for the combinators\<close>

lemma renders_ret [renders_intros]: "R x \<Longrightarrow> renders E ft (ret x) (Some []) R"
  by (rule rendersI) (auto simp: ret_def)

lemma renders_fail: "renders E ft (fail e) None R"
  by (rule rendersI) (auto simp: fail_def)

lemma renders_weaken: "renders E ft m r R \<Longrightarrow> (\<And>x. R x \<Longrightarrow> R' x) \<Longrightarrow> renders E ft m r R'"
  unfolding renders_def by (intro allI impI, drule spec, drule (1) mp) (auto split: prod.splits sum.splits)

lemma renders_seq:
  assumes m: "renders E ft m r R" and f: "\<And>x. R x \<Longrightarrow> renders E ft (f x) s Q"
  shows "renders E ft (seq m f) (both r s) Q"
proof (rule rendersI)
  fix n y n'' assume n: "fresh (kern E) (kst (nft n))" "nfilter n = ft" and run: "seq m f n = (Inr y, n'')"
  from run obtain x n' where x: "m n = (Inr x, n')" "f x n' = (Inr y, n'')" by (auto simp: seq_Inr)
  obtain ms where ms: "r = Some ms" "R x" "extends ms n n'" using rendersD(1) [OF m n x(1)] by blast
  have "fresh (kern E) (kst (nft n'))" "nfilter n' = ft" using extends_start [OF ms(3)] n by simp_all
  from rendersD(1) [OF f [OF ms(2)] this x(2)] obtain ms' where "s = Some ms'" "Q y" "extends ms' n' n''" by blast
  with ms show "\<exists>ms. both r s = Some ms \<and> Q y \<and> extends ms n n''" by (auto intro: extends_trans)
next
  fix n e n'' assume n: "fresh (kern E) (kst (nft n))" "nfilter n = ft" and run: "seq m f n = (Inl e, n'')"
  obtain x n' where x: "m n = (x, n')" by (cases "m n")
  show "both r s = None \<or> (\<exists>ms. both r s = Some ms \<and> no_room n ms)"
  proof (cases x)
    case (Inl e')
    with rendersD(2) [OF m n] x have "r = None \<or> (\<exists>ms. r = Some ms \<and> no_room n ms)" by blast
    then show ?thesis by (cases s) (auto simp: both_def no_room_def)
  next
    case (Inr a)
    obtain ms where ms: "r = Some ms" "R a" "extends ms n n'" using rendersD(1) [OF m n] x Inr by blast
    have "fresh (kern E) (kst (nft n'))" "nfilter n' = ft" using extends_start [OF ms(3)] n by simp_all
    moreover have "f a n' = (Inl e, n'')" using run x Inr by (simp add: seq_def)
    ultimately have "s = None \<or> (\<exists>ms'. s = Some ms' \<and> no_room n' ms')" using rendersD(2) [OF f [OF ms(2)]] by blast
    then show ?thesis using ms(1) extends_room [OF ms(3)] by (auto simp: both_def)
  qed
qed

lemma renders_wrapped [renders_intros]: "renders E ft m r R \<Longrightarrow> renders E ft (wrapped t m) r R"
  unfolding renders_def by (intro allI impI, drule spec, drule (1) mp) (auto simp: wrapped_def split: prod.splits sum.splits)

lemma renders_filter: "renders E ft (f ft) r Q \<Longrightarrow> renders E ft (seq (gets nfilter) f) r Q"
  by (simp add: renders_def seq_def gets_def)

lemma renders_lift:
  "(\<And>x. res = Inr x \<Longrightarrow> renders E ft (f x) (g x) Q) \<Longrightarrow>
   renders E ft (seq (lift_result res) f) (Option.bind (opt res) g) Q"
  by (cases res) (simp_all add: renders_def seq_def lift_result_def)

lemma renders_wrapped_lift:
  "(\<And>x. res = Inr x \<Longrightarrow> renders E ft (f x) (g x) Q) \<Longrightarrow>
   renders E ft (seq (wrapped t (lift_result res)) f) (Option.bind (opt res) g) Q"
  by (cases res) (simp_all add: renders_def seq_def lift_result_def wrapped_def)

lemma renders_for_each:
  "(\<And>x. x \<in> set xs \<Longrightarrow> renders E ft (f x) (g x) (\<lambda>_. True)) \<Longrightarrow>
   renders E ft (for_each xs f) (allOf (map g xs)) (\<lambda>_. True)"
proof (induction xs)
  case Nil
  then show ?case by (simp add: renders_ret)
next
  case (Cons x xs)
  show ?case
    unfolding for_each.simps list.map allOf.simps
    by (rule renders_seq [where R = "\<lambda>_. True"]) (simp_all add: Cons)
qed

lemma renders_for_acc:
  "(\<And>x b. x \<in> set xs \<Longrightarrow> renders E ft (f x b) (g x) (\<lambda>_. True)) \<Longrightarrow>
   renders E ft (for_acc xs b f) (allOf (map g xs)) (\<lambda>_. True)"
proof (induction xs arbitrary: b)
  case Nil
  then show ?case by (simp add: renders_ret)
next
  case (Cons x xs)
  show ?case
    unfolding for_acc.simps list.map allOf.simps
    by (rule renders_seq [where R = "\<lambda>_. True"]) (simp_all add: Cons)
qed

subsection \<open>The primitive updates\<close>

definition ruleMsg :: "nft_table \<Rightarrow> string \<Rightarrow> nft_expr list \<Rightarrow> nft_msg" where
  "ruleMsg t ch es =
     MsgNewRule OpAdd \<lparr>rTable = t, rChain = ch, rHandle = 0, rID = 0, rExprs = es, rUserData = []\<rparr>"

definition insertMsg :: "nft_table \<Rightarrow> string \<Rightarrow> nft_expr list \<Rightarrow> nft_msg" where
  "insertMsg t ch es =
     MsgNewRule OpInsert \<lparr>rTable = t, rChain = ch, rHandle = 0, rID = 0, rExprs = es, rUserData = []\<rparr>"

definition shortChain :: "nft_chain \<Rightarrow> nft_chain" where
  "shortChain c = c\<lparr>cName := shortName (cName c)\<rparr>"

definition shortSet :: "nft_set \<Rightarrow> nft_set" where
  "shortSet s = s\<lparr>sName := shortName (sName s)\<rparr>"

definition setMsgs :: "nft_set \<Rightarrow> set_element list \<Rightarrow> nft_msg list" where
  "setMsgs s els = [MsgNewSet (shortSet s) (length els), MsgNewSetElem (shortSet s) els]"

lemma has_id_room: "\<not> has_id (nft n) \<Longrightarrow> no_room n ms"
  by (simp add: has_id_def no_room_def)

lemma word_one_plus_0: "1 + w = 0 \<Longrightarrow> (w :: u32) = 0xFFFFFFFF"
proof -
  assume "1 + w = 0"
  then have "w = - 1" by (simp add: eq_neg_iff_add_eq_0 add.commute)
  then show ?thesis by simp
qed

lemma unat_next: "has_id c \<Longrightarrow> unat (allocatedIDs c + 1) = Suc (unat (allocatedIDs c))"
proof -
  assume "has_id c"
  then have "1 + allocatedIDs c \<noteq> 0"
    unfolding has_id_def by (auto dest: word_one_plus_0)
  then show ?thesis using unatSuc [of "allocatedIDs c"] by (simp add: add.commute)
qed

lemma renders_addChain [renders_intros]:
  "renders E ft (addChain E c) (Some [MsgNewChain (shortChain c)]) (\<lambda>c'. c' = shortChain c)"
  by (rule rendersI) (auto simp: addChain_eq fresh_def extends_def statics_def shortChain_def Let_def)

lemma updateRule_no_id:
  assumes "userdata_GetString (rUserData rule) TypeComment = Inr c"
    and "k_rules (kern E) (kst (nft n)) (rTable rule) (rChain rule) = Inr []"
    and "rHandle rule = 0" and "\<not> has_id (nft n)"
  shows "\<exists>e n'. updateRule E rule (newRule op) force n = (Inl e, n')"
  using assms by (simp add: updateRule_def comp_simps newRule_def)

lemma renders_newRule:
  "renders E ft (updateRule E (mkRule t ch c es) (newRule op) force)
     (Some [MsgNewRule op \<lparr>rTable = t, rChain = ch, rHandle = 0, rID = 0, rExprs = map listed_expr es, rUserData = []\<rparr>]) (\<lambda>_. True)"
  (is "renders E ft ?m (Some ?ms) _")
proof (rule rendersI)
  fix n x n' assume n: "fresh (kern E) (kst (nft n))" and run: "?m n = (Inr x, n')"
  have rs: "k_rules (kern E) (kst (nft n)) t ch = Inr []" using n by (simp add: fresh_def)
  have id: "has_id (nft n)"
  proof (rule ccontr)
    assume "\<not> has_id (nft n)"
    with updateRule_no_id [of "mkRule t ch c es" _ E n op force] rs run show False by simp
  qed
  from updateRule_absent_eq [of "mkRule t ch c es" _ E n "[]" op force] rs id run unat_next [OF id]
  show "\<exists>ms. Some ?ms = Some ms \<and> True \<and> extends ms n n'"
    by (auto simp: Let_def extends_def statics_def record_rule_def mkRule_def)
next
  fix n e n' assume n: "fresh (kern E) (kst (nft n))" and run: "?m n = (Inl e, n')"
  have rs: "k_rules (kern E) (kst (nft n)) t ch = Inr []" using n by (simp add: fresh_def)
  have "\<not> has_id (nft n)"
  proof
    assume "has_id (nft n)"
    with updateRule_absent_eq [of "mkRule t ch c es" _ E n "[]" op force] rs run show False
      by (simp add: Let_def)
  qed
  then show "Some ?ms = None \<or> (\<exists>ms. Some ?ms = Some ms \<and> no_room n ms)"
    by (simp add: has_id_room)
qed

lemma renders_rule [renders_intros]:
  "renders E ft (updateRule E (mkRule t ch c es) AddRule force) (Some [ruleMsg t ch (map listed_expr es)]) (\<lambda>_. True)"
  using renders_newRule [of E ft t ch c es OpAdd force] by (simp add: updateRule_AddRule ruleMsg_def)

lemma renders_insert [renders_intros]:
  "renders E ft (updateRule E (mkRule t ch c es) InsertRule force) (Some [insertMsg t ch (map listed_expr es)]) (\<lambda>_. True)"
  using renders_newRule [of E ft t ch c es OpInsert force] by (simp add: updateRule_InsertRule insertMsg_def)

lemma updateSet_no_id:
  assumes "k_set (kern E) (kst (nft n)) (sTable s) (shortName (sName s)) = Inl ENOENT"
    and "\<not> sAnonymous s" and "sID s = 0" and "\<not> has_id (nft n)"
  shows "\<exists>e n'. updateSet E s els n = (Inl e, n')"
  using assms by (simp add: updateSet_def shorten_set comp_simps GetSetByName_def Let_def AddSet_def)

lemma renders_updateSet [renders_intros]:
  assumes "\<not> sAnonymous s" "sID s = 0" "els \<noteq> []"
  shows "renders E ft (updateSet E s els) (Some (setMsgs s els)) (\<lambda>s'. s'\<lparr>sID := 0\<rparr> = shortSet s)"
proof (rule rendersI)
  fix n x n' assume n: "fresh (kern E) (kst (nft n))" and run: "updateSet E s els n = (Inr x, n')"
  have no: "k_set (kern E) (kst (nft n)) (sTable s) (shortName (sName s)) = Inl ENOENT"
    using n by (simp add: fresh_def)
  have id: "has_id (nft n)"
  proof (rule ccontr)
    assume "\<not> has_id (nft n)"
    from updateSet_no_id [OF no assms(1,2) this, of els] run show False by simp
  qed
  have "s\<lparr>sID := 0\<rparr> = s" using assms(2) by simp
  then have same: "s\<lparr>sName := x, sID := 0\<rparr> = s\<lparr>sName := x\<rparr>" "s\<lparr>sID := 0, sName := x\<rparr> = s\<lparr>sName := x\<rparr>" for x
    by (simp_all add: assms(2))
  from updateSet_new_eq [OF no assms(1,2) id, of els] run assms(3) unat_next [OF id] same
  show "\<exists>ms. Some (setMsgs s els) = Some ms \<and> x\<lparr>sID := 0\<rparr> = shortSet s \<and> extends ms n n'"
    by (auto simp: Let_def extends_def statics_def setMsgs_def shortSet_def)
next
  fix n e n' assume n: "fresh (kern E) (kst (nft n))" and run: "updateSet E s els n = (Inl e, n')"
  have no: "k_set (kern E) (kst (nft n)) (sTable s) (shortName (sName s)) = Inl ENOENT"
    using n by (simp add: fresh_def)
  have "\<not> has_id (nft n)"
  proof
    assume "has_id (nft n)"
    from updateSet_new_eq [OF no assms(1,2) this, of els] run show False by (simp add: Let_def)
  qed
  then show "Some (setMsgs s els) = None \<or> (\<exists>ms. Some (setMsgs s els) = Some ms \<and> no_room n ms)"
    by (simp add: has_id_room)
qed

subsection \<open>The messages of the policy operations\<close>

definition lookup0 :: "nft_set \<Rightarrow> nft_expr" where
  "lookup0 s = Lookup 1 0 False 0 (shortName (sName s)) False"

lemma listed_simps [simp]:
  "listed_expr (metaLoad k) = metaLoad k" "listed_expr (metaSet k) = metaSet k" "listed_expr counter0 = counter0"
  "listed_expr (verdict v) = verdict v" "listed_expr (jumpTo c) = jumpTo c" "listed_expr (cmpEq d) = cmpEq d"
  "listed_expr (payloadLoad b off l) = payloadLoad b off l" "listed_expr (bitwise4 be mk x) = bitwise4 be mk x"
  "map listed_expr (setMark be mk) = setMark be mk"
  by (simp_all add: expr_defs setMark_def)

lemma listed_lookup: "s'\<lparr>sID := 0\<rparr> = shortSet s \<Longrightarrow> listed_expr (lookupSet s') = lookup0 s"
proof -
  assume "s'\<lparr>sID := 0\<rparr> = shortSet s"
  then have "sName (s'\<lparr>sID := 0\<rparr>) = sName (shortSet s)" by simp
  then show ?thesis by (simp add: lookupSet_def lookup0_def shortSet_def)
qed

definition markReset :: "bool \<Rightarrow> nft_expr list" where
  "markReset be = [metaLoad MetaKeyMARK, bitwise4 be (NOT matchRuleMark) zeroRuleMark, metaSet MetaKeyMARK, counter0]"

definition markCheck :: "bool \<Rightarrow> nft_expr list" where
  "markCheck be = [metaLoad MetaKeyMARK, bitwise4 be matchRuleMark zeroRuleMark,
     cmpEq (NativeEndian_PutUint32 be matchRuleMark), counter0, verdict VerdictReturn]"

definition protoMsgs :: "bool \<Rightarrow> nft_chain \<Rightarrow> string \<Rightarrow> nft_chain \<Rightarrow> string \<Rightarrow> set_element list \<Rightarrow> nft_msg list option" where
  "protoMsgs be chain portsName portChain protocol els =
     (if 0 < length els then
        both (Some (setMsgs (getInetSet chain portsName (fst (getProtocolInfo protocol))) els))
          (Some [ruleMsg (cTable portChain) (cName portChain)
             ([metaLoad MetaKeyL4PROTO, cmpEq (snd (getProtocolInfo protocol)),
               payloadLoad PayloadBaseTransportHeader 2 2,
               lookup0 (getInetSet chain portsName (fst (getProtocolInfo protocol))), counter0] @
              setMark be portRuleMark)])
      else Some [])"

definition jumpMsgs :: "nft_chain \<Rightarrow> nft_chain \<Rightarrow> nft_msg list option" where
  "jumpMsgs chain target =
     both (Some [MsgNewChain target]) (Some [ruleMsg (cTable chain) (cName chain) [counter0, jumpTo (cName target)]])"

definition portsChain :: "string \<Rightarrow> nft_table \<Rightarrow> nat \<Rightarrow> nft_chain" where
  "portsChain chainName t i =
     shortChain (plainChain (nftNameWithSuffix chainName ''-'' (portsChainSuffix @ ''-'' @ fmt_d i)) t)"

definition portsMsgs :: "bool \<Rightarrow> string \<Rightarrow> nft_chain \<Rightarrow> policyPort list \<Rightarrow> nat \<Rightarrow> nft_msg list option" where
  "portsMsgs be chainName chain ports i =
     (let portsName = nftNameWithSuffix chainName ''-'' (portsChainSuffix @ ''-'' @ fmt_d i);
          portChain = portsChain chainName (cTable chain) i in
      both (jumpMsgs chain portChain)
        (Option.bind (opt (collectPorts ports [] [] [])) (\<lambda>(tcp, udp, sctp).
           both (protoMsgs be chain portsName portChain ''TCP'' tcp)
          (both (protoMsgs be chain portsName portChain ''UDP'' udp)
          (both (protoMsgs be chain portsName portChain ''SCTP'' sctp)
             (if length ports = 0 \<or> (length tcp = 0 \<and> length udp = 0 \<and> length sctp = 0)
              then Some [ruleMsg (cTable chain) (cName portChain) (counter0 # setMark be portRuleMark)]
              else Some []))))))"

definition addrOffset :: "string \<Rightarrow> bool \<Rightarrow> u32" where
  "addrOffset chainName isV6 =
     (if isV6 then if isIngressChain chainName then IPv6OffSet else IPv6OffSet + IPv6len
      else if isIngressChain chainName then IPv4OffSet else IPv4OffSet + IPv4len)"

definition addrMatch :: "string \<Rightarrow> bool \<Rightarrow> nft_set \<Rightarrow> nft_expr list" where
  "addrMatch chainName isV6 s =
     [metaLoad MetaKeyNFPROTO, cmpEq [if isV6 then NFPROTO_IPV6 else NFPROTO_IPV4],
      payloadLoad PayloadBaseNetworkHeader (addrOffset chainName isV6) (if isV6 then IPv6len else IPv4len), lookup0 s]"

definition blockSet :: "string \<Rightarrow> nft_table \<Rightarrow> nat \<Rightarrow> bool \<Rightarrow> nft_set" where
  "blockSet chainName t i isV6 =
     zero_set\<lparr>sTable := t,
       sName := chainName @ ''_'' @ peerIPBlockPrefix @ ''_'' @ (if isV6 then protoIPv6 else protoIPv4) @ ''_'' @
                getAddressSuffix chainName @ ''_'' @ fmt_d i,
       sConstant := True, sCounter := True, sKeyType := (if isV6 then ''ipv6_addr'' else ''ipv4_addr''), sInterval := True\<rparr>"

definition exceptSet :: "string \<Rightarrow> nft_table \<Rightarrow> nat \<Rightarrow> bool \<Rightarrow> nft_set" where
  "exceptSet chainName t i isV6 =
     zero_set\<lparr>sTable := t,
       sName := chainName @ ''_'' @ peerIPBlockExceptPrefix @ ''_'' @ (if isV6 then protoIPv6 else protoIPv4) @ ''_'' @
                getAddressSuffix chainName @ ''_'' @ fmt_d i,
       sCounter := True, sKeyType := (if isV6 then ''ipv6_addr'' else ''ipv4_addr''), sInterval := True\<rparr>"

definition prefixMsgs ::
  "bool \<Rightarrow> string \<Rightarrow> nft_chain \<Rightarrow> nat \<Rightarrow> set_element list \<Rightarrow> set_element list \<Rightarrow> bool \<Rightarrow> nft_msg list option" where
  "prefixMsgs be chainName chain i prefixes exceptPrefixes isV6 =
     (if 0 < length prefixes then
        both (if 0 < length exceptPrefixes then
                both (Some (setMsgs (exceptSet chainName (cTable chain) i isV6) exceptPrefixes))
                  (Some [ruleMsg (cTable chain) (cName chain)
                     (addrMatch chainName isV6 (exceptSet chainName (cTable chain) i isV6) @ [counter0, verdict VerdictDrop])])
              else Some [])
       (both (Some (setMsgs (blockSet chainName (cTable chain) i isV6) prefixes))
          (Some [ruleMsg (cTable chain) (cName chain)
             (addrMatch chainName isV6 (blockSet chainName (cTable chain) i isV6) @
              setMark be peerRuleMark @ [counter0, verdict VerdictReturn])]))
      else Some [])"

definition blockMsgs :: "bool \<Rightarrow> string \<Rightarrow> nft_chain \<Rightarrow> ipBlock \<Rightarrow> nat \<Rightarrow> nft_msg list option" where
  "blockMsgs be chainName chain block i =
     Option.bind (opt (getPrefixesAsSetInterval (ipExcept block))) (\<lambda>(x4, x6).
     Option.bind (opt (getPrefixesAsSetInterval [ipCIDR block])) (\<lambda>(p4, p6).
       both (prefixMsgs be chainName chain i p4 x4 False) (prefixMsgs be chainName chain i p6 x6 True)))"

text \<open>The hash of a text never fails, so the name of a selector's set is a plain function.\<close>

definition hashText :: "string \<Rightarrow> string" where
  "hashText s = (case hash_string s of Inr h \<Rightarrow> h | Inl _ \<Rightarrow> [])"

definition addrSet :: "policyDeps \<Rightarrow> string \<Rightarrow> nft_table \<Rightarrow> policyPeer \<Rightarrow> nat \<Rightarrow> bool \<Rightarrow> nft_set" where
  "addrSet D chainName t peer i isV6 =
     zero_set\<lparr>sTable := t,
       sName := chainName @ ''_'' @ getAddressSuffix chainName @ ''_'' @ fmt_d i @ ''_'' @
                (if isV6 then protoIPv6 else protoIPv4) @ ''_'' @ hashText (selectorText D peer),
       sKeyType := (if isV6 then ''ipv6_addr'' else ''ipv4_addr'')\<rparr>"

definition addrMsgs ::
  "bool \<Rightarrow> policyDeps \<Rightarrow> string \<Rightarrow> nft_chain \<Rightarrow> policyPeer \<Rightarrow> nat \<Rightarrow> string list \<Rightarrow> nft_msg list option" where
  "addrMsgs be D chainName chain peer i addrs =
     (case addrs of
        [] \<Rightarrow> Some []
      | addr0 # _ \<Rightarrow>
          let isV6 = (To4 (net_ParseIP addr0) = None); s = addrSet D chainName (cTable chain) peer i isV6 in
          both (Some (setMsgs s (map (\<lambda>addr. elem (ipKey addr)) addrs)))
            (Some [ruleMsg (cTable chain) (cName chain)
               (addrMatch chainName isV6 s @ setMark be peerRuleMark @ [counter0, verdict VerdictReturn])]))"

definition peerAddrs :: "policyDeps \<Rightarrow> policyPeer \<Rightarrow> podInfo \<Rightarrow> string list \<Rightarrow> string list result" where
  "peerAddrs D peer podInfo networks =
     (case (case peerPodSelector peer of
              Some s \<Rightarrow> LabelSelectorAsSelector (labelSyntax D) s | None \<Rightarrow> Inr Everything) of
        Inl e \<Rightarrow> Inl e
      | Inr podSelector \<Rightarrow>
          (case ListPods D podSelector of
             Inl e \<Rightarrow> Inl e
           | Inr pods \<Rightarrow>
               (case (case peerNsSelector peer of
                        Some s \<Rightarrow> map_sum id Some (LabelSelectorAsSelector (labelSyntax D) s) | None \<Rightarrow> Inr None) of
                  Inl e \<Rightarrow> Inl e
                | Inr nsSelector \<Rightarrow>
                    collectPodIPs D networks nsSelector (piInterfaces podInfo) pods ([], []))))"

definition selectorMsgs ::
  "bool \<Rightarrow> policyDeps \<Rightarrow> string \<Rightarrow> nft_chain \<Rightarrow> policyPeer \<Rightarrow> podInfo \<Rightarrow> string list \<Rightarrow> nat \<Rightarrow> nft_msg list option" where
  "selectorMsgs be D chainName chain peer podInfo networks i =
     Option.bind (opt (peerAddrs D peer podInfo networks)) (\<lambda>addrs.
     Option.bind (opt (splitAddrs addrs [] [])) (\<lambda>(v4, v6).
       both (addrMsgs be D chainName chain peer i v4) (addrMsgs be D chainName chain peer i v6)))"

definition peerMsgs ::
  "bool \<Rightarrow> policyDeps \<Rightarrow> string \<Rightarrow> nft_chain \<Rightarrow> podInfo \<Rightarrow> string list \<Rightarrow> nat \<times> policyPeer \<Rightarrow> nft_msg list option" where
  "peerMsgs be D peersName peersChain podInfo networks = (\<lambda>(i, peer).
     case peerIPBlock peer of
       Some block \<Rightarrow> blockMsgs be peersName peersChain block i
     | None \<Rightarrow>
         if peerPodSelector peer \<noteq> None \<or> peerNsSelector peer \<noteq> None
         then selectorMsgs be D peersName peersChain peer podInfo networks i else None)"

definition peersName :: "string \<Rightarrow> nat \<Rightarrow> string" where
  "peersName chainName i = nftNameWithSuffix chainName ''-'' (peersChainSuffix @ ''-'' @ fmt_d i)"

definition peersChain :: "string \<Rightarrow> nft_table \<Rightarrow> nat \<Rightarrow> nft_chain" where
  "peersChain chainName t i = shortChain (plainChain (peersName chainName i) t)"

definition peersMsgs ::
  "bool \<Rightarrow> policyDeps \<Rightarrow> string \<Rightarrow> nft_chain \<Rightarrow> policyPeer list \<Rightarrow> podInfo \<Rightarrow> string list \<Rightarrow> nat \<Rightarrow> nft_msg list option" where
  "peersMsgs be D chainName chain peers podInfo networks i =
     both (jumpMsgs chain (peersChain chainName (cTable chain) i))
    (both (allOf (map (peerMsgs be D (peersName chainName i) (peersChain chainName (cTable chain) i) podInfo networks)
                   (enumerate 0 peers)))
       (if length peers = 0
        then Some [ruleMsg (cTable chain) (cName (peersChain chainName (cTable chain) i)) (counter0 # setMark be peerRuleMark)]
        else Some []))"

definition policyRuleMsgs ::
  "bool \<Rightarrow> policyDeps \<Rightarrow> string \<Rightarrow> nft_chain \<Rightarrow> podInfo \<Rightarrow> string list \<Rightarrow> nat \<times> policyRule \<Rightarrow> nft_msg list option" where
  "policyRuleMsgs be D chainName chain podInfo networks = (\<lambda>(i, rule).
     both (Some [ruleMsg (cTable chain) (cName chain) (markReset be)])
    (both (portsMsgs be chainName chain (prPorts rule) i)
    (both (peersMsgs be D chainName chain (prPeers rule) podInfo networks i)
          (Some [ruleMsg (cTable chain) (cName chain) (markCheck be)]))))"

definition directionRules :: "string \<Rightarrow> policy \<Rightarrow> policyRule list" where
  "directionRules chainName policy =
     (case (if isIngressChain chainName then spIngress (polSpec policy) else spEgress (polSpec policy)) of
        None \<Rightarrow> [] | Some rs \<Rightarrow> rs)"

definition policyChain :: "nft_chain \<Rightarrow> policy \<Rightarrow> nft_chain" where
  "policyChain entry policy = shortChain (plainChain (policyChainName (cName entry) policy) (cTable entry))"

definition interfaceMsgs :: "nft_chain \<Rightarrow> nft_chain \<Rightarrow> string list \<Rightarrow> interfaceInfo \<Rightarrow> nft_msg list option" where
  "interfaceMsgs entry chain networks intf =
     (if intf_CheckPolicyNetwork intf networks
      then Some [ruleMsg (cTable entry) (cName entry)
             [metaLoad (getMetaKeyInterface (cName entry)), cmpEq (ifname (InterfaceName intf)),
              counter0, jumpTo (cName chain)]]
      else Some [])"

definition podMsgs ::
  "bool \<Rightarrow> policyDeps \<Rightarrow> nft_chain \<Rightarrow> podInfo \<Rightarrow> policy \<Rightarrow> string list \<Rightarrow> nft_msg list option" where
  "podMsgs be D entry podInfo policy networks =
     (let chainName = policyChainName (cName entry) policy; chain = policyChain entry policy in
      both (Some [MsgNewChain chain])
     (both (allOf (map (interfaceMsgs entry chain networks) (piInterfaces podInfo)))
           (allOf (map (policyRuleMsgs be D chainName chain podInfo networks)
              (enumerate 0 (directionRules chainName policy))))))"

definition directionMsgs ::
  "bool \<Rightarrow> policyDeps \<Rightarrow> nft_chain \<Rightarrow> podInfo \<Rightarrow> internalPolicy list \<Rightarrow> nft_msg list option" where
  "directionMsgs be D entry podInfo policies =
     (if 0 < length policies then
        both (allOf (map (\<lambda>p. both (podMsgs be D entry podInfo (ipPolicy p) (ipNetworks p))
                                   (Some [ruleMsg (cTable entry) (cName entry) (markCheck be)])) policies))
             (Some [ruleMsg (cTable entry) (cName entry) [counter0, verdict VerdictDrop]])
      else Some [])"

subsection \<open>The policy operations send these messages\<close>

lemma renders_then_ret: "renders E ft m r (\<lambda>_. True) \<Longrightarrow> renders E ft (seq m (\<lambda>_. ret x)) r (\<lambda>_. True)"
  using renders_seq [of E ft m r "\<lambda>_. True" "\<lambda>_. ret x" "Some []" "\<lambda>_. True"] by (simp add: renders_ret)

lemma renders_rule':
  "es' = map listed_expr es \<Longrightarrow>
   renders E ft (updateRule E (mkRule t ch c es) AddRule force) (Some [ruleMsg t ch es']) (\<lambda>_. True)"
  by (simp add: renders_rule)

lemma renders_applyMarkReset:
  "cTable chain = ft \<Longrightarrow> renders E ft (applyMarkReset E name chain policyName i)
     (Some [ruleMsg (cTable chain) (cName chain) (markReset (hostBE E))]) (\<lambda>_. True)"
  unfolding applyMarkReset_def
  by (intro renders_filter renders_then_ret) (simp add: renders_rule' markReset_def)

lemma renders_applyMarkCheck:
  "renders E ft (applyMarkCheck E name chain policyName i)
     (Some [ruleMsg (cTable chain) (cName chain) (markCheck (hostBE E))]) (\<lambda>_. True)"
  unfolding applyMarkCheck_def by (intro renders_then_ret renders_rule') (simp add: markCheck_def)

lemma renders_applyGeneralMarkCheck:
  "cTable chain = ft \<Longrightarrow> renders E ft (applyGeneralMarkCheck E chain policy)
     (Some [ruleMsg (cTable chain) (cName chain) (markCheck (hostBE E))]) (\<lambda>_. True)"
  unfolding applyGeneralMarkCheck_def
  by (intro renders_filter renders_then_ret) (simp add: renders_rule' markCheck_def)

lemma renders_applyDropRemaining:
  "renders E ft (applyDropRemaining E chain force)
     (Some [ruleMsg (cTable chain) (cName chain) [counter0, verdict VerdictDrop]]) (\<lambda>_. True)"
  unfolding applyDropRemaining_def by (intro renders_then_ret renders_rule') simp

lemma renders_applyPodInterfaceRules:
  "cTable entry = ft \<Longrightarrow> renders E ft (applyPodInterfaceRules E entry chain policy intf)
     (Some [ruleMsg (cTable entry) (cName entry)
             [metaLoad (getMetaKeyInterface (cName entry)), cmpEq (ifname (InterfaceName intf)),
              counter0, jumpTo (cName chain)]]) (\<lambda>_. True)"
  unfolding applyPodInterfaceRules_def by (intro renders_filter) (simp add: renders_rule')

lemma renders_set_rule:
  assumes "\<not> sAnonymous s" "sID s = 0" "els \<noteq> []"
    and "\<And>s'. s'\<lparr>sID := 0\<rparr> = shortSet s \<Longrightarrow> renders E ft (f s') r R"
  shows "renders E ft (seq (updateSet E s els) f) (both (Some (setMsgs s els)) r) R"
  by (rule renders_seq [OF renders_updateSet [OF assms(1-3)] assms(4)])

lemma renders_wrapped_set_rule:
  assumes "\<not> sAnonymous s" "sID s = 0" "els \<noteq> []"
    and "\<And>s'. s'\<lparr>sID := 0\<rparr> = shortSet s \<Longrightarrow> renders E ft (f s') r R"
  shows "renders E ft (seq (wrapped t (updateSet E s els)) f) (both (Some (setMsgs s els)) r) R"
  by (rule renders_seq [OF renders_wrapped [OF renders_updateSet [OF assms(1-3)]] assms(4)])

lemma zero_set_simps [simp]: "\<not> sAnonymous zero_set" "sID zero_set = 0"
  by (simp_all add: zero_set_def)

lemma getInetSet_simps [simp]: "\<not> sAnonymous (getInetSet c n x)" "sID (getInetSet c n x) = 0"
  by (simp_all add: getInetSet_def Let_def)

lemma renders_protoPorts:
  "renders E ft (protoPorts E chain portsName portChain policyName protocol els)
     (protoMsgs (hostBE E) chain portsName portChain protocol els) (\<lambda>_. True)"
proof (cases "els = []")
  case True
  then show ?thesis by (simp add: protoPorts_def protoMsgs_def renders_ret)
next
  case False
  obtain suffix flag where p: "getProtocolInfo protocol = (suffix, flag)" by (cases "getProtocolInfo protocol")
  show ?thesis
    unfolding protoPorts_def protoMsgs_def applyProtoPortsRules_def using False p
    by (auto intro!: renders_set_rule renders_wrapped renders_then_ret renders_rule' simp: listed_lookup
        simp del: both_simps)
qed

lemma renders_jump:
  assumes "\<And>c'. c' = shortChain c \<Longrightarrow> renders E ft (f c') r R" and "cTable c = cTable chain"
  shows "renders E ft (seq (wrapped t (addChain E c)) (\<lambda>c'.
      seq (updateRule E (mkRule (cTable chain) (cName chain) (comment c') [counter0, jumpTo (cName c')]) AddRule False) (\<lambda>_. f c')))
    (both (jumpMsgs chain (shortChain c)) r) R"
proof -
  have assoc: "both (both a b) d = both a (both b d)" for a b d :: "'z list option"
    by (cases a; cases b; cases d) (auto simp: both_def)
  show ?thesis
    unfolding jumpMsgs_def assoc
    by (rule renders_seq [OF renders_wrapped [OF renders_addChain]], rule renders_seq [OF renders_rule'])
      (simp_all add: assms(1))
qed

lemma renders_applyPolicyPortsRules:
  "renders E ft (applyPolicyPortsRules E chainName chain policyName ports i)
     (portsMsgs (hostBE E) chainName chain ports i) (\<lambda>_. True)"
proof -
  have t: "cTable (plainChain x (cTable chain)) = cTable chain" for x by (simp add: plainChain_def)
  show ?thesis
    unfolding applyPolicyPortsRules_def portsMsgs_def Let_def portsChain_def
  proof (rule renders_jump [OF _ t], rule renders_lift, goal_cases)
    case (1 c x)
    obtain tcp udp sctp where x: "x = (tcp, udp, sctp)" by (cases x)
    show ?case
      unfolding x prod.case 1(1)
      by (rule renders_seq [OF renders_protoPorts])+
        (auto simp: markAllRule_def intro!: renders_then_ret renders_rule' renders_ret)
  qed
qed

lemma renders_applyPrefixes:
  "renders E ft (applyPrefixes E chainName chain policyName block i ps xs isV6)
     (prefixMsgs (hostBE E) chainName chain i ps xs isV6) (\<lambda>_. True)"
proof (cases "ps = []")
  case True
  then show ?thesis by (simp add: applyPrefixes_def prefixMsgs_def renders_ret Let_def)
next
  case False
  then have ps: "(0 < length ps) = True" by simp
  have x: "(0 < length xs) = (xs \<noteq> [])" by simp
  show ?thesis
    unfolding applyPrefixes_def prefixMsgs_def Let_def ps x if_True
  proof (rule renders_seq [where R = "\<lambda>_. True"], goal_cases)
    case 1
    show ?case
    proof (cases "xs = []")
      case True
      then show ?thesis by (simp add: renders_ret)
    next
      case False
      then have "(xs \<noteq> []) = True" by simp
      then show ?thesis
        unfolding exceptSet_def
        by (simp only: if_True, intro renders_wrapped_set_rule renders_then_ret renders_rule')
          (use False in \<open>simp_all add: listed_lookup addrMatch_def addrOffset_def\<close>)
    qed
  next
    case 2
    show ?case
      unfolding blockSet_def
      by (intro renders_wrapped_set_rule renders_then_ret renders_rule')
        (use False in \<open>simp_all add: listed_lookup addrMatch_def addrOffset_def\<close>)
  qed
qed

lemma renders_applyPolicyPeersRulesIPBlock:
  "renders E ft (applyPolicyPeersRulesIPBlock E chainName chain policyName block i)
     (blockMsgs (hostBE E) chainName chain block i) (\<lambda>_. True)"
  unfolding applyPolicyPeersRulesIPBlock_def blockMsgs_def
proof (rule renders_wrapped_lift, goal_cases)
  case (1 x)
  obtain x4 x6 where x: "x = (x4, x6)" by (cases x)
  show ?case
    unfolding x prod.case
  proof (rule renders_wrapped_lift, goal_cases)
    case (1 p)
    obtain p4 p6 where p: "p = (p4, p6)" by (cases p)
    show ?case
      unfolding p prod.case
      by (rule renders_seq [OF renders_wrapped [OF renders_applyPrefixes]], rule renders_wrapped [OF renders_applyPrefixes])
  qed
qed

lemma hash_string_hashText: "hash_string s = Inr (hashText s)"
  by (simp add: hashText_def hash_string_def)

lemma renders_addIPRule:
  "renders E ft (addIPRule E D chainName addrs chain policyName peer i)
     (addrMsgs (hostBE E) D chainName chain peer i addrs) (\<lambda>_. True)"
proof (cases addrs)
  case Nil
  then show ?thesis by (simp add: addIPRule_def addrMsgs_def renders_ret)
next
  case (Cons addr0 rest)
  have hash: "renders E ft (seq (wrapped t (lift_result (hash_string s))) f) r R"
    if "renders E ft (f (hashText s)) r R" for t s r R and f :: "string \<Rightarrow> ('a, unit) stm"
    using renders_wrapped_lift [of "hash_string s" E ft f "\<lambda>_. r" R t] that
    by (simp add: hash_string_hashText)
  show ?thesis
    unfolding addIPRule_def addrMsgs_def Cons list.case Let_def addrSet_def
    by (intro hash renders_set_rule renders_then_ret renders_rule')
      (simp_all add: listed_lookup addrMatch_def addrOffset_def)
qed

lemma renders_addIPRules:
  "renders E ft (addIPRules E D chainName addrs chain policyName peer i)
     (Option.bind (opt (splitAddrs addrs [] [])) (\<lambda>(v4, v6).
       both (addrMsgs (hostBE E) D chainName chain peer i v4) (addrMsgs (hostBE E) D chainName chain peer i v6)))
     (\<lambda>_. True)"
  unfolding addIPRules_def
proof (rule renders_lift, goal_cases)
  case (1 x)
  obtain v4 v6 where x: "x = (v4, v6)" by (cases x)
  show ?case
    unfolding x prod.case
    by (rule renders_seq [OF renders_wrapped [OF renders_addIPRule]], rule renders_wrapped [OF renders_addIPRule])
qed

lemma renders_error: "(\<And>n. \<exists>e n'. m n = (Inl e, n')) \<Longrightarrow> renders E ft m None R"
  unfolding renders_def
proof (intro allI impI)
  fix n assume "\<And>n. \<exists>e n'. m n = (Inl e, n')"
  then obtain e n' where "m n = (Inl e, n')" by blast
  then show "case m n of (Inr x, n') \<Rightarrow> \<exists>ms. None = Some ms \<and> R x \<and> extends ms n n'
     | (Inl e, n') \<Rightarrow> None = None \<or> (\<exists>ms. None = Some ms \<and> no_room n ms)" by simp
qed

lemma selector_addrs:
  "peerAddrs D peer podInfo networks = Inr addrs \<Longrightarrow>
     applyPolicyPeersRulesSelector E D chainName chain policyName peer podInfo networks i =
     wrapped ''add selector IP rules'' (addIPRules E D chainName addrs chain policyName peer i)"
  "peerAddrs D peer podInfo networks = Inl e \<Longrightarrow>
     \<exists>e n'. applyPolicyPeersRulesSelector E D chainName chain policyName peer podInfo networks i n = (Inl e, n')"
  unfolding peerAddrs_def applyPolicyPeersRulesSelector_def fun_eq_iff
  by (auto simp: seq_def wrapped_def lift_result_def ret_def split: option.splits sum.splits)

lemma renders_selector:
  "renders E ft (applyPolicyPeersRulesSelector E D chainName chain policyName peer podInfo networks i)
     (selectorMsgs (hostBE E) D chainName chain peer podInfo networks i) (\<lambda>_. True)"
proof (cases "peerAddrs D peer podInfo networks")
  case (Inl e)
  then show ?thesis by (auto simp: selectorMsgs_def intro!: renders_error selector_addrs(2))
next
  case (Inr addrs)
  then show ?thesis
    by (simp add: selectorMsgs_def selector_addrs(1) renders_wrapped renders_addIPRules)
qed

lemma renders_applyPeer:
  "renders E ft (applyPeer E D name chain policyName podInfo networks i peer)
     (peerMsgs (hostBE E) D name chain podInfo networks (i, peer)) (\<lambda>_. True)"
  unfolding applyPeer_def peerMsgs_def prod.case
  by (auto intro!: renders_wrapped renders_applyPolicyPeersRulesIPBlock renders_selector renders_fail
      simp del: not_None_eq split: option.split)

lemma renders_applyPolicyPeersRules:
  "renders E ft (applyPolicyPeersRules E D chainName chain policyName peers podInfo networks i)
     (peersMsgs (hostBE E) D chainName chain peers podInfo networks i) (\<lambda>_. True)"
proof -
  have t: "cTable (plainChain x (cTable chain)) = cTable chain" for x by (simp add: plainChain_def)
  show ?thesis
    unfolding applyPolicyPeersRules_def peersMsgs_def Let_def peersChain_def peersName_def
  proof (rule renders_jump [OF _ t], goal_cases)
    case (1 c)
    show ?case
      unfolding 1
    proof (rule renders_seq [OF renders_for_each], goal_cases)
      case (1 x)
      obtain j peer where x: "x = (j, peer)" by (cases x)
      show ?case unfolding x prod.case by (rule renders_applyPeer)
    next
      case 2
      show ?case by (auto simp: markAllRule_def intro!: renders_then_ret renders_rule' renders_ret)
    qed
  qed
qed

lemma renders_applyPolicyRule:
  assumes "cTable chain = ft"
  shows "renders E ft (applyPolicyRule E D chainName chain resetName policyName podInfo networks i rule)
     (policyRuleMsgs (hostBE E) D chainName chain podInfo networks (i, rule)) (\<lambda>_. True)"
  unfolding applyPolicyRule_def policyRuleMsgs_def prod.case
  by (rule renders_seq [OF renders_wrapped [OF renders_applyMarkReset [OF assms]]],
      rule renders_seq [OF renders_wrapped [OF renders_applyPolicyPortsRules]],
      rule renders_seq [OF renders_wrapped [OF renders_applyPolicyPeersRules]],
      rule renders_wrapped [OF renders_applyMarkCheck])

lemma renders_interface:
  assumes "cTable entry = ft"
  shows "renders E ft (if intf_CheckPolicyNetwork intf networks then
       seq (wrapped t (applyPodInterfaceRules E entry chain policy intf)) (\<lambda>newRule. ret (if newRule then True else b))
     else ret b) (interfaceMsgs entry chain networks intf) (\<lambda>_. True)"
proof -
  have "renders E ft (seq (wrapped t (applyPodInterfaceRules E entry chain policy intf))
      (\<lambda>newRule. ret (if newRule then True else b)))
    (both (Some [ruleMsg (cTable entry) (cName entry)
             [metaLoad (getMetaKeyInterface (cName entry)), cmpEq (ifname (InterfaceName intf)),
              counter0, jumpTo (cName chain)]]) (Some [])) (\<lambda>_. True)"
    by (rule renders_seq [OF renders_wrapped [OF renders_applyPodInterfaceRules [OF assms]]]) (simp add: renders_ret)
  then show ?thesis by (simp add: interfaceMsgs_def renders_ret)
qed

lemma renders_applyPodRules:
  assumes "cTable entry = ft"
  shows "renders E ft (applyPodRules E D entry podInfo policy networks)
     (podMsgs (hostBE E) D entry podInfo policy networks) (\<lambda>_. True)"
proof -
  let ?name = "policyChainName (cName entry) policy"
  have pc: "shortChain (plainChain ?name ft) = policyChain entry policy" by (simp add: policyChain_def assms)
  have t: "cTable (policyChain entry policy) = ft" by (simp add: policyChain_def shortChain_def plainChain_def assms)
  have rules: "renders E ft (for_each (enumerate 0 rs) (\<lambda>(i, r).
        applyPolicyRule E D ?name (policyChain entry policy) x y podInfo networks i r))
      (allOf (map (policyRuleMsgs (hostBE E) D ?name (policyChain entry policy) podInfo networks) (enumerate 0 rs))) (\<lambda>_. True)"
    for rs x y
    by (rule renders_for_each) (auto intro: renders_applyPolicyRule [OF t])
  show ?thesis
    unfolding applyPodRules_def podMsgs_def Let_def
  proof (rule renders_filter, rule renders_seq [OF renders_wrapped [OF renders_addChain [of E ft "plainChain ?name ft", unfolded pc]]], goal_cases)
    case (1 c)
    show ?case
      unfolding 1
    proof (rule renders_seq [OF renders_for_acc], goal_cases)
      case (1 intf b)
      show ?case by (rule renders_interface [OF assms])
    next
      case (2 b)
      show ?case using rules by (simp add: directionRules_def renders_then_ret)
    qed
  qed
qed

lemma renders_applyDirection:
  assumes "cTable chain = ft"
  shows "renders E ft (applyDirection E D (\<lambda>_. chain) podInfo policies)
     (directionMsgs (hostBE E) D chain podInfo policies) (\<lambda>_. True)"
proof (cases "policies = []")
  case True
  then show ?thesis by (simp add: applyDirection_def directionMsgs_def renders_ret)
next
  case False
  have one: "renders E ft (seq (wrapped t (applyPodRules E D chain podInfo (ipPolicy p) (ipNetworks p))) (\<lambda>newRules.
        seq (wrapped t' (applyGeneralMarkCheck E chain (ipPolicy p))) (\<lambda>_. ret (if newRules then True else b))))
      (both (podMsgs (hostBE E) D chain podInfo (ipPolicy p) (ipNetworks p))
        (Some [ruleMsg (cTable chain) (cName chain) (markCheck (hostBE E))])) (\<lambda>_. True)" for p t t' b
    by (rule renders_seq [OF renders_wrapped [OF renders_applyPodRules [OF assms]]],
        rule renders_then_ret [OF renders_wrapped [OF renders_applyGeneralMarkCheck [OF assms]]])
  have gets: "seq (gets (\<lambda>_. chain)) f = f chain" for f :: "nft_chain \<Rightarrow> ('a, unit) stm"
    by (simp add: seq_def gets_def fun_eq_iff)
  have "0 < length policies" using False by simp
  then show ?thesis
    unfolding applyDirection_def directionMsgs_def gets
    by (simp only: if_True, intro renders_seq [OF renders_for_acc] one renders_wrapped [OF renders_applyDropRemaining])
qed

text \<open>
  The whole direction in a namespace without policy objects: the run returns without an error
  exactly when the messages exist and the transaction IDs last, and then it has sent them.
\<close>

lemma applyDirection_sends:
  assumes "fresh (kern E) (kst (nft n))" and "cTable (entry n) = nfilter n"
  shows "applyDirection E D entry podInfo policies n = (Inr x, n') \<Longrightarrow>
      \<exists>ms. directionMsgs (hostBE E) D (entry n) podInfo policies = Some ms \<and> extends ms n n'"
    and "applyDirection E D entry podInfo policies n = (Inl e, n') \<Longrightarrow>
      directionMsgs (hostBE E) D (entry n) podInfo policies = None \<or>
      (\<exists>ms. directionMsgs (hostBE E) D (entry n) podInfo policies = Some ms \<and> no_room n ms)"
proof -
  have "applyDirection E D entry podInfo policies n = applyDirection E D (\<lambda>_. entry n) podInfo policies n"
    by (simp add: applyDirection_def seq_def gets_def)
  then show "applyDirection E D entry podInfo policies n = (Inr x, n') \<Longrightarrow>
      \<exists>ms. directionMsgs (hostBE E) D (entry n) podInfo policies = Some ms \<and> extends ms n n'"
    and "applyDirection E D entry podInfo policies n = (Inl e, n') \<Longrightarrow>
      directionMsgs (hostBE E) D (entry n) podInfo policies = None \<or>
      (\<exists>ms. directionMsgs (hostBE E) D (entry n) podInfo policies = Some ms \<and> no_room n ms)"
    using rendersD [OF renders_applyDirection [OF assms(2)] assms(1) refl] by simp_all
qed

text \<open>What was sent between two states.\<close>

definition sent :: "'k nftState \<Rightarrow> 'k nftState \<Rightarrow> nft_msg list" where
  "sent n n' = map strip (drop (length (messages (nft n))) (messages (nft n')))"

lemma extends_sent: "extends ms n n' \<Longrightarrow> sent n n' = ms"
  by (simp add: extends_def sent_def drop_map [symmetric])

end
