(* ===== verification/Packet.thy ===== *)
theory Packet
  imports Rendering
begin

text \<open>
  What the kernel does with a packet under the rules it was sent. The packet path is a
  parameter: \<open>nft_datapath\<close> states the documented behaviour of the expressions and verdicts the
  daemon generates, and \<open>refPath\<close> is an implementation of it that can be evaluated. The
  lemmas of the locale are the meaning of the expression lists of Rendering.
\<close>

unbundle bit_operations_syntax

subsection \<open>Rules and sets installed by a list of messages\<close>

text \<open>What a set matches: an interval set by its markers, any other set by its keys.\<close>

definition setMatch :: "bool \<Rightarrow> set_element list \<Rightarrow> byte list \<Rightarrow> bool" where
  "setMatch interval els k = (if interval then interval_match els k else list_ex (\<lambda>e. eKey e = k) els)"

record ruleset =
  rsRules :: "string \<Rightarrow> nft_expr list list"
  rsMember :: "string \<Rightarrow> byte list \<Rightarrow> bool"

text \<open>A rule that is added goes to the end of its chain, one that is inserted to the front.\<close>

fun addedRules :: "nft_table \<Rightarrow> string \<Rightarrow> nft_msg list \<Rightarrow> nft_expr list list" where
  "addedRules t ch [] = []"
| "addedRules t ch (MsgNewRule OpAdd r # ms) =
     (if rTable r = t \<and> rChain r = ch then [rExprs r] else []) @ addedRules t ch ms"
| "addedRules t ch (m # ms) = addedRules t ch ms"

fun insertedRules :: "nft_table \<Rightarrow> string \<Rightarrow> nft_msg list \<Rightarrow> nft_expr list list" where
  "insertedRules t ch [] = []"
| "insertedRules t ch (MsgNewRule OpInsert r # ms) =
     insertedRules t ch ms @ (if rTable r = t \<and> rChain r = ch then [rExprs r] else [])"
| "insertedRules t ch (m # ms) = insertedRules t ch ms"

fun setElements :: "nft_table \<Rightarrow> string \<Rightarrow> nft_msg list \<Rightarrow> set_element list" where
  "setElements t name [] = []"
| "setElements t name (MsgNewSetElem s es # ms) =
     (if sTable s = t \<and> sName s = name then es else []) @ setElements t name ms"
| "setElements t name (m # ms) = setElements t name ms"

fun intervalSet :: "nft_table \<Rightarrow> string \<Rightarrow> nft_msg list \<Rightarrow> bool" where
  "intervalSet t name [] = False"
| "intervalSet t name (MsgNewSet s k # ms) =
     (sTable s = t \<and> sName s = name \<and> sInterval s \<or> intervalSet t name ms)"
| "intervalSet t name (m # ms) = intervalSet t name ms"

text \<open>The content of a table that was empty before the messages.\<close>

definition rulesetOf :: "nft_table \<Rightarrow> nft_msg list \<Rightarrow> ruleset" where
  "rulesetOf t ms = \<lparr>
     rsRules = (\<lambda>ch. insertedRules t ch ms @ addedRules t ch ms),
     rsMember = (\<lambda>name. setMatch (intervalSet t name ms) (setElements t name ms))\<rparr>"

subsection \<open>The packet path\<close>

type_synonym regs = "u32 \<Rightarrow> byte list"

text \<open>
  A rule ends without a verdict or with one; the packet mark may have changed on the way. The
  evaluation of a chain drops the packet, accepts it, or returns to the caller.
\<close>

datatype flow = Break u32 | Stop int string u32

datatype outcome = Dropped | Accepted | Returned u32

record 'p datapath =
  dp_meta :: "'p \<Rightarrow> u32 \<Rightarrow> byte list"
  dp_ct :: "'p \<Rightarrow> u32"
  dp_payload :: "'p \<Rightarrow> u32 \<Rightarrow> u32 \<Rightarrow> u32 \<Rightarrow> byte list option"
  dp_rule :: "(string \<Rightarrow> byte list \<Rightarrow> bool) \<Rightarrow> 'p \<Rightarrow> nft_expr list \<Rightarrow> regs \<Rightarrow> u32 \<Rightarrow> flow"
  dp_chain :: "nat \<Rightarrow> ruleset \<Rightarrow> 'p \<Rightarrow> nft_expr list list \<Rightarrow> u32 \<Rightarrow> outcome option"

definition bitwiseBytes :: "byte list \<Rightarrow> byte list \<Rightarrow> byte list \<Rightarrow> byte list" where
  "bitwiseBytes bs m x = map2 (XOR) (map2 (AND) bs m) x"

text \<open>
  The laws: an expression list runs from left to right over the registers and the mark; a
  comparison or a lookup that fails, or a header that is too short, ends the rule; chains run
  their rules in order, and a jump continues after the rule when the target chain returns. The
  first argument of \<open>dp_chain\<close> is the number of jumps that may still be nested (the kernel
  allows 16).
\<close>

locale nft_datapath =
  fixes K :: "'p datapath" and be :: bool
  assumes rule_end: "dp_rule K S p [] reg mk = Break mk"
    and meta_mark: "dp_rule K S p (Meta MetaKeyMARK False r # es) reg mk =
      dp_rule K S p es (reg(r := NativeEndian_PutUint32 be mk)) mk"
    and meta_load: "k \<in> {MetaKeyIIFNAME, MetaKeyOIFNAME, MetaKeyNFPROTO, MetaKeyL4PROTO} \<Longrightarrow>
      dp_rule K S p (Meta k False r # es) reg mk = dp_rule K S p es (reg(r := dp_meta K p k)) mk"
    and meta_set: "reg r = NativeEndian_PutUint32 be w \<Longrightarrow>
      dp_rule K S p (Meta MetaKeyMARK True r # es) reg mk = dp_rule K S p es reg w"
    and cmp_eq: "dp_rule K S p (Cmp CmpOpEq r d # es) reg mk =
      (if take (length d) (reg r) = d then dp_rule K S p es reg mk else Break mk)"
    and cmp_neq: "dp_rule K S p (Cmp CmpOpNeq r d # es) reg mk =
      (if take (length d) (reg r) \<noteq> d then dp_rule K S p es reg mk else Break mk)"
    and ct_state: "dp_rule K S p (Ct r False CtKeySTATE 0 False # es) reg mk =
      dp_rule K S p es (reg(r := NativeEndian_PutUint32 be (dp_ct K p))) mk"
    and payload: "dp_rule K S p (Payload 0 r 0 base off len 0 0 0 # es) reg mk =
      (case dp_payload K p base off len of
         None \<Rightarrow> Break mk | Some bs \<Rightarrow> dp_rule K S p es (reg(r := bs)) mk)"
    and payload_length: "dp_payload K p base off len = Some bs \<Longrightarrow> length bs = unat len"
    and lookup: "dp_rule K S p (Lookup r 0 False i name False # es) reg mk =
      (if S name (reg r) then dp_rule K S p es reg mk else Break mk)"
    and bitwise: "length (reg r) = 4 \<Longrightarrow>
      dp_rule K S p (Bitwise r r' 4 m x # es) reg mk = dp_rule K S p es (reg(r' := bitwiseBytes (reg r) m x)) mk"
    and counter: "dp_rule K S p (Counter packets bytes # es) reg mk = dp_rule K S p es reg mk"
    and verdict_stop: "dp_rule K S p (Verdict v c # es) reg mk = Stop v c mk"
    and chain_end: "dp_chain K n R p [] mk = Some (Returned mk)"
    and chain_break: "dp_rule K (rsMember R) p rule (\<lambda>_. []) mk = Break mk' \<Longrightarrow>
      dp_chain K n R p (rule # rules) mk = dp_chain K n R p rules mk'"
    and chain_drop: "dp_rule K (rsMember R) p rule (\<lambda>_. []) mk = Stop VerdictDrop c mk' \<Longrightarrow>
      dp_chain K n R p (rule # rules) mk = Some Dropped"
    and chain_accept: "dp_rule K (rsMember R) p rule (\<lambda>_. []) mk = Stop VerdictAccept c mk' \<Longrightarrow>
      dp_chain K n R p (rule # rules) mk = Some Accepted"
    and chain_return: "dp_rule K (rsMember R) p rule (\<lambda>_. []) mk = Stop VerdictReturn c mk' \<Longrightarrow>
      dp_chain K n R p (rule # rules) mk = Some (Returned mk')"
    and chain_jump: "dp_rule K (rsMember R) p rule (\<lambda>_. []) mk = Stop VerdictJump c mk' \<Longrightarrow>
      dp_chain K (Suc n) R p (rule # rules) mk =
        (case dp_chain K n R p (rsRules R c) mk' of
           Some (Returned mk'') \<Rightarrow> dp_chain K (Suc n) R p rules mk''
         | res \<Rightarrow> res)"

subsection \<open>An implementation of the packet path\<close>

record packet =
  iifname :: string
  oifname :: string
  nfproto :: byte
  l4proto :: byte
  ctState :: u32
  networkHeader :: "byte list"
  transportHeader :: "byte list"

definition interfaceBytes :: "string \<Rightarrow> byte list" where
  "interfaceBytes n = take 16 (bytes_of n @ replicate 16 0)"

definition refMeta :: "packet \<Rightarrow> u32 \<Rightarrow> byte list" where
  "refMeta p k =
     (if k = MetaKeyIIFNAME then interfaceBytes (iifname p)
      else if k = MetaKeyOIFNAME then interfaceBytes (oifname p)
      else if k = MetaKeyNFPROTO then [nfproto p]
      else if k = MetaKeyL4PROTO then [l4proto p] else [])"

definition refPayload :: "packet \<Rightarrow> u32 \<Rightarrow> u32 \<Rightarrow> u32 \<Rightarrow> byte list option" where
  "refPayload p base off len =
     (let h = (if base = PayloadBaseNetworkHeader then networkHeader p
               else if base = PayloadBaseTransportHeader then transportHeader p else []) in
      if unat off + unat len \<le> length h then Some (take (unat len) (drop (unat off) h)) else None)"

definition NativeEndian_Uint32 :: "bool \<Rightarrow> byte list \<Rightarrow> u32" where
  "NativeEndian_Uint32 be bs = foldl (\<lambda>a b. push_bit 8 a OR ucast b) 0 (if be then bs else rev bs)"

text \<open>Expressions that the daemon never generates end the rule.\<close>

fun refRule ::
  "bool \<Rightarrow> (string \<Rightarrow> byte list \<Rightarrow> bool) \<Rightarrow> packet \<Rightarrow> nft_expr list \<Rightarrow> regs \<Rightarrow> u32 \<Rightarrow> flow" where
  "refRule be S p [] reg mk = Break mk"
| "refRule be S p (Meta k False r # es) reg mk =
     refRule be S p es (reg(r := if k = MetaKeyMARK then NativeEndian_PutUint32 be mk else refMeta p k)) mk"
| "refRule be S p (Meta k True r # es) reg mk =
     (if k = MetaKeyMARK then refRule be S p es reg (NativeEndian_Uint32 be (reg r)) else Break mk)"
| "refRule be S p (Cmp op r d # es) reg mk =
     (if (take (length d) (reg r) = d) = (op = CmpOpEq) then refRule be S p es reg mk else Break mk)"
| "refRule be S p (Payload op r src base off len ct co cf # es) reg mk =
     (case (if op = 0 then refPayload p base off len else None) of
        None \<Rightarrow> Break mk | Some bs \<Rightarrow> refRule be S p es (reg(r := bs)) mk)"
| "refRule be S p (Lookup r d isd i name invert # es) reg mk =
     (if S name (reg r) \<noteq> invert then refRule be S p es reg mk else Break mk)"
| "refRule be S p (Bitwise r r' len m x # es) reg mk =
     refRule be S p es (reg(r' := bitwiseBytes (take (unat len) (reg r)) m x)) mk"
| "refRule be S p (Ct r src key dir withDir # es) reg mk =
     (if \<not> src \<and> key = CtKeySTATE then refRule be S p es (reg(r := NativeEndian_PutUint32 be (ctState p))) mk else Break mk)"
| "refRule be S p (Counter b c # es) reg mk = refRule be S p es reg mk"
| "refRule be S p (Verdict v c # es) reg mk = Stop v c mk"
| "refRule be S p (e # es) reg mk = Break mk"

fun refChain :: "bool \<Rightarrow> nat \<Rightarrow> ruleset \<Rightarrow> packet \<Rightarrow> nft_expr list list \<Rightarrow> u32 \<Rightarrow> outcome option" where
  "refChain be d R p [] mk = Some (Returned mk)"
| "refChain be d R p (r # rs) mk =
     (case refRule be (rsMember R) p r (\<lambda>_. []) mk of
        Break mk' \<Rightarrow> refChain be d R p rs mk'
      | Stop v c mk' \<Rightarrow>
          if v = VerdictDrop then Some Dropped
          else if v = VerdictAccept then Some Accepted
          else if v = VerdictReturn then Some (Returned mk')
          else
            (case d of
               0 \<Rightarrow> None
             | Suc d' \<Rightarrow>
                 if v = VerdictGoto then refChain be d' R p (rsRules R c) mk'
                 else if v = VerdictJump then
                   (case refChain be d' R p (rsRules R c) mk' of
                      Some (Returned mk'') \<Rightarrow> refChain be d R p rs mk''
                    | res \<Rightarrow> res)
                 else None))"

definition refPath :: "bool \<Rightarrow> packet datapath" where
  "refPath be = \<lparr>dp_meta = refMeta, dp_ct = ctState, dp_payload = refPayload, dp_rule = refRule be, dp_chain = refChain be\<rparr>"

subsection \<open>Words in byte order\<close>

lemma PutUint32_length [simp]: "length (NativeEndian_PutUint32 be w) = 4"
  by (simp add: NativeEndian_PutUint32_def BigEndian_PutUint32_def)

lemma Uint32_PutUint32 [simp]: "NativeEndian_Uint32 be (NativeEndian_PutUint32 be w) = w"
proof -
  have "push_bit 8 (push_bit 8 (push_bit 8 (ucast (ucast (drop_bit 24 w) :: byte)) OR ucast (ucast (drop_bit 16 w) :: byte))
      OR ucast (ucast (drop_bit 8 w) :: byte)) OR ucast (ucast w :: byte) = w"
    (is "?v = w")
  proof (rule bit_word_eqI)
    fix n assume "n < LENGTH(32)"
    then consider "n < 8" | "8 \<le> n" "n < 16" | "16 \<le> n" "n < 24" | "24 \<le> n" "n < 32" by fastforce
    then show "bit ?v n = bit w n" by cases (auto simp: bit_simps)
  qed
  then show ?thesis
    by (simp add: NativeEndian_Uint32_def NativeEndian_PutUint32_def BigEndian_PutUint32_def)
qed

lemma PutUint32_inject [simp]:
  "NativeEndian_PutUint32 be v = NativeEndian_PutUint32 be w \<longleftrightarrow> v = w"
  by (metis Uint32_PutUint32)

lemma bitwiseBytes_PutUint32 [simp]:
  "bitwiseBytes (NativeEndian_PutUint32 be w) (NativeEndian_PutUint32 be m) (NativeEndian_PutUint32 be x) =
   NativeEndian_PutUint32 be ((w AND m) XOR x)"
proof -
  have "(ucast (drop_bit k w) AND ucast (drop_bit k m)) XOR ucast (drop_bit k x) =
      (ucast (drop_bit k ((w AND m) XOR x)) :: byte)" for k
    by (rule bit_word_eqI) (auto simp: bit_simps)
  from this [of 24] this [of 16] this [of 8] this [of 0] show ?thesis
    by (simp add: bitwiseBytes_def NativeEndian_PutUint32_def BigEndian_PutUint32_def)
qed

lemma refPath_simps [simp]:
  "dp_meta (refPath be) = refMeta" "dp_ct (refPath be) = ctState" "dp_payload (refPath be) = refPayload"
  "dp_rule (refPath be) = refRule be" "dp_chain (refPath be) = refChain be"
  by (simp_all add: refPath_def)

interpretation refPath: nft_datapath "refPath be" be
  by unfold_locales
    (auto simp: nft_consts bitwiseBytes_def refPayload_def Let_def split: option.split outcome.split if_splits)

subsection \<open>The meaning of the generated expression lists\<close>

lemma mark_set: "(mk AND NOT m) XOR m = mk OR (m :: u32)"
  by (rule bit_word_eqI) (auto simp: bit_simps)

context nft_datapath
begin

lemmas expr_laws = meta_mark meta_set cmp_eq cmp_neq ct_state payload lookup bitwise counter verdict_stop rule_end meta_load

lemma rule_setMark:
  "dp_rule K S p (setMark be m) reg mk = Break (mk OR m)"
  "dp_rule K S p (counter0 # setMark be m) reg mk = Break (mk OR m)"
  "dp_rule K S p (setMark be m @ [counter0, verdict v]) reg mk = Stop v [] (mk OR m)"
  by (simp_all add: setMark_def expr_defs expr_laws mark_set
      meta_set [where w = "(mk AND NOT m) XOR m"])

lemma rule_markReset: "dp_rule K S p (markReset be) reg mk = Break (mk AND NOT matchRuleMark)"
  by (simp add: markReset_def expr_defs expr_laws zeroRuleMark_def
      meta_set [where w = "mk AND NOT matchRuleMark"]
      bitwiseBytes_PutUint32 [where x = 0, simplified])

lemma rule_markCheck:
  "dp_rule K S p (markCheck be) reg mk =
     (if mk AND matchRuleMark = matchRuleMark then Stop VerdictReturn [] mk else Break mk)"
  by (simp add: markCheck_def expr_defs expr_laws zeroRuleMark_def
      bitwiseBytes_PutUint32 [where x = 0, simplified])

lemma rule_jump: "dp_rule K S p [counter0, jumpTo c] reg mk = Stop VerdictJump c mk"
  by (simp add: expr_defs expr_laws)

lemma rule_drop: "dp_rule K S p [counter0, verdict VerdictDrop] reg mk = Stop VerdictDrop [] mk"
  by (simp add: expr_defs expr_laws)

lemma rule_interface:
  "dp_rule K S p [metaLoad (getMetaKeyInterface ch), cmpEq (ifname n), counter0, jumpTo c] reg mk =
     (if take 16 (dp_meta K p (getMetaKeyInterface ch)) = ifname n then Stop VerdictJump c mk else Break mk)"
proof -
  have "length (ifname n) = 16" by (simp add: ifname_def Let_def)
  then show ?thesis
    by (simp add: expr_defs expr_laws getMetaKeyInterface_def)
qed

end

end
