(* ===== verification/Installed.thy ===== *)
theory Installed
  imports Packet
begin

text \<open>
  The structure of the message lists of Rendering: which chains and sets they create, in which
  chains they put rules, and that a part of a list determines the chains and sets it creates
  when no name is used twice.
\<close>

subsection \<open>Chains, rules and sets of a message list\<close>

fun newChains :: "nft_msg list \<Rightarrow> string list" where
  "newChains [] = []"
| "newChains (MsgNewChain c # ms) = cName c # newChains ms"
| "newChains (m # ms) = newChains ms"

fun ruleChains :: "nft_msg list \<Rightarrow> string list" where
  "ruleChains [] = []"
| "ruleChains (MsgNewRule op r # ms) = rChain r # ruleChains ms"
| "ruleChains (m # ms) = ruleChains ms"

fun newSets :: "nft_msg list \<Rightarrow> nft_set list" where
  "newSets [] = []"
| "newSets (MsgNewSet s k # ms) = s # newSets ms"
| "newSets (m # ms) = newSets ms"

fun filledSets :: "nft_msg list \<Rightarrow> (nft_set \<times> set_element list) list" where
  "filledSets [] = []"
| "filledSets (MsgNewSetElem s es # ms) = (s, es) # filledSets ms"
| "filledSets (m # ms) = filledSets ms"

text \<open>Additions to one table only.\<close>

fun additionTo :: "nft_table \<Rightarrow> nft_msg \<Rightarrow> bool" where
  "additionTo t (MsgNewChain c) = (cTable c = t)"
| "additionTo t (MsgNewRule op r) = (op = OpAdd \<and> rTable r = t)"
| "additionTo t (MsgNewSet s k) = (sTable s = t)"
| "additionTo t (MsgNewSetElem s es) = (sTable s = t)"
| "additionTo t m = False"

lemma newChains_append [simp]: "newChains (ms @ ms') = newChains ms @ newChains ms'"
  by (induction ms rule: newChains.induct) simp_all

lemma ruleChains_append [simp]: "ruleChains (ms @ ms') = ruleChains ms @ ruleChains ms'"
  by (induction ms rule: ruleChains.induct) simp_all

lemma newSets_append [simp]: "newSets (ms @ ms') = newSets ms @ newSets ms'"
  by (induction ms rule: newSets.induct) simp_all

lemma filledSets_append [simp]: "filledSets (ms @ ms') = filledSets ms @ filledSets ms'"
  by (induction ms rule: filledSets.induct) simp_all

lemma addedRules_append [simp]: "addedRules t ch (ms @ ms') = addedRules t ch ms @ addedRules t ch ms'"
  by (induction t ch ms rule: addedRules.induct) simp_all

lemma addedRules_none: "ch \<notin> set (ruleChains ms) \<Longrightarrow> addedRules t ch ms = []"
  by (induction t ch ms rule: addedRules.induct) auto

lemma insertedRules_none: "list_all (additionTo t) ms \<Longrightarrow> insertedRules t ch ms = []"
  by (induction t ch ms rule: insertedRules.induct) auto

lemma setElements_none:
  "name \<notin> sName ` fst ` set (filledSets ms) \<Longrightarrow> setElements t name ms = []"
  by (induction t name ms rule: setElements.induct) auto

lemma setElements_filled:
  assumes "list_all (additionTo t) ms" "distinct (map (sName \<circ> fst) (filledSets ms))"
    and "(s, els) \<in> set (filledSets ms)"
  shows "setElements t (sName s) ms = els"
  using assms
proof (induction ms rule: filledSets.induct)
  case (2 s' es ms)
  show ?case
  proof (cases "(s', es) = (s, els)")
    case True
    with 2(3) have "sName s \<notin> sName ` fst ` set (filledSets ms)" by (auto simp: image_comp)
    with True 2(2) show ?thesis by (simp add: setElements_none)
  next
    case False
    with 2(4) have "(s, els) \<in> set (filledSets ms)" by auto
    moreover from this 2(3) have "sName s' \<noteq> sName s" by (force simp: image_iff)
    ultimately show ?thesis using 2 by simp
  qed
qed auto

lemma intervalSet_iff:
  "list_all (additionTo t) ms \<Longrightarrow>
   intervalSet t name ms \<longleftrightarrow> (\<exists>s \<in> set (newSets ms). sName s = name \<and> sInterval s)"
  by (induction t name ms rule: intervalSet.induct) auto

subsection \<open>Well-formed blocks\<close>

text \<open>
  A block adds to one table, fills each set it creates once, and puts rules only into chains
  it creates and into the given ones.
\<close>

definition block :: "nft_table \<Rightarrow> string set \<Rightarrow> nft_msg list \<Rightarrow> bool" where
  "block t P ms \<longleftrightarrow>
     list_all (additionTo t) ms \<and> newSets ms = map fst (filledSets ms) \<and>
     set (ruleChains ms) \<subseteq> P \<union> set (newChains ms)"

text \<open>What a table holds for the chains and sets that a block creates.\<close>

definition holds :: "nft_table \<Rightarrow> ruleset \<Rightarrow> nft_msg list \<Rightarrow> bool" where
  "holds t S ms \<longleftrightarrow>
     (\<forall>ch \<in> set (newChains ms). rsRules S ch = addedRules t ch ms) \<and>
     (\<forall>(s, els) \<in> set (filledSets ms). rsMember S (sName s) = setMatch (sInterval s) els)"

lemma block_Nil [simp]: "block t P []"
  by (simp add: block_def)

lemma block_append: "block t P ms \<Longrightarrow> block t P ms' \<Longrightarrow> block t P (ms @ ms')"
  by (auto simp: block_def)

lemma block_weaken: "block t P ms \<Longrightarrow> P \<subseteq> Q \<Longrightarrow> block t Q ms"
  by (auto simp: block_def)

lemma block_concat: "(\<And>ms. ms \<in> set mss \<Longrightarrow> block t P ms) \<Longrightarrow> block t P (concat mss)"
  by (induction mss) (auto intro: block_append)

lemma block_own: "block t (insert ch P) ms \<Longrightarrow> ch \<in> set (newChains ms) \<Longrightarrow> block t P ms"
  by (auto simp: block_def)

lemma holds_rulesetOf:
  assumes "block t {e} ms" "distinct (e # newChains ms)" "distinct (map sName (newSets ms))"
  shows "holds t (rulesetOf t ms) ms" and "rsRules (rulesetOf t ms) e = addedRules t e ms"
proof -
  from assms(1) have a: "list_all (additionTo t) ms" and p: "newSets ms = map fst (filledSets ms)"
    by (simp_all add: block_def)
  have d: "distinct (map (sName \<circ> fst) (filledSets ms))" using assms(3) by (simp add: p)
  have "rsMember (rulesetOf t ms) (sName s) = setMatch (sInterval s) els" if "(s, els) \<in> set (filledSets ms)" for s els
  proof -
    have s: "s \<in> set (newSets ms)" using that by (force simp: p)
    have "intervalSet t (sName s) ms = sInterval s"
      using s assms(3) unfolding intervalSet_iff [OF a] by (auto simp: distinct_map dest: inj_onD)
    then show ?thesis by (simp add: rulesetOf_def setElements_filled [OF a d that])
  qed
  then show "holds t (rulesetOf t ms) ms"
    by (auto simp: holds_def rulesetOf_def insertedRules_none [OF a])
  show "rsRules (rulesetOf t ms) e = addedRules t e ms"
    by (simp add: rulesetOf_def insertedRules_none [OF a])
qed

lemma holds_part:
  assumes "holds t S (as @ bs @ cs)" and "distinct (newChains (as @ bs @ cs))"
    and "block t P as" "block t P cs" and "P \<inter> set (newChains bs) = {}"
  shows "holds t S bs"
proof -
  have "addedRules t ch as = []" "addedRules t ch cs = []" if "ch \<in> set (newChains bs)" for ch
    using that assms(2-5) by (auto simp: block_def intro!: addedRules_none)
  with assms(1) show ?thesis by (auto simp: holds_def)
qed

subsection \<open>The blocks of the policy operations\<close>

lemma ruleMsg_simps [simp]:
  "newChains (ruleMsg t ch es # ms) = newChains ms" "ruleChains (ruleMsg t ch es # ms) = ch # ruleChains ms"
  "newSets (ruleMsg t ch es # ms) = newSets ms" "filledSets (ruleMsg t ch es # ms) = filledSets ms"
  "additionTo t' (ruleMsg t ch es) \<longleftrightarrow> t = t'"
  "addedRules t' ch' (ruleMsg t ch es # ms) = (if t = t' \<and> ch = ch' then [es] else []) @ addedRules t' ch' ms"
  by (simp_all add: ruleMsg_def)

lemma setMsgs_simps [simp]:
  "newChains (setMsgs s els) = []" "ruleChains (setMsgs s els) = []" "newSets (setMsgs s els) = [shortSet s]"
  "filledSets (setMsgs s els) = [(shortSet s, els)]" "list_all (additionTo t) (setMsgs s els) \<longleftrightarrow> sTable s = t"
  "addedRules t ch (setMsgs s els) = []"
  by (auto simp: setMsgs_def shortSet_def)

lemma block_rule: "ch \<in> P \<Longrightarrow> block t P [ruleMsg t ch es]"
  by (simp add: block_def)

lemma block_set_rule: "sTable s = t \<Longrightarrow> ch \<in> P \<Longrightarrow> block t P (setMsgs s els @ [ruleMsg t ch es])"
  by (simp add: block_def)

lemma set_tables [simp]:
  "sTable (getInetSet c n x) = cTable c" "sTable (blockSet n t i v) = t" "sTable (exceptSet n t i v) = t"
  "sTable (addrSet D n t peer i v) = t"
  by (simp_all add: getInetSet_def blockSet_def exceptSet_def addrSet_def Let_def)

lemma chain_tables [simp]:
  "cTable (portsChain n t i) = t" "cTable (peersChain n t i) = t" "cTable (policyChain entry p) = cTable entry"
  by (simp_all add: portsChain_def peersChain_def policyChain_def shortChain_def plainChain_def)

lemma block_protoMsgs:
  "protoMsgs be chain portsName portChain protocol els = Some ms \<Longrightarrow> cTable chain = t \<Longrightarrow> cTable portChain = t \<Longrightarrow>
   block t {cName portChain} ms"
  by (auto simp: protoMsgs_def block_set_rule split: if_splits)

lemma block_prefixMsgs:
  "prefixMsgs be name chain i ps xs v6 = Some ms \<Longrightarrow> block (cTable chain) {cName chain} ms"
  by (auto simp: prefixMsgs_def both_eq_Some block_def split: if_splits)

lemma block_blockMsgs:
  "blockMsgs be name chain b i = Some ms \<Longrightarrow> block (cTable chain) {cName chain} ms"
  by (auto simp: blockMsgs_def both_eq_Some Option.bind_eq_Some_conv split: prod.splits
      intro!: block_append dest: block_prefixMsgs)

lemma block_addrMsgs:
  "addrMsgs be D name chain peer i addrs = Some ms \<Longrightarrow> block (cTable chain) {cName chain} ms"
  by (auto simp: addrMsgs_def Let_def block_set_rule split: list.splits)

lemma block_selectorMsgs:
  "selectorMsgs be D name chain peer podInfo networks i = Some ms \<Longrightarrow> block (cTable chain) {cName chain} ms"
  by (auto simp: selectorMsgs_def both_eq_Some Option.bind_eq_Some_conv split: prod.splits
      intro!: block_append dest: block_addrMsgs)

lemma block_peerMsgs:
  "peerMsgs be D name chain podInfo networks x = Some ms \<Longrightarrow> block (cTable chain) {cName chain} ms"
  by (auto simp: peerMsgs_def block_blockMsgs block_selectorMsgs split: prod.splits option.splits if_splits)

lemma block_new_chain:
  "block t {cName c, ch} ms \<Longrightarrow> cTable c = t \<Longrightarrow> block t {ch} (MsgNewChain c # ruleMsg t ch es # ms)"
  by (auto simp: block_def)

text \<open>The parts of the larger lists.\<close>

lemma jumpMsgs_eq: "jumpMsgs chain target =
    Some [MsgNewChain target, ruleMsg (cTable chain) (cName chain) [counter0, jumpTo (cName target)]]"
  by (simp add: jumpMsgs_def)

lemma portsMsgs_parts:
  assumes "portsMsgs be name chain ports i = Some ms"
  obtains tcp udp sctp a b c d where "collectPorts ports [] [] [] = Inr (tcp, udp, sctp)"
    and "ms = [MsgNewChain (portsChain name (cTable chain) i),
        ruleMsg (cTable chain) (cName chain) [counter0, jumpTo (cName (portsChain name (cTable chain) i))]] @ a @ b @ c @ d"
    and "protoMsgs be chain (nftNameWithSuffix name ''-'' (portsChainSuffix @ ''-'' @ fmt_d i))
        (portsChain name (cTable chain) i) ''TCP'' tcp = Some a"
    and "protoMsgs be chain (nftNameWithSuffix name ''-'' (portsChainSuffix @ ''-'' @ fmt_d i))
        (portsChain name (cTable chain) i) ''UDP'' udp = Some b"
    and "protoMsgs be chain (nftNameWithSuffix name ''-'' (portsChainSuffix @ ''-'' @ fmt_d i))
        (portsChain name (cTable chain) i) ''SCTP'' sctp = Some c"
    and "d = (if ports = [] \<or> tcp = [] \<and> udp = [] \<and> sctp = []
        then [ruleMsg (cTable chain) (cName (portsChain name (cTable chain) i)) (counter0 # setMark be portRuleMark)] else [])"
proof (cases "collectPorts ports [] [] []")
  case (Inl e)
  with assms show ?thesis by (simp add: portsMsgs_def Let_def both_def jumpMsgs_eq)
next
  case (Inr x)
  obtain tcp udp sctp where x: "x = (tcp, udp, sctp)" by (cases x)
  show ?thesis
    using assms that [of tcp udp sctp] Inr x
    by (auto simp: portsMsgs_def Let_def both_eq_Some jumpMsgs_eq simp del: both_simps split: if_splits)
qed

lemma peersMsgs_parts:
  assumes "peersMsgs be D name chain peers podInfo networks i = Some ms"
  obtains mss d where "map (peerMsgs be D (peersName name i) (peersChain name (cTable chain) i) podInfo networks)
        (enumerate 0 peers) = map Some mss"
    and "ms = [MsgNewChain (peersChain name (cTable chain) i),
        ruleMsg (cTable chain) (cName chain) [counter0, jumpTo (cName (peersChain name (cTable chain) i))]] @ concat mss @ d"
    and "d = (if peers = []
        then [ruleMsg (cTable chain) (cName (peersChain name (cTable chain) i)) (counter0 # setMark be peerRuleMark)] else [])"
proof -
  from assms obtain b d where b: "allOf (map (peerMsgs be D (peersName name i) (peersChain name (cTable chain) i) podInfo networks)
        (enumerate 0 peers)) = Some b"
    and ms: "ms = [MsgNewChain (peersChain name (cTable chain) i),
        ruleMsg (cTable chain) (cName chain) [counter0, jumpTo (cName (peersChain name (cTable chain) i))]] @ b @ d"
    and d: "d = (if peers = []
        then [ruleMsg (cTable chain) (cName (peersChain name (cTable chain) i)) (counter0 # setMark be peerRuleMark)] else [])"
    by (auto simp: peersMsgs_def both_eq_Some jumpMsgs_eq simp del: both_simps split: if_splits)
  from b obtain mss where "map (peerMsgs be D (peersName name i) (peersChain name (cTable chain) i) podInfo networks)
        (enumerate 0 peers) = map Some mss" "b = concat mss" unfolding allOf_eq_Some by (elim exE conjE)
  with that ms d show ?thesis by blast
qed

lemma policyRuleMsgs_parts:
  assumes "policyRuleMsgs be D name chain podInfo networks (i, rule) = Some ms"
  obtains a b where "portsMsgs be name chain (prPorts rule) i = Some a"
    and "peersMsgs be D name chain (prPeers rule) podInfo networks i = Some b"
    and "ms = [ruleMsg (cTable chain) (cName chain) (markReset be)] @ a @ b @
              [ruleMsg (cTable chain) (cName chain) (markCheck be)]"
  using assms by (auto simp: policyRuleMsgs_def both_eq_Some simp del: both_simps)

lemma podMsgs_parts:
  assumes "podMsgs be D entry podInfo policy networks = Some ms"
  obtains iss mss where "map (interfaceMsgs entry (policyChain entry policy) networks) (piInterfaces podInfo) = map Some iss"
    and "map (policyRuleMsgs be D (policyChainName (cName entry) policy) (policyChain entry policy) podInfo networks)
        (enumerate 0 (directionRules (policyChainName (cName entry) policy) policy)) = map Some mss"
    and "ms = [MsgNewChain (policyChain entry policy)] @ concat iss @ concat mss"
proof -
  from assms obtain a b where
    a: "allOf (map (interfaceMsgs entry (policyChain entry policy) networks) (piInterfaces podInfo)) = Some a" and
    b: "allOf (map (policyRuleMsgs be D (policyChainName (cName entry) policy) (policyChain entry policy) podInfo networks)
        (enumerate 0 (directionRules (policyChainName (cName entry) policy) policy))) = Some b" and
    ms: "ms = [MsgNewChain (policyChain entry policy)] @ a @ b"
    by (auto simp: podMsgs_def Let_def both_eq_Some simp del: both_simps)
  from a obtain iss where i: "map (interfaceMsgs entry (policyChain entry policy) networks) (piInterfaces podInfo) = map Some iss"
    "a = concat iss" unfolding allOf_eq_Some by (elim exE conjE)
  from b obtain mss where m: "map (policyRuleMsgs be D (policyChainName (cName entry) policy) (policyChain entry policy) podInfo networks)
        (enumerate 0 (directionRules (policyChainName (cName entry) policy) policy)) = map Some mss"
    "b = concat mss" unfolding allOf_eq_Some by (elim exE conjE)
  show ?thesis by (rule that [OF i(1) m(1)]) (simp add: ms i(2) m(2))
qed

lemma directionMsgs_parts:
  assumes "directionMsgs be D entry podInfo policies = Some ms" and "policies \<noteq> []"
  obtains mss where "map (\<lambda>p. podMsgs be D entry podInfo (ipPolicy p) (ipNetworks p)) policies = map Some mss"
    and "ms = concat (map (\<lambda>ps. ps @ [ruleMsg (cTable entry) (cName entry) (markCheck be)]) mss) @
              [ruleMsg (cTable entry) (cName entry) [counter0, verdict VerdictDrop]]"
proof -
  let ?c = "[ruleMsg (cTable entry) (cName entry) (markCheck be)]"
  from assms obtain a where a: "allOf (map (\<lambda>p. both (podMsgs be D entry podInfo (ipPolicy p) (ipNetworks p)) (Some ?c)) policies) = Some a"
    and ms: "ms = a @ [ruleMsg (cTable entry) (cName entry) [counter0, verdict VerdictDrop]]"
    by (auto simp: directionMsgs_def both_eq_Some simp del: both_simps)
  have "\<exists>mss. map (\<lambda>p. podMsgs be D entry podInfo (ipPolicy p) (ipNetworks p)) policies = map Some mss \<and>
      a = concat (map (\<lambda>ps. ps @ ?c) mss)"
    using a
  proof (induction policies arbitrary: a)
    case (Cons p policies)
    then obtain x y where x: "podMsgs be D entry podInfo (ipPolicy p) (ipNetworks p) = Some x" "a = x @ ?c @ y"
      and y: "allOf (map (\<lambda>p. both (podMsgs be D entry podInfo (ipPolicy p) (ipNetworks p)) (Some ?c)) policies) = Some y"
      by (auto simp: both_eq_Some simp del: both_simps)
    from Cons.IH [OF y] obtain mss where "map (\<lambda>p. podMsgs be D entry podInfo (ipPolicy p) (ipNetworks p)) policies = map Some mss"
      "y = concat (map (\<lambda>ps. ps @ ?c) mss)" by (elim exE conjE)
    with x show ?case by (intro exI [of _ "x # mss"]) simp
  qed simp
  then obtain mss where "map (\<lambda>p. podMsgs be D entry podInfo (ipPolicy p) (ipNetworks p)) policies = map Some mss"
    "a = concat (map (\<lambda>ps. ps @ ?c) mss)" by (elim exE conjE)
  with that ms show ?thesis by blast
qed

lemma map_Some_ex:
  assumes "map f xs = map Some yss" "ys \<in> set yss"
  shows "\<exists>x \<in> set xs. f x = Some ys"
proof -
  have "Some ys \<in> set (map f xs)" unfolding assms(1) using assms(2) by simp
  then show ?thesis by auto
qed

lemma block_portsMsgs:
  assumes "portsMsgs be name chain ports i = Some ms"
  shows "block (cTable chain) {cName chain} ms"
proof -
  let ?pc = "portsChain name (cTable chain) i"
  obtain tcp udp sctp a b c d where
    ms: "ms = [MsgNewChain ?pc, ruleMsg (cTable chain) (cName chain) [counter0, jumpTo (cName ?pc)]] @ a @ b @ c @ d"
    and p: "protoMsgs be chain (nftNameWithSuffix name ''-'' (portsChainSuffix @ ''-'' @ fmt_d i)) ?pc ''TCP'' tcp = Some a"
      "protoMsgs be chain (nftNameWithSuffix name ''-'' (portsChainSuffix @ ''-'' @ fmt_d i)) ?pc ''UDP'' udp = Some b"
      "protoMsgs be chain (nftNameWithSuffix name ''-'' (portsChainSuffix @ ''-'' @ fmt_d i)) ?pc ''SCTP'' sctp = Some c"
    and d: "d = (if ports = [] \<or> tcp = [] \<and> udp = [] \<and> sctp = []
        then [ruleMsg (cTable chain) (cName ?pc) (counter0 # setMark be portRuleMark)] else [])"
    by (rule portsMsgs_parts [OF assms])
  have "block (cTable chain) {cName ?pc} (a @ b @ c @ d)"
    using p d by (intro block_append) (auto intro: block_protoMsgs block_rule)
  then show ?thesis
    unfolding ms by (auto intro!: block_new_chain elim: block_weaken)
qed

lemma block_peersMsgs:
  assumes "peersMsgs be D name chain peers podInfo networks i = Some ms"
  shows "block (cTable chain) {cName chain} ms"
proof -
  let ?pc = "peersChain name (cTable chain) i"
  obtain mss d where m: "map (peerMsgs be D (peersName name i) ?pc podInfo networks) (enumerate 0 peers) = map Some mss"
    and ms: "ms = [MsgNewChain ?pc, ruleMsg (cTable chain) (cName chain) [counter0, jumpTo (cName ?pc)]] @ concat mss @ d"
    and d: "d = (if peers = [] then [ruleMsg (cTable chain) (cName ?pc) (counter0 # setMark be peerRuleMark)] else [])"
    by (rule peersMsgs_parts [OF assms])
  have "block (cTable chain) {cName ?pc} x" if "x \<in> set mss" for x
  proof -
    obtain y where "peerMsgs be D (peersName name i) ?pc podInfo networks y = Some x"
      using map_Some_ex [OF m \<open>x \<in> set mss\<close>] by blast
    from block_peerMsgs [OF this] show ?thesis by simp
  qed
  then have "block (cTable chain) {cName ?pc} (concat mss @ d)"
    using d by (intro block_append block_concat) (auto intro: block_rule)
  then show ?thesis
    unfolding ms by (auto intro!: block_new_chain elim: block_weaken)
qed

lemma block_policyRuleMsgs:
  assumes "policyRuleMsgs be D name chain podInfo networks x = Some ms"
  shows "block (cTable chain) {cName chain} ms"
proof -
  obtain i rule where x: "x = (i, rule)" by (cases x)
  obtain a b where "portsMsgs be name chain (prPorts rule) i = Some a"
    "peersMsgs be D name chain (prPeers rule) podInfo networks i = Some b" and
    ms: "ms = [ruleMsg (cTable chain) (cName chain) (markReset be)] @ a @ b @
              [ruleMsg (cTable chain) (cName chain) (markCheck be)]"
    by (rule policyRuleMsgs_parts [OF assms [unfolded x]])
  then show ?thesis
    unfolding ms by (intro block_append block_rule block_portsMsgs block_peersMsgs) auto
qed

lemma block_interfaceMsgs:
  "interfaceMsgs entry chain networks intf = Some ms \<Longrightarrow> block (cTable entry) {cName entry} ms"
  by (auto simp: interfaceMsgs_def block_rule split: if_splits)

lemma block_podRules:
  assumes "map (policyRuleMsgs be D name chain podInfo networks) rs = map Some mss"
  shows "block (cTable chain) {cName chain} (concat mss)"
proof (rule block_concat)
  fix x assume "x \<in> set mss"
  then obtain y where "policyRuleMsgs be D name chain podInfo networks y = Some x"
    using map_Some_ex [OF assms] by blast
  then show "block (cTable chain) {cName chain} x" by (rule block_policyRuleMsgs)
qed

lemma block_interfaces:
  assumes "map (interfaceMsgs entry chain networks) is = map Some iss"
  shows "block (cTable entry) {cName entry} (concat iss)"
proof (rule block_concat)
  fix x assume "x \<in> set iss"
  then obtain y where "interfaceMsgs entry chain networks y = Some x"
    using map_Some_ex [OF assms] by blast
  then show "block (cTable entry) {cName entry} x" by (rule block_interfaceMsgs)
qed

lemma block_podMsgs:
  assumes "podMsgs be D entry podInfo policy networks = Some ms"
  shows "block (cTable entry) {cName entry} ms"
proof -
  obtain iss mss where i: "map (interfaceMsgs entry (policyChain entry policy) networks) (piInterfaces podInfo) = map Some iss"
    and m: "map (policyRuleMsgs be D (policyChainName (cName entry) policy) (policyChain entry policy) podInfo networks)
        (enumerate 0 (directionRules (policyChainName (cName entry) policy) policy)) = map Some mss"
    and ms: "ms = [MsgNewChain (policyChain entry policy)] @ concat iss @ concat mss"
    by (rule podMsgs_parts [OF assms])
  have "block (cTable entry) {cName (policyChain entry policy), cName entry} (concat iss @ concat mss)"
    using block_interfaces [OF i] block_podRules [OF m] by (intro block_append) (auto elim: block_weaken)
  then show ?thesis unfolding ms by (auto simp: block_def)
qed

lemma block_directionMsgs:
  assumes "directionMsgs be D entry podInfo policies = Some ms"
  shows "block (cTable entry) {cName entry} ms"
proof (cases "policies = []")
  case True
  with assms show ?thesis by (simp add: directionMsgs_def)
next
  case False
  obtain mss where m: "map (\<lambda>p. podMsgs be D entry podInfo (ipPolicy p) (ipNetworks p)) policies = map Some mss"
    and ms: "ms = concat (map (\<lambda>ps. ps @ [ruleMsg (cTable entry) (cName entry) (markCheck be)]) mss) @
              [ruleMsg (cTable entry) (cName entry) [counter0, verdict VerdictDrop]]"
    by (rule directionMsgs_parts [OF assms False])
  have "block (cTable entry) {cName entry} x" if "x \<in> set mss" for x
    using map_Some_ex [OF m that] block_podMsgs by blast
  then show ?thesis
    unfolding ms by (intro block_append block_concat) (auto intro!: block_append block_rule)
qed

end
