(* ===== verification/Decision.thy ===== *)
theory Decision
  imports Installed
begin

text \<open>
  The meaning of the policies of a direction for a packet, stated on the policy objects: which
  ports and which peers a rule allows, what an exception does, and which policies look at the
  interface of the packet. The lemmas relate the element lists and names that the code
  computes to this meaning.
\<close>

unbundle bit_operations_syntax

subsection \<open>What a policy says about a packet\<close>

text \<open>
  A rule, a peer or a policy drops the packet, grants it, or leaves it to what follows; the
  first that does not leave it decides.
\<close>

datatype decision = DropIt | Grant | Leave

fun firstOf :: "decision list \<Rightarrow> decision" where
  "firstOf [] = Leave"
| "firstOf (d # ds) = (if d = Leave then firstOf ds else d)"

text \<open>What the rules read of a packet: protocol, destination port, peer address, interface.\<close>

definition packetPort :: "'p datapath \<Rightarrow> 'p \<Rightarrow> byte list option" where
  "packetPort K p = dp_payload K p PayloadBaseTransportHeader 2 2"

definition packetProto :: "'p datapath \<Rightarrow> 'p \<Rightarrow> byte list" where
  "packetProto K p = take 1 (dp_meta K p MetaKeyL4PROTO)"

definition packetAddr :: "'p datapath \<Rightarrow> bool \<Rightarrow> 'p \<Rightarrow> byte list option" where
  "packetAddr K ingress p =
     (if take 1 (dp_meta K p MetaKeyNFPROTO) = [NFPROTO_IPV4]
      then dp_payload K p PayloadBaseNetworkHeader (if ingress then IPv4OffSet else IPv4OffSet + IPv4len) IPv4len
      else if take 1 (dp_meta K p MetaKeyNFPROTO) = [NFPROTO_IPV6]
      then dp_payload K p PayloadBaseNetworkHeader (if ingress then IPv6OffSet else IPv6OffSet + IPv6len) IPv6len
      else None)"

definition packetInterface :: "'p datapath \<Rightarrow> bool \<Rightarrow> 'p \<Rightarrow> byte list" where
  "packetInterface K ingress p = take 16 (dp_meta K p (if ingress then MetaKeyIIFNAME else MetaKeyOIFNAME))"

text \<open>Ports: TCP when no protocol is given, all ports of the protocol when no port is given.\<close>

definition portProto :: "policyPort \<Rightarrow> string" where
  "portProto port =
     (case ppProtocol port of
        Some proto \<Rightarrow> if proto = ''UDP'' \<or> proto = ''SCTP'' then proto else ''TCP'' | None \<Rightarrow> ''TCP'')"

definition portHit :: "byte list \<Rightarrow> byte list option \<Rightarrow> policyPort \<Rightarrow> bool" where
  "portHit proto dport port =
     (proto = snd (getProtocolInfo (portProto port)) \<and>
      (case (dport, portRange (defaultPort port)) of
         (Some k, Some (lo, hi)) \<Rightarrow> lo \<le> be_val k \<and> be_val k \<le> hi
       | _ \<Rightarrow> False))"

definition portsAllow :: "byte list \<Rightarrow> byte list option \<Rightarrow> policyPort list \<Rightarrow> bool" where
  "portsAllow proto dport ports =
     (list_all (\<lambda>port. ppPort (defaultPort port) = None) ports \<or> list_ex (portHit proto dport) ports)"

text \<open>The port ranges of one protocol in a list of port specifications.\<close>

definition protoRanges :: "string \<Rightarrow> policyPort list \<Rightarrow> (int \<times> int) set" where
  "protoRanges proto ports =
     (\<Union>port \<in> {port \<in> set ports. portProto port = proto}. set_option (portRange (defaultPort port)))"

lemma protoRanges_simps [simp]:
  "protoRanges proto [] = {}"
  "protoRanges proto (port # ports) =
     (if portProto port = proto then set_option (portRange (defaultPort port)) else {}) \<union> protoRanges proto ports"
  by (auto simp: protoRanges_def)

lemma portProto_cases: "portProto port \<in> {''TCP'', ''UDP'', ''SCTP''}"
  by (auto simp: portProto_def split: option.splits)

lemma ppProtocol_defaultPort [simp]: "ppProtocol (defaultPort port) = ppProtocol port"
  by (simp add: defaultPort_def)

lemma collectPorts_marks:
  assumes "collectPorts ports tcp udp sctp = Inr (tcp', udp', sctp')"
    and "marks 65536 rt tcp" "marks 65536 ru udp" "marks 65536 rs sctp"
  shows "marks 65536 (rt \<union> protoRanges ''TCP'' ports) tcp' \<and> marks 65536 (ru \<union> protoRanges ''UDP'' ports) udp' \<and>
         marks 65536 (rs \<union> protoRanges ''SCTP'' ports) sctp'"
  using assms
proof (induction ports arbitrary: tcp udp sctp rt ru rs)
  case Nil
  then show ?case by simp
next
  case (Cons port ports)
  obtain els where els: "validatePortSpec (defaultPort port) = Inr els"
    using Cons.prems(1) by (cases "validatePortSpec (defaultPort port)") (auto simp: Let_def)
  let ?r = "set_option (portRange (defaultPort port))"
  have m: "marks 65536 (r \<union> ?r) (es @ els)" if "marks 65536 r es" for r es
    using marks_append [OF that conjunct1 [OF validatePortSpec_marks [OF els]]] .
  consider (u) "portProto port = ''UDP''" "collectPorts ports tcp (udp @ els) sctp = Inr (tcp', udp', sctp')"
    | (s) "portProto port = ''SCTP''" "collectPorts ports tcp udp (sctp @ els) = Inr (tcp', udp', sctp')"
    | (t) "portProto port = ''TCP''" "collectPorts ports (tcp @ els) udp sctp = Inr (tcp', udp', sctp')"
    using Cons.prems(1) els by (auto simp: Let_def portProto_def split: option.splits if_splits)
  then show ?case
  proof cases
    case u
    from Cons.IH [OF u(2) Cons.prems(2) m [OF Cons.prems(3)] Cons.prems(4)] u(1) show ?thesis
      by (simp add: Un_assoc)
  next
    case s
    from Cons.IH [OF s(2) Cons.prems(2,3) m [OF Cons.prems(4)]] s(1) show ?thesis by (simp add: Un_assoc)
  next
    case t
    from Cons.IH [OF t(2) m [OF Cons.prems(2)] Cons.prems(3,4)] t(1) show ?thesis by (simp add: Un_assoc)
  qed
qed

lemma collectPorts_empty:
  "collectPorts ports tcp udp sctp = Inr (tcp', udp', sctp') \<Longrightarrow>
   tcp' = [] \<and> udp' = [] \<and> sctp' = [] \<longleftrightarrow>
   tcp = [] \<and> udp = [] \<and> sctp = [] \<and> list_all (\<lambda>port. ppPort (defaultPort port) = None) ports"
proof (induction ports arbitrary: tcp udp sctp)
  case (Cons port ports)
  obtain els where els: "validatePortSpec (defaultPort port) = Inr els"
    using Cons.prems(1) by (cases "validatePortSpec (defaultPort port)") (auto simp: Let_def)
  with validatePortSpec_marks [OF els] Cons show ?case
    by (auto simp: Let_def split: option.splits if_splits)
qed auto

lemma interval_ports:
  assumes "marks 65536 rs els" "apart rs" "length k = 2"
  shows "setMatch True els k \<longleftrightarrow> (\<exists>(a, l) \<in> rs. a \<le> be_val k \<and> be_val k \<le> l)"
proof -
  obtain x y where "k = [x, y]" using assms(3) by (auto simp: length_Suc_conv numeral_2_eq_2)
  then have "be_val k < 65536" using uint_lt2p [of x] uint_lt2p [of y] by (simp add: be_val_def)
  from interval_match_marks [OF assms(1,2) this] show ?thesis by (simp add: setMatch_def)
qed

lemma protoRanges_hit:
  assumes "proto \<in> {''TCP'', ''UDP'', ''SCTP''}"
  shows "(\<exists>port \<in> set ports. portProto port = proto \<and> portHit l4 (Some k) port) \<longleftrightarrow>
     l4 = snd (getProtocolInfo proto) \<and> (\<exists>(a, l) \<in> protoRanges proto ports. a \<le> be_val k \<and> be_val k \<le> l)"
  by (force simp: portHit_def protoRanges_def split: option.splits)

subsection \<open>What a peer says about an address\<close>

definition addrOf :: "byte list \<Rightarrow> netip_addr" where
  "addrOf bs = (if length bs = 4 then Addr4 (word_of_int (be_val bs)) else Addr6 (word_of_int (be_val bs)) [])"

definition prefixHit :: "string \<Rightarrow> netip_addr \<Rightarrow> bool" where
  "prefixHit s a = (case ParsePrefix s of Inl e \<Rightarrow> False | Inr net \<Rightarrow> prefix_Contains net a)"

definition prefixFamily :: "string \<Rightarrow> netip_addr \<Rightarrow> bool" where
  "prefixFamily s a = (case ParsePrefix s of Inl e \<Rightarrow> False | Inr net \<Rightarrow> Is4 (pAddr net) = Is4 a)"

text \<open>
  An address block grants the addresses of its prefix. An address of an exception is dropped,
  not left to the other peers and rules.
\<close>

definition blockDecision :: "ipBlock \<Rightarrow> byte list \<Rightarrow> decision" where
  "blockDecision b bs =
     (if prefixFamily (ipCIDR b) (addrOf bs) \<and> list_ex (\<lambda>s. prefixHit s (addrOf bs)) (ipExcept b) then DropIt
      else if prefixHit (ipCIDR b) (addrOf bs) then Grant else Leave)"

text \<open>A selector grants the addresses of the interfaces it collects.\<close>

definition selectorDecision :: "policyDeps \<Rightarrow> policyPeer \<Rightarrow> podInfo \<Rightarrow> string list \<Rightarrow> byte list \<Rightarrow> decision" where
  "selectorDecision D peer podInfo networks bs =
     (case peerAddrs D peer podInfo networks of
        Inl e \<Rightarrow> Leave
      | Inr addrs \<Rightarrow> if bs \<in> ipKey ` set addrs then Grant else Leave)"

definition peerDecision ::
  "policyDeps \<Rightarrow> podInfo \<Rightarrow> string list \<Rightarrow> byte list option \<Rightarrow> policyPeer \<Rightarrow> decision" where
  "peerDecision D podInfo networks addr peer =
     (case addr of
        None \<Rightarrow> Leave
      | Some bs \<Rightarrow>
          (case peerIPBlock peer of
             Some b \<Rightarrow> blockDecision b bs
           | None \<Rightarrow> selectorDecision D peer podInfo networks bs))"

text \<open>Conditions on the peers: different exceptions do not overlap, and no collected IPv6 address is IPv4-mapped.\<close>

definition disjointPrefixes :: "string list \<Rightarrow> bool" where
  "disjointPrefixes ps \<longleftrightarrow>
     (\<forall>s \<in> set ps. \<forall>t \<in> set ps. \<forall>x y a. ParsePrefix s = Inr x \<longrightarrow> ParsePrefix t = Inr y \<longrightarrow> x \<noteq> y \<longrightarrow>
        \<not> (prefix_Contains x a \<and> prefix_Contains y a))"

definition unmapped :: "string \<Rightarrow> bool" where
  "unmapped addr = (case ParseAddr addr of Inl e \<Rightarrow> True | Inr a \<Rightarrow> Is6 a \<longrightarrow> To4 (net_ParseIP addr) = None)"

definition regularPeer :: "policyDeps \<Rightarrow> podInfo \<Rightarrow> string list \<Rightarrow> policyPeer \<Rightarrow> bool" where
  "regularPeer D podInfo networks peer =
     (case peerIPBlock peer of
        Some b \<Rightarrow> disjointPrefixes (ipExcept b)
      | None \<Rightarrow>
          (case peerAddrs D peer podInfo networks of Inl e \<Rightarrow> True | Inr addrs \<Rightarrow> list_all unmapped addrs))"

lemma prefixHit_iff: "prefixHit s a \<longleftrightarrow> (\<exists>x. ParsePrefix s = Inr x \<and> prefix_Contains x a)"
  by (simp add: prefixHit_def split: sum.split)

lemma be_val_bound: "0 \<le> be_val bs \<and> be_val bs < 256 ^ length bs"
proof (induction bs rule: rev_induct)
  case (snoc b bs)
  have "be_val bs * 256 + uint b < 256 ^ length bs * 256"
    using snoc uint_lt2p [of b] by simp
  with snoc show ?case by (simp add: be_val_append ac_simps)
qed (simp add: be_val_def)

lemma be_val_addrOf: "length bs \<in> {4, 16} \<Longrightarrow> be_val (AsSlice (addrOf bs)) = be_val bs"
  using be_val_bound [of bs]
  by (auto simp: addrOf_def uint_word_of_int_eq take_bit_int_eq_self simp del: AsSlice.simps)

lemma prefixes_parsed:
  assumes "getPrefixesAsSetInterval ps = Inr v"
  obtains nets where "map ParsePrefix ps = map Inr nets"
proof -
  have "\<forall>s \<in> set ps. \<exists>x. ParsePrefix s = Inr x"
  proof (rule ccontr)
    assume "\<not> ?thesis"
    then have "\<exists>s \<in> set ps. \<exists>e. ParsePrefix s = Inl e" by (metis obj_sumE)
    from prefixes_loop_error [OF this, of 0 "[]" "[]"] assms show False by (simp add: getPrefixesAsSetInterval_def)
  qed
  then have "map ParsePrefix ps = map Inr (map (\<lambda>s. case ParsePrefix s of Inr x \<Rightarrow> x) ps)" by auto
  then show ?thesis by (rule that)
qed

lemma prefixes_hit:
  assumes v: "getPrefixesAsSetInterval ps = Inr (v4, v6)" and "disjointPrefixes ps"
  shows "length bs = 4 \<Longrightarrow> setMatch True v4 bs = list_ex (\<lambda>s. prefixHit s (addrOf bs)) ps"
    and "length bs = 16 \<Longrightarrow> setMatch True v6 bs = list_ex (\<lambda>s. prefixHit s (addrOf bs)) ps"
proof -
  obtain nets where nets: "map ParsePrefix ps = map Inr nets" by (rule prefixes_parsed [OF v])
  have parse: "ParsePrefix s = Inr x \<Longrightarrow> s \<in> set ps \<Longrightarrow> x \<in> set nets" for s x
    using nets by (metis (no_types, lifting) imageE list.set_map rev_image_eqI sum.inject(2))
  have pre: "x \<in> set nets \<Longrightarrow> \<exists>s \<in> set ps. ParsePrefix s = Inr x" for x
    using nets by (metis imageE image_eqI list.set_map)
  have "\<not> (prefix_Contains p a \<and> prefix_Contains q a)" if "p \<in> set nets" "q \<in> set nets" "p \<noteq> q" for p q a
    using pre [OF that(1)] pre [OF that(2)] that(3) assms(2) unfolding disjointPrefixes_def by blast
  from getPrefixes_match [OF this nets]
  have m: "interval_match v4 (AsSlice (Addr4 w)) \<longleftrightarrow> (\<exists>p \<in> set nets. prefix_Contains p (Addr4 w))"
    "interval_match v6 (AsSlice (Addr6 w' [])) \<longleftrightarrow> (\<exists>p \<in> set nets. prefix_Contains p (Addr6 w' []))" for w w'
    unfolding v by (simp_all del: AsSlice.simps)
  have hit: "list_ex (\<lambda>s. prefixHit s a) ps \<longleftrightarrow> (\<exists>p \<in> set nets. prefix_Contains p a)" for a
    unfolding list_ex_iff prefixHit_iff using parse pre by blast
  have same: "interval_match els bs = interval_match els (AsSlice (addrOf bs))" if "length bs \<in> {4, 16}" for els
    using be_val_addrOf [OF that] by (simp add: interval_match_def)
  show "length bs = 4 \<Longrightarrow> setMatch True v4 bs = list_ex (\<lambda>s. prefixHit s (addrOf bs)) ps"
    and "length bs = 16 \<Longrightarrow> setMatch True v6 bs = list_ex (\<lambda>s. prefixHit s (addrOf bs)) ps"
    using same m by (simp_all add: setMatch_def hit addrOf_def del: AsSlice.simps)
qed

definition members :: "ruleset \<Rightarrow> nft_msg list \<Rightarrow> bool" where
  "members S ms \<longleftrightarrow> (\<forall>(s, els) \<in> set (filledSets ms). rsMember S (sName s) = setMatch (sInterval s) els)"

lemma members_append [simp]: "members S (ms @ ms') \<longleftrightarrow> members S ms \<and> members S ms'"
  by (auto simp: members_def)

lemma members_concat: "members S (concat mss) \<longleftrightarrow> (\<forall>ms \<in> set mss. members S ms)"
  by (induction mss) (auto simp: members_def)

lemma members_Cons [simp]:
  "members S (ruleMsg t ch es # ms) \<longleftrightarrow> members S ms" "members S (MsgNewChain c # ms) \<longleftrightarrow> members S ms"
  by (auto simp: members_def)

lemma members_setMsgs [simp]:
  "members S (setMsgs s els) \<longleftrightarrow> rsMember S (shortName (sName s)) = setMatch (sInterval s) els"
  by (simp add: members_def shortSet_def)

lemma getInetSet_interval [simp]: "sInterval (getInetSet c n x)"
  by (simp add: getInetSet_def Let_def)

lemma addr_sets_interval [simp]:
  "sInterval (blockSet n t i v)" "sInterval (exceptSet n t i v)" "\<not> sInterval (addrSet D n t peer i v)"
  by (simp_all add: blockSet_def exceptSet_def addrSet_def zero_set_def)

subsection \<open>Marks and decisions\<close>

definition addrHit :: "'p datapath \<Rightarrow> bool \<Rightarrow> bool \<Rightarrow> 'p \<Rightarrow> (byte list \<Rightarrow> bool) \<Rightarrow> bool" where
  "addrHit K ingress isV6 p M \<longleftrightarrow>
     (\<exists>bs. packetAddr K ingress p = Some bs \<and> length bs = (if isV6 then 16 else 4) \<and> M bs)"

definition after :: "decision \<Rightarrow> outcome \<Rightarrow> outcome option \<Rightarrow> outcome option" where
  "after dec granted rest = (case dec of DropIt \<Rightarrow> Some Dropped | Grant \<Rightarrow> Some granted | Leave \<Rightarrow> rest)"

lemma after_simps [simp]:
  "after DropIt g r = Some Dropped" "after Grant g r = Some g" "after Leave g r = r"
  by (simp_all add: after_def)

lemma after_firstOf: "after (firstOf (d # ds)) g r = after d g (after (firstOf ds) g r)"
  by (cases d) simp_all

lemma Is4_addrOf [simp]: "Is4 (addrOf bs) \<longleftrightarrow> length bs = 4"
  by (simp add: addrOf_def)

lemma prefixHit_family: "prefixHit s a \<Longrightarrow> prefixFamily s a"
  by (auto simp: prefixHit_def prefixFamily_def prefix_Contains.simps split: sum.splits netip_addr.splits)

lemma single_prefix:
  assumes "getPrefixesAsSetInterval [cidr] = Inr (p4, p6)"
  obtains net where "ParsePrefix cidr = Inr net" "p4 = [] \<longleftrightarrow> \<not> Is4 (pAddr net)" "p6 = [] \<longleftrightarrow> Is4 (pAddr net)"
  using assms
  by (auto simp: getPrefixesAsSetInterval_def convertPrefixToSet_def Let_def split: sum.splits if_splits)

definition parsed6 :: "bool \<Rightarrow> string \<Rightarrow> bool" where
  "parsed6 b addr = (case ParseAddr addr of Inl e \<Rightarrow> False | Inr a \<Rightarrow> Is6 a = b)"

lemma splitAddrs_filter:
  "splitAddrs addrs v4 v6 = Inr (w4, w6) \<Longrightarrow>
   w4 = v4 @ filter (parsed6 False) addrs \<and> w6 = v6 @ filter (parsed6 True) addrs \<and>
   list_all (\<lambda>addr. parsed6 False addr \<or> parsed6 True addr) addrs"
proof (induction addrs arbitrary: v4 v6)
  case (Cons addr addrs)
  obtain a where a: "ParseAddr addr = Inr a" using Cons.prems by (cases "ParseAddr addr") auto
  show ?case
  proof (cases "Is6 a")
    case True
    with Cons.prems a have "splitAddrs addrs v4 (v6 @ [addr]) = Inr (w4, w6)" by simp
    from Cons.IH [OF this] a True show ?thesis by (simp add: parsed6_def)
  next
    case False
    with Cons.prems a have "splitAddrs addrs (v4 @ [addr]) v6 = Inr (w4, w6)" by simp
    from Cons.IH [OF this] a False show ?thesis by (simp add: parsed6_def)
  qed
qed simp

lemma ipKey_length:
  "parsed6 False addr \<Longrightarrow> length (ipKey addr) = 4 \<and> To4 (net_ParseIP addr) \<noteq> None"
  "parsed6 True addr \<Longrightarrow> unmapped addr \<Longrightarrow> length (ipKey addr) \<noteq> 4 \<and> To4 (net_ParseIP addr) = None"
proof -
  show "parsed6 False addr \<Longrightarrow> length (ipKey addr) = 4 \<and> To4 (net_ParseIP addr) \<noteq> None"
    by (auto simp: parsed6_def ipKey_def net_ParseIP_def To4_def Is6_def be_bytes_def split: sum.splits netip_addr.splits)
  show "parsed6 True addr \<Longrightarrow> unmapped addr \<Longrightarrow> length (ipKey addr) \<noteq> 4 \<and> To4 (net_ParseIP addr) = None"
    by (auto simp: parsed6_def unmapped_def ipKey_def net_ParseIP_def Is6_def be_bytes_def split: sum.splits netip_addr.splits if_splits)
qed

definition peersDecision ::
  "policyDeps \<Rightarrow> podInfo \<Rightarrow> string list \<Rightarrow> byte list option \<Rightarrow> policyPeer list \<Rightarrow> decision" where
  "peersDecision D podInfo networks addr peers =
     (if peers = [] then Grant else firstOf (map (peerDecision D podInfo networks addr) peers))"

definition full :: "u32 \<Rightarrow> bool" where
  "full mk \<longleftrightarrow> mk AND matchRuleMark = matchRuleMark"

lemma bit_marks:
  "bit matchRuleMark n \<longleftrightarrow> n = 16 \<or> n = 17" "bit portRuleMark n \<longleftrightarrow> n = 16" "bit peerRuleMark n \<longleftrightarrow> n = 17"
  unfolding mark_consts
  by (cases "n < 32"; auto simp: bit_simps less_Suc_eq numeral_eq_Suc dest: bit_imp_le_length)+

lemma full_iff: "full mk \<longleftrightarrow> bit mk 16 \<and> bit mk 17"
proof
  assume "full mk"
  then have "bit (mk AND matchRuleMark) n = bit matchRuleMark n" for n by (simp add: full_def)
  from this [of 16] this [of 17] show "bit mk 16 \<and> bit mk 17" by (simp add: bit_and_iff bit_marks)
next
  assume "bit mk 16 \<and> bit mk 17"
  then show "full mk" unfolding full_def by (intro bit_word_eqI) (auto simp: bit_and_iff bit_marks)
qed

text \<open>The mark after a rule of a policy: cleared, then set for the ports and for the peers.\<close>

definition ruleMark :: "bool \<Rightarrow> bool \<Rightarrow> u32 \<Rightarrow> u32" where
  "ruleMark ports peers mk =
     (let m0 = mk AND NOT matchRuleMark; m1 = (if ports then m0 OR portRuleMark else m0) in
      if peers then m1 OR peerRuleMark else m1)"

lemma ruleMark_steps:
  "mk AND NOT matchRuleMark = ruleMark False False mk"
  "ruleMark False False mk OR portRuleMark = ruleMark True False mk"
  "ruleMark False False mk OR peerRuleMark = ruleMark False True mk"
  "ruleMark True False mk OR peerRuleMark = ruleMark True True mk"
  by (simp_all add: ruleMark_def)

lemma full_ruleMark [simp]: "full (ruleMark ports peers mk) \<longleftrightarrow> ports \<and> peers"
  by (auto simp: full_iff ruleMark_def Let_def bit_simps bit_marks)

lemma ruleMark_or [simp]: "ruleMark ports peers mk OR matchRuleMark = mk OR matchRuleMark"
  by (rule bit_word_eqI) (auto simp: ruleMark_def Let_def bit_simps bit_marks)

lemma ruleMark_both: "ruleMark True True mk = mk OR matchRuleMark"
  by (rule bit_word_eqI) (auto simp: ruleMark_def Let_def bit_simps bit_marks)

lemma full_or [simp]: "full (mk OR matchRuleMark)"
  by (simp add: full_iff bit_or_iff bit_marks)

lemma full_or_eq: "full mk \<Longrightarrow> mk OR matchRuleMark = mk"
  by (rule bit_word_eqI) (auto simp: full_iff bit_or_iff bit_marks)

text \<open>A rule of a policy, a policy, and all policies of one direction.\<close>

definition ruleDecision ::
  "policyDeps \<Rightarrow> podInfo \<Rightarrow> string list \<Rightarrow> byte list \<Rightarrow> byte list option \<Rightarrow> byte list option \<Rightarrow> policyRule \<Rightarrow> decision" where
  "ruleDecision D podInfo networks proto dport addr rule =
     (case peersDecision D podInfo networks addr (prPeers rule) of
        DropIt \<Rightarrow> DropIt
      | Grant \<Rightarrow> if portsAllow proto dport (prPorts rule) then Grant else Leave
      | Leave \<Rightarrow> Leave)"

definition regularRule :: "policyDeps \<Rightarrow> podInfo \<Rightarrow> string list \<Rightarrow> policyRule \<Rightarrow> bool" where
  "regularRule D podInfo networks rule \<longleftrightarrow>
     (\<forall>proto. apart (protoRanges proto (prPorts rule))) \<and> list_all (regularPeer D podInfo networks) (prPeers rule)"

lemma block_other: "block t P ms \<Longrightarrow> ch \<notin> P \<Longrightarrow> ch \<notin> set (newChains ms) \<Longrightarrow> addedRules t ch ms = []"
  by (auto simp: block_def intro!: addedRules_none)

lemma ports_jump:
  assumes m: "portsMsgs be name chain ports i = Some ms" and new: "cName chain \<notin> set (newChains ms)"
  shows "addedRules (cTable chain) (cName chain) ms = [[counter0, jumpTo (cName (portsChain name (cTable chain) i))]]"
proof -
  obtain tcp udp sctp a b c d where
    ms: "ms = [MsgNewChain (portsChain name (cTable chain) i),
        ruleMsg (cTable chain) (cName chain) [counter0, jumpTo (cName (portsChain name (cTable chain) i))]] @ a @ b @ c @ d"
    and p: "protoMsgs be chain (nftNameWithSuffix name ''-'' (portsChainSuffix @ ''-'' @ fmt_d i))
        (portsChain name (cTable chain) i) ''TCP'' tcp = Some a"
      "protoMsgs be chain (nftNameWithSuffix name ''-'' (portsChainSuffix @ ''-'' @ fmt_d i))
        (portsChain name (cTable chain) i) ''UDP'' udp = Some b"
      "protoMsgs be chain (nftNameWithSuffix name ''-'' (portsChainSuffix @ ''-'' @ fmt_d i))
        (portsChain name (cTable chain) i) ''SCTP'' sctp = Some c"
    and d: "d = (if ports = [] \<or> tcp = [] \<and> udp = [] \<and> sctp = []
        then [ruleMsg (cTable chain) (cName (portsChain name (cTable chain) i)) (counter0 # setMark be portRuleMark)] else [])"
    by (rule portsMsgs_parts [OF m])
  have "addedRules (cTable chain) (cName chain) x = []" if "x \<in> {a, b, c, d}" for x
  proof (rule block_other)
    show "block (cTable chain) {cName (portsChain name (cTable chain) i)} x"
      using that p [THEN block_protoMsgs] d by (auto simp: block_rule)
  qed (use new that in \<open>auto simp: ms\<close>)
  then show ?thesis by (simp add: ms)
qed

lemma peers_jump:
  assumes m: "peersMsgs be D name chain peers podInfo networks i = Some ms" and new: "cName chain \<notin> set (newChains ms)"
  shows "addedRules (cTable chain) (cName chain) ms = [[counter0, jumpTo (cName (peersChain name (cTable chain) i))]]"
proof -
  let ?pc = "peersChain name (cTable chain) i"
  obtain mss d where mss: "map (peerMsgs be D (peersName name i) ?pc podInfo networks) (enumerate 0 peers) = map Some mss"
    and ms: "ms = [MsgNewChain ?pc, ruleMsg (cTable chain) (cName chain) [counter0, jumpTo (cName ?pc)]] @ concat mss @ d"
    and d: "d = (if peers = [] then [ruleMsg (cTable chain) (cName ?pc) (counter0 # setMark be peerRuleMark)] else [])"
    by (rule peersMsgs_parts [OF m])
  have "block (cTable chain) {cName ?pc} (concat mss @ d)"
  proof (intro block_append block_concat)
    fix x assume "x \<in> set mss"
    then obtain y where "peerMsgs be D (peersName name i) ?pc podInfo networks y = Some x" using map_Some_ex [OF mss] by blast
    from block_peerMsgs [OF this] show "block (cTable chain) {cName ?pc} x" by simp
  qed (simp add: d block_rule)
  from block_other [OF this, of "cName chain"] new show ?thesis by (simp add: ms)
qed

definition policyDecision ::
  "policyDeps \<Rightarrow> podInfo \<Rightarrow> string list \<Rightarrow> byte list \<Rightarrow> byte list option \<Rightarrow> byte list option \<Rightarrow> policyRule list \<Rightarrow> decision" where
  "policyDecision D podInfo networks proto dport addr rules =
     firstOf (map (ruleDecision D podInfo networks proto dport addr) rules)"

definition policyRules :: "bool \<Rightarrow> policy \<Rightarrow> policyRule list" where
  "policyRules ingress policy =
     (case (if ingress then spIngress (polSpec policy) else spEgress (polSpec policy)) of None \<Rightarrow> [] | Some rs \<Rightarrow> rs)"

definition interfaceHit :: "byte list \<Rightarrow> string list \<Rightarrow> interfaceInfo \<Rightarrow> bool" where
  "interfaceHit name networks intf = (intf_CheckPolicyNetwork intf networks \<and> ifname (InterfaceName intf) = name)"

definition onInterface :: "byte list \<Rightarrow> podInfo \<Rightarrow> string list \<Rightarrow> bool" where
  "onInterface name podInfo networks = list_ex (interfaceHit name networks) (piInterfaces podInfo)"

definition appliedDecision ::
  "'p datapath \<Rightarrow> policyDeps \<Rightarrow> bool \<Rightarrow> podInfo \<Rightarrow> 'p \<Rightarrow> internalPolicy \<Rightarrow> decision" where
  "appliedDecision K D ingress podInfo p pol =
     (if onInterface (packetInterface K ingress p) podInfo (ipNetworks pol)
      then policyDecision D podInfo (ipNetworks pol) (packetProto K p) (packetPort K p) (packetAddr K ingress p)
             (policyRules ingress (ipPolicy pol))
      else Leave)"

definition directionDecision ::
  "'p datapath \<Rightarrow> policyDeps \<Rightarrow> bool \<Rightarrow> podInfo \<Rightarrow> internalPolicy list \<Rightarrow> 'p \<Rightarrow> decision" where
  "directionDecision K D ingress podInfo policies p = firstOf (map (appliedDecision K D ingress podInfo p) policies)"

definition regularPolicy :: "policyDeps \<Rightarrow> bool \<Rightarrow> podInfo \<Rightarrow> internalPolicy \<Rightarrow> bool" where
  "regularPolicy D ingress podInfo pol \<longleftrightarrow>
     list_all (regularRule D podInfo (ipNetworks pol)) (policyRules ingress (ipPolicy pol)) \<and>
     length (policyRules ingress (ipPolicy pol)) < 2 ^ 63"

subsection \<open>The direction of a chain is visible in its name\<close>

lemma fmt_d_valid [simp]: "valid_nft_name (fmt_d n)"
  by (auto simp: valid_nft_name_def list_all_iff fmt_d_def dest!: digits_base_digits [rotated 2] intro: nft_char_digit)

lemma fmt_d_length: "n < 2 ^ 63 \<Longrightarrow> length (fmt_d n) \<le> 19"
  unfolding fmt_d_def using length_digits_base [of "int n" 10 18] by simp

lemma isIngress_policyChainName:
  assumes "e \<in> {ingressChain, egressChain}"
  shows "isIngressChain (policyChainName e policy) = isIngressChain e"
  using assms by (auto simp: isIngressChain_def HasPrefix_def policyChainName_def ingressChain_def egressChain_def)

lemma policyChainName_valid:
  assumes "e \<in> {ingressChain, egressChain}"
  shows "valid_nft_name (policyChainName e policy)" "length (policyChainName e policy) \<le> 255"
    "13 \<le> length (policyChainName e policy)"
proof -
  have "valid_nft_name e" "length e \<in> {12, 13}"
    using assms by (auto simp: ingressChain_def egressChain_def valid_nft_name_def nft_char_def)
  then show "valid_nft_name (policyChainName e policy)" "length (policyChainName e policy) \<le> 255"
      "13 \<le> length (policyChainName e policy)"
    using truncateNftName_length [of "policyRuleNamespacedName policy" "int nftNameMaxLen - int (length e) - 1"]
    by (auto simp: policyChainName_def truncateNftName_valid nftNameMaxLen_def)
qed

lemma isIngress_peersName:
  assumes "e \<in> {ingressChain, egressChain}" and "i < 2 ^ 63"
  shows "isIngressChain (peersName (policyChainName e policy) i) = isIngressChain e"
proof -
  let ?b = "policyChainName e policy" and ?suf = "peersChainSuffix @ ''-'' @ fmt_d i"
  have suf: "valid_nft_name ?suf" "length ?suf \<le> 25" "?suf \<noteq> []"
    using fmt_d_length [OF assms(2)] by (simp_all add: peersChainSuffix_def nft_char_def)
  define m where "m = int nftNameMaxLen - int (1 + length ?suf)"
  have m: "229 \<le> m" using suf(2) by (simp add: m_def nftNameMaxLen_def)
  have name: "peersName ?b i = truncateNftName ?b m @ ''-'' @ ?suf"
    unfolding peersName_def nftNameWithSuffix_def m_def Let_def
    using suf by (simp add: sanitize_id nftNameMaxLen_def)
  have len: "length (fmt_08x h) = 8" for h :: u32 by (rule length_fmt_08x)
  have "take 13 (truncateNftName ?b m @ ''-'' @ ?suf) = take 13 ?b"
    using policyChainName_valid [OF assms(1), of policy] m
    by (auto simp: truncateNftName_def Let_def sanitize_id len)
  moreover have "isIngressChain s = (take 13 s = ingressChain)" for s
    by (simp add: isIngressChain_def HasPrefix_def ingressChain_def numeral_eq_Suc)
  ultimately show ?thesis
    using isIngress_policyChainName [OF assms(1), of policy] by (simp only: name)
qed

lemma directionRules_policyRules:
  "e \<in> {ingressChain, egressChain} \<Longrightarrow> directionRules (policyChainName e policy) policy = policyRules (isIngressChain e) policy"
  by (simp add: directionRules_def policyRules_def isIngress_policyChainName)

subsection \<open>Policies without exceptions\<close>

text \<open>The policies of a direction as alternatives: some policy, some rule of it, some port and some peer of the rule.\<close>

definition peersAllow ::
  "policyDeps \<Rightarrow> podInfo \<Rightarrow> string list \<Rightarrow> byte list option \<Rightarrow> policyPeer list \<Rightarrow> bool" where
  "peersAllow D podInfo networks addr peers =
     (peers = [] \<or> list_ex (\<lambda>peer. peerDecision D podInfo networks addr peer = Grant) peers)"

definition directionAllows ::
  "'p datapath \<Rightarrow> policyDeps \<Rightarrow> bool \<Rightarrow> podInfo \<Rightarrow> internalPolicy list \<Rightarrow> 'p \<Rightarrow> bool" where
  "directionAllows K D ingress podInfo policies p =
     list_ex (\<lambda>pol. onInterface (packetInterface K ingress p) podInfo (ipNetworks pol) \<and>
       list_ex (\<lambda>rule. portsAllow (packetProto K p) (packetPort K p) (prPorts rule) \<and>
         peersAllow D podInfo (ipNetworks pol) (packetAddr K ingress p) (prPeers rule))
       (policyRules ingress (ipPolicy pol))) policies"

definition noExceptions :: "bool \<Rightarrow> internalPolicy \<Rightarrow> bool" where
  "noExceptions ingress pol =
     list_all (\<lambda>rule. list_all (\<lambda>peer. case peerIPBlock peer of Some b \<Rightarrow> ipExcept b = [] | None \<Rightarrow> True) (prPeers rule))
       (policyRules ingress (ipPolicy pol))"

lemma firstOf_map_Grant:
  assumes "\<And>x. x \<in> set xs \<Longrightarrow> f x \<noteq> DropIt \<and> (f x = Grant \<longleftrightarrow> P x)"
  shows "firstOf (map f xs) \<noteq> DropIt \<and> (firstOf (map f xs) = Grant \<longleftrightarrow> list_ex P xs)"
  using assms
proof (induction xs)
  case (Cons x xs)
  have "f x \<noteq> DropIt" "f x = Grant \<longleftrightarrow> P x"
    and "firstOf (map f xs) \<noteq> DropIt \<and> (firstOf (map f xs) = Grant \<longleftrightarrow> list_ex P xs)"
    using Cons.prems [of x] Cons.IH [OF Cons.prems] by simp_all
  then show ?case by (cases "f x") simp_all
qed simp

lemma peerDecision_noException:
  "(case peerIPBlock peer of Some b \<Rightarrow> ipExcept b = [] | None \<Rightarrow> True) \<Longrightarrow> peerDecision D podInfo networks addr peer \<noteq> DropIt"
  by (auto simp: peerDecision_def blockDecision_def selectorDecision_def split: option.splits sum.splits)

lemma ruleDecision_noException:
  assumes "list_all (\<lambda>peer. case peerIPBlock peer of Some b \<Rightarrow> ipExcept b = [] | None \<Rightarrow> True) (prPeers rule)"
  shows "ruleDecision D podInfo networks proto dport addr rule \<noteq> DropIt \<and>
    (ruleDecision D podInfo networks proto dport addr rule = Grant \<longleftrightarrow>
     portsAllow proto dport (prPorts rule) \<and> peersAllow D podInfo networks addr (prPeers rule))"
proof -
  have "peerDecision D podInfo networks addr peer \<noteq> DropIt \<and>
      (peerDecision D podInfo networks addr peer = Grant \<longleftrightarrow> peerDecision D podInfo networks addr peer = Grant)"
    if "peer \<in> set (prPeers rule)" for peer
    using peerDecision_noException [of peer] assms that unfolding list_all_iff by blast
  then have "firstOf (map (peerDecision D podInfo networks addr) (prPeers rule)) \<noteq> DropIt \<and>
      (firstOf (map (peerDecision D podInfo networks addr) (prPeers rule)) = Grant \<longleftrightarrow>
       list_ex (\<lambda>peer. peerDecision D podInfo networks addr peer = Grant) (prPeers rule))"
    by (rule firstOf_map_Grant)
  then show ?thesis
    by (auto simp: ruleDecision_def peersDecision_def peersAllow_def split: decision.splits)
qed

lemma appliedDecision_noException:
  assumes "noExceptions ingress pol"
  shows "appliedDecision K D ingress podInfo p pol \<noteq> DropIt \<and>
    (appliedDecision K D ingress podInfo p pol = Grant \<longleftrightarrow>
     onInterface (packetInterface K ingress p) podInfo (ipNetworks pol) \<and>
     list_ex (\<lambda>rule. portsAllow (packetProto K p) (packetPort K p) (prPorts rule) \<and>
       peersAllow D podInfo (ipNetworks pol) (packetAddr K ingress p) (prPeers rule))
     (policyRules ingress (ipPolicy pol)))"
  using assms unfolding appliedDecision_def policyDecision_def noExceptions_def list_all_iff
  by (simp add: firstOf_map_Grant [OF ruleDecision_noException] list_all_iff)

lemma directionDecision_noException:
  assumes "list_all (noExceptions ingress) policies"
  shows "directionDecision K D ingress podInfo policies p = Grant \<longleftrightarrow> directionAllows K D ingress podInfo policies p"
  unfolding directionDecision_def directionAllows_def
  by (rule firstOf_map_Grant [THEN conjunct2], rule appliedDecision_noException)
    (use assms in \<open>simp add: list_all_iff\<close>)

end
