(* ===== verification/Enforce.thy ===== *)
theory Enforce
  imports Decision
begin

text \<open>
  The chains of Rendering decide packets as the policies say (theory Decision), under any
  packet path that follows the laws of \<open>nft_datapath\<close>: first the chain of ports and the chain
  of peers of one rule, then the chain of a policy, then the rules of the entry chain.
\<close>

unbundle bit_operations_syntax

context nft_datapath
begin

lemma rule_proto:
  "dp_rule K S p ([metaLoad MetaKeyL4PROTO, cmpEq flag, payloadLoad PayloadBaseTransportHeader 2 2, lookup0 s, counter0] @
      setMark be m) reg mk =
   Break (if take (length flag) (dp_meta K p MetaKeyL4PROTO) = flag \<and>
             (\<exists>k. packetPort K p = Some k \<and> S (shortName (sName s)) k) then mk OR m else mk)"
  by (simp add: expr_defs lookup0_def packetPort_def expr_laws rule_setMark split: option.split)

lemma chain_proto:
  assumes m: "protoMsgs be chain name pc proto els = Some ms" and t: "cTable pc = t"
    and S: "members R ms" and marks: "marks 65536 (protoRanges proto ports) els" and "apart (protoRanges proto ports)"
    and proto: "proto \<in> {''TCP'', ''UDP'', ''SCTP''}"
  shows "dp_chain K d R p (addedRules t (cName pc) ms @ rest) mk =
     dp_chain K d R p rest
       (if \<exists>port \<in> set ports. portProto port = proto \<and> portHit (packetProto K p) (packetPort K p) port
        then mk OR portRuleMark else mk)"
proof (cases "els = []")
  case True
  then have "protoRanges proto ports = {}" using marks by (auto simp: marks_def)
  with protoRanges_hit [OF proto, of ports] have "\<not> (\<exists>port \<in> set ports. portProto port = proto \<and> portHit (packetProto K p) (packetPort K p) port)"
    by (cases "packetPort K p") (auto simp: portHit_def)
  moreover have "ms = []" using m True by (simp add: protoMsgs_def)
  ultimately show ?thesis by (simp only: addedRules.simps append_Nil if_False)
next
  case False
  let ?s = "getInetSet chain name (fst (getProtocolInfo proto))"
  let ?f = "snd (getProtocolInfo proto)"
  have ms: "ms = setMsgs ?s els @ [ruleMsg (cTable pc) (cName pc)
      ([metaLoad MetaKeyL4PROTO, cmpEq ?f, payloadLoad PayloadBaseTransportHeader 2 2, lookup0 ?s, counter0] @
       setMark be portRuleMark)]"
    using m False by (simp add: protoMsgs_def)
  have f: "length ?f = 1" by (simp add: getProtocolInfo_def)
  have "(\<exists>k. packetPort K p = Some k \<and> rsMember R (shortName (sName ?s)) k) \<and> take 1 (dp_meta K p MetaKeyL4PROTO) = ?f \<longleftrightarrow>
      (\<exists>port \<in> set ports. portProto port = proto \<and> portHit (packetProto K p) (packetPort K p) port)"
  proof (cases "packetPort K p")
    case None
    then show ?thesis by (simp add: portHit_def)
  next
    case (Some k)
    then have "length k = 2" unfolding packetPort_def by (drule_tac payload_length) simp
    with interval_ports [OF marks assms(5)] protoRanges_hit [OF proto, of ports "packetProto K p" k] S Some
    show ?thesis by (auto simp: ms packetProto_def)
  qed
  then show ?thesis
    using f by (simp add: ms t chain_break [OF rule_proto, simplified] conj_commute)
qed

lemma chain_ports:
  assumes m: "portsMsgs be name chain ports i = Some ms"
    and S: "holds (cTable chain) R ms" and new: "cName chain \<notin> set (newChains ms)"
    and apart: "\<And>proto. apart (protoRanges proto ports)"
  shows "dp_chain K d R p (rsRules R (cName (portsChain name (cTable chain) i))) mk =
     Some (Returned (if portsAllow (packetProto K p) (packetPort K p) ports then mk OR portRuleMark else mk))"
proof -
  let ?pc = "portsChain name (cTable chain) i" and ?t = "cTable chain"
  let ?n = "nftNameWithSuffix name ''-'' (portsChainSuffix @ ''-'' @ fmt_d i)"
  let ?hit = "\<lambda>proto. \<exists>port \<in> set ports. portProto port = proto \<and> portHit (packetProto K p) (packetPort K p) port"
  obtain tcp udp sctp a b c e where c: "collectPorts ports [] [] [] = Inr (tcp, udp, sctp)"
    and ms: "ms = [MsgNewChain ?pc, ruleMsg ?t (cName chain) [counter0, jumpTo (cName ?pc)]] @ a @ b @ c @ e"
    and p: "protoMsgs be chain ?n ?pc ''TCP'' tcp = Some a" "protoMsgs be chain ?n ?pc ''UDP'' udp = Some b"
      "protoMsgs be chain ?n ?pc ''SCTP'' sctp = Some c"
    and e: "e = (if ports = [] \<or> tcp = [] \<and> udp = [] \<and> sctp = []
        then [ruleMsg ?t (cName ?pc) (counter0 # setMark be portRuleMark)] else [])"
    by (rule portsMsgs_parts [OF m])
  have mk: "marks 65536 (protoRanges ''TCP'' ports) tcp" "marks 65536 (protoRanges ''UDP'' ports) udp"
    "marks 65536 (protoRanges ''SCTP'' ports) sctp"
    using collectPorts_marks [OF c, of "{}" "{}" "{}"] by simp_all
  have mem: "members R a" "members R b" "members R c" using S by (simp_all add: ms holds_def members_def)
  have ne: "cName chain \<noteq> cName ?pc" using new by (auto simp: ms)
  have rules: "rsRules R (cName ?pc) = addedRules ?t (cName ?pc) a @ addedRules ?t (cName ?pc) b @
      addedRules ?t (cName ?pc) c @ addedRules ?t (cName ?pc) e"
    using S ne by (simp add: ms holds_def)
  have none: "(ports = [] \<or> tcp = [] \<and> udp = [] \<and> sctp = []) = list_all (\<lambda>port. ppPort (defaultPort port) = None) ports"
    using collectPorts_empty [OF c] by (cases ports) auto
  define T U C where "T = ?hit ''TCP''" and "U = ?hit ''UDP''" and "C = ?hit ''SCTP''"
  have ex: "list_ex (portHit (packetProto K p) (packetPort K p)) ports \<longleftrightarrow> T \<or> U \<or> C"
    using portProto_cases by (fastforce simp: list_ex_iff T_def U_def C_def)
  have last: "dp_chain K d R p (addedRules ?t (cName ?pc) e) mk' =
      Some (Returned (if list_all (\<lambda>port. ppPort (defaultPort port) = None) ports then mk' OR portRuleMark else mk'))" for mk'
    unfolding e none by (simp add: chain_break [OF rule_setMark(2)] chain_end)
  have or: "(mk' OR m) OR m = mk' OR (m :: u32)" for mk' m by (rule bit_word_eqI) (auto simp: bit_simps)
  have step: "dp_chain K d R p (addedRules ?t (cName ?pc) a @ rest) mk' = dp_chain K d R p rest (if T then mk' OR portRuleMark else mk')"
    "dp_chain K d R p (addedRules ?t (cName ?pc) b @ rest) mk' = dp_chain K d R p rest (if U then mk' OR portRuleMark else mk')"
    "dp_chain K d R p (addedRules ?t (cName ?pc) c @ rest) mk' = dp_chain K d R p rest (if C then mk' OR portRuleMark else mk')"
    for rest mk'
    using chain_proto [OF p(1) chain_tables(1) mem(1) mk(1) apart] chain_proto [OF p(2) chain_tables(1) mem(2) mk(2) apart]
      chain_proto [OF p(3) chain_tables(1) mem(3) mk(3) apart] by (simp_all only: T_def U_def C_def insert_iff simp_thms)
  show ?thesis
    unfolding rules portsAllow_def ex by (simp only: step last) (cases T; cases U; cases C; simp add: or)
qed

lemma packetAddr_length: "packetAddr K ingress p = Some bs \<Longrightarrow> length bs \<in> {4, 16}"
  unfolding packetAddr_def by (auto simp: IPv4len_def IPv6len_def dest!: payload_length split: if_splits)

lemma addr_loaded:
  "(\<exists>bs. take 1 (dp_meta K p MetaKeyNFPROTO) = [if isV6 then NFPROTO_IPV6 else NFPROTO_IPV4] \<and>
      dp_payload K p PayloadBaseNetworkHeader (addrOffset name isV6) (if isV6 then IPv6len else IPv4len) = Some bs \<and> M bs) \<longleftrightarrow>
   addrHit K (isIngressChain name) isV6 p M"
  unfolding addrHit_def packetAddr_def addrOffset_def
  by (auto simp: nft_consts IPv4len_def IPv6len_def split: if_splits; drule payload_length; simp)

lemma rule_addr:
  assumes "\<And>reg. dp_rule K S p rest reg mk = res"
  shows "dp_rule K S p (addrMatch name isV6 s @ rest) reg mk =
     (if addrHit K (isIngressChain name) isV6 p (S (shortName (sName s))) then res else Break mk)"
  unfolding addr_loaded [symmetric]
  by (auto simp: addrMatch_def expr_defs lookup0_def expr_laws assms split: option.split)

lemmas rule_addr_drop = rule_addr [OF rule_drop]
lemmas rule_addr_grant = rule_addr [OF rule_setMark(3)]

lemma chain_addr_drop:
  "dp_chain K d R p ((addrMatch name isV6 s @ [counter0, verdict VerdictDrop]) # rest) mk =
     (if addrHit K (isIngressChain name) isV6 p (rsMember R (shortName (sName s))) then Some Dropped
      else dp_chain K d R p rest mk)"
  using chain_drop [of R p "addrMatch name isV6 s @ [counter0, verdict VerdictDrop]" mk "[]" mk d rest]
    chain_break [of R p "addrMatch name isV6 s @ [counter0, verdict VerdictDrop]" mk mk d rest]
  by (simp add: rule_addr_drop split: if_splits)

lemma chain_addr_grant:
  "dp_chain K d R p ((addrMatch name isV6 s @ setMark be m @ [counter0, verdict VerdictReturn]) # rest) mk =
     (if addrHit K (isIngressChain name) isV6 p (rsMember R (shortName (sName s))) then Some (Returned (mk OR m))
      else dp_chain K d R p rest mk)"
  using chain_return [of R p "addrMatch name isV6 s @ setMark be m @ [counter0, verdict VerdictReturn]" mk "[]" "mk OR m" d rest]
    chain_break [of R p "addrMatch name isV6 s @ setMark be m @ [counter0, verdict VerdictReturn]" mk mk d rest]
  by (simp add: rule_addr_grant split: if_splits)

lemma chain_prefix:
  assumes m: "prefixMsgs be name chain i ps xs isV6 = Some ms" and S: "members R ms"
  shows "dp_chain K d R p (addedRules (cTable chain) (cName chain) ms @ rest) mk =
     (if ps \<noteq> [] \<and> addrHit K (isIngressChain name) isV6 p (setMatch True xs) then Some Dropped
      else if ps \<noteq> [] \<and> addrHit K (isIngressChain name) isV6 p (setMatch True ps) then Some (Returned (mk OR peerRuleMark))
      else dp_chain K d R p rest mk)"
proof (cases "ps = []")
  case True
  with m show ?thesis by (simp add: prefixMsgs_def)
next
  case False
  have "\<not> addrHit K (isIngressChain name) isV6 p (setMatch True [])" by (simp add: addrHit_def setMatch_def interval_match_def)
  with False m S show ?thesis
    by (cases "xs = []") (auto simp: prefixMsgs_def chain_addr_drop chain_addr_grant)
qed

lemma chain_block:
  assumes m: "blockMsgs be name chain b i = Some ms" and S: "members R ms" and dis: "disjointPrefixes (ipExcept b)"
  shows "dp_chain K d R p (addedRules (cTable chain) (cName chain) ms @ rest) mk =
     after (case packetAddr K (isIngressChain name) p of None \<Rightarrow> Leave | Some bs \<Rightarrow> blockDecision b bs)
       (Returned (mk OR peerRuleMark)) (dp_chain K d R p rest mk)"
proof -
  let ?hit = "addrHit K (isIngressChain name)"
  obtain x4 x6 p4 p6 a c where x: "getPrefixesAsSetInterval (ipExcept b) = Inr (x4, x6)"
    and pp: "getPrefixesAsSetInterval [ipCIDR b] = Inr (p4, p6)"
    and a: "prefixMsgs be name chain i p4 x4 False = Some a" and c: "prefixMsgs be name chain i p6 x6 True = Some c"
    and ms: "ms = a @ c"
    using m by (auto simp: blockMsgs_def Option.bind_eq_Some_conv both_eq_Some opt_def split: sum.splits prod.splits)
  obtain net where net: "ParsePrefix (ipCIDR b) = Inr net" "p4 = [] \<longleftrightarrow> \<not> Is4 (pAddr net)" "p6 = [] \<longleftrightarrow> Is4 (pAddr net)"
    by (rule single_prefix [OF pp])
  have one: "disjointPrefixes [ipCIDR b]" by (simp add: disjointPrefixes_def)
  have eval: "dp_chain K d R p (addedRules (cTable chain) (cName chain) ms @ rest) mk =
      (if p4 \<noteq> [] \<and> ?hit False p (setMatch True x4) then Some Dropped
       else if p4 \<noteq> [] \<and> ?hit False p (setMatch True p4) then Some (Returned (mk OR peerRuleMark))
       else if p6 \<noteq> [] \<and> ?hit True p (setMatch True x6) then Some Dropped
       else if p6 \<noteq> [] \<and> ?hit True p (setMatch True p6) then Some (Returned (mk OR peerRuleMark))
       else dp_chain K d R p rest mk)"
    using S by (simp add: ms chain_prefix [OF a] chain_prefix [OF c])
  show ?thesis
  proof (cases "packetAddr K (isIngressChain name) p")
    case None
    then show ?thesis by (simp add: eval addrHit_def)
  next
    case (Some bs)
    have hit: "?hit v6 p M \<longleftrightarrow> length bs = (if v6 then 16 else 4) \<and> M bs" for v6 M
      by (simp add: addrHit_def Some)
    have fam: "prefixFamily (ipCIDR b) (addrOf bs) \<longleftrightarrow> Is4 (pAddr net) = (length bs = 4)"
      by (simp add: prefixFamily_def net)
    consider "length bs = 4" | "length bs = 16" using packetAddr_length [OF Some] by auto
    then show ?thesis
      using prefixes_hit [OF x dis, of bs] prefixes_hit [OF pp one, of bs] fam prefixHit_family [of "ipCIDR b" "addrOf bs"]
      by cases (auto simp: eval hit net Some blockDecision_def)
  qed
qed

lemma chain_addrs:
  assumes m: "addrMsgs be D name chain peer i addrs = Some ms" and S: "members R ms"
    and fam: "\<And>a. a \<in> set addrs \<Longrightarrow> (To4 (net_ParseIP a) = None) = isV6"
  shows "dp_chain K d R p (addedRules (cTable chain) (cName chain) ms @ rest) mk =
     (if addrHit K (isIngressChain name) isV6 p (\<lambda>bs. bs \<in> ipKey ` set addrs) then Some (Returned (mk OR peerRuleMark))
      else dp_chain K d R p rest mk)"
proof (cases addrs)
  case Nil
  with m show ?thesis by (simp add: addrMsgs_def addrHit_def)
next
  case (Cons addr0 addrs')
  let ?s = "addrSet D name (cTable chain) peer i isV6"
  have ms: "ms = setMsgs ?s (map (\<lambda>addr. elem (ipKey addr)) addrs) @
      [ruleMsg (cTable chain) (cName chain) (addrMatch name isV6 ?s @ setMark be peerRuleMark @ [counter0, verdict VerdictReturn])]"
    using m fam [of addr0] by (simp add: addrMsgs_def Cons Let_def)
  have "rsMember R (shortName (sName ?s)) = (\<lambda>bs. bs \<in> ipKey ` set addrs)"
    using S by (auto simp: ms setMatch_def list_ex_iff elem_def fun_eq_iff)
  then show ?thesis by (simp add: ms chain_addr_grant)
qed

lemma chain_selector:
  assumes m: "selectorMsgs be D name chain peer podInfo networks i = Some ms" and S: "members R ms"
    and reg: "peerIPBlock peer = None" "regularPeer D podInfo networks peer"
  shows "dp_chain K d R p (addedRules (cTable chain) (cName chain) ms @ rest) mk =
     after (case packetAddr K (isIngressChain name) p of None \<Rightarrow> Leave | Some bs \<Rightarrow> selectorDecision D peer podInfo networks bs)
       (Returned (mk OR peerRuleMark)) (dp_chain K d R p rest mk)"
proof -
  let ?hit = "addrHit K (isIngressChain name)"
  obtain addrs v4 v6 a c where ad: "peerAddrs D peer podInfo networks = Inr addrs"
    and sp: "splitAddrs addrs [] [] = Inr (v4, v6)"
    and a: "addrMsgs be D name chain peer i v4 = Some a" and c: "addrMsgs be D name chain peer i v6 = Some c" and ms: "ms = a @ c"
    using m by (auto simp: selectorMsgs_def Option.bind_eq_Some_conv both_eq_Some opt_def split: sum.splits prod.splits)
  have v: "v4 = filter (parsed6 False) addrs" "v6 = filter (parsed6 True) addrs" "set addrs = set v4 \<union> set v6"
    using splitAddrs_filter [OF sp] by (auto simp: list_all_iff)
  have un: "x \<in> set addrs \<Longrightarrow> unmapped x" for x using reg by (simp add: regularPeer_def ad list_all_iff)
  have f4: "(To4 (net_ParseIP x) = None) = False" if "x \<in> set v4" for x using that ipKey_length(1) by (auto simp: v(1))
  have f6: "(To4 (net_ParseIP x) = None) = True" if "x \<in> set v6" for x using that ipKey_length(2) un by (auto simp: v(2))
  have eval: "dp_chain K d R p (addedRules (cTable chain) (cName chain) ms @ rest) mk =
      (if ?hit False p (\<lambda>bs. bs \<in> ipKey ` set v4) \<or> ?hit True p (\<lambda>bs. bs \<in> ipKey ` set v6)
       then Some (Returned (mk OR peerRuleMark)) else dp_chain K d R p rest mk)"
    using S by (simp add: ms chain_addrs [OF a _ f4] chain_addrs [OF c _ f6])
  have "?hit False p (\<lambda>bs. bs \<in> ipKey ` set v4) \<or> ?hit True p (\<lambda>bs. bs \<in> ipKey ` set v6) \<longleftrightarrow>
      (\<exists>bs. packetAddr K (isIngressChain name) p = Some bs \<and> bs \<in> ipKey ` set addrs)"
  proof (cases "packetAddr K (isIngressChain name) p")
    case None
    then show ?thesis by (simp add: addrHit_def)
  next
    case (Some bs)
    have l4: "bs \<in> ipKey ` set v4 \<Longrightarrow> length bs = 4" using ipKey_length(1) by (auto simp: v(1))
    have l6: "bs \<in> ipKey ` set v6 \<Longrightarrow> length bs \<noteq> 4" using ipKey_length(2) un by (auto simp: v(2))
    show ?thesis
      using l4 l6 packetAddr_length [OF Some] by (auto simp: addrHit_def Some v(3) image_Un)
  qed
  then show ?thesis unfolding eval by (auto simp: selectorDecision_def ad split: option.split)
qed

lemma chain_peer:
  assumes m: "peerMsgs be D name chain podInfo networks (i, peer) = Some ms" and S: "members R ms"
    and reg: "regularPeer D podInfo networks peer"
  shows "dp_chain K d R p (addedRules (cTable chain) (cName chain) ms @ rest) mk =
     after (peerDecision D podInfo networks (packetAddr K (isIngressChain name) p) peer)
       (Returned (mk OR peerRuleMark)) (dp_chain K d R p rest mk)"
proof (cases "peerIPBlock peer")
  case None
  with m chain_selector [OF _ S None reg] show ?thesis
    by (cases "packetAddr K (isIngressChain name) p") (simp_all add: peerMsgs_def peerDecision_def split: if_splits)
next
  case (Some b)
  with m reg chain_block [OF _ S] show ?thesis
    by (cases "packetAddr K (isIngressChain name) p") (simp_all add: peerMsgs_def peerDecision_def regularPeer_def)
qed

lemma chain_peer_list:
  assumes "map (peerMsgs be D name chain podInfo networks) (enumerate n peers) = map Some mss"
    and "members R (concat mss)" and "list_all (regularPeer D podInfo networks) peers"
  shows "dp_chain K d R p (addedRules (cTable chain) (cName chain) (concat mss) @ rest) mk =
     after (firstOf (map (peerDecision D podInfo networks (packetAddr K (isIngressChain name) p)) peers))
       (Returned (mk OR peerRuleMark)) (dp_chain K d R p rest mk)"
  using assms
proof (induction peers arbitrary: n mss)
  case Nil
  then show ?case by simp
next
  case (Cons peer peers)
  from Cons.prems(1) obtain ms mss' where mss: "mss = ms # mss'"
    and ms: "peerMsgs be D name chain podInfo networks (n, peer) = Some ms"
    and rest: "map (peerMsgs be D name chain podInfo networks) (enumerate (Suc n) peers) = map Some mss'"
    by (cases mss) auto
  have "members R ms" "members R (concat mss')" using Cons.prems(2) by (simp_all add: mss)
  with chain_peer [OF ms] Cons.IH [OF rest] Cons.prems(3) show ?case
    by (simp add: mss) (cases "peerDecision D podInfo networks (packetAddr K (isIngressChain name) p) peer"; simp)
qed

lemma chain_peers:
  assumes m: "peersMsgs be D name chain peers podInfo networks i = Some ms"
    and S: "holds (cTable chain) R ms" and new: "cName chain \<notin> set (newChains ms)"
    and reg: "list_all (regularPeer D podInfo networks) peers"
  shows "dp_chain K d R p (rsRules R (cName (peersChain name (cTable chain) i))) mk =
     after (peersDecision D podInfo networks (packetAddr K (isIngressChain (peersName name i)) p) peers)
       (Returned (mk OR peerRuleMark)) (Some (Returned mk))"
proof -
  let ?pc = "peersChain name (cTable chain) i" and ?t = "cTable chain"
  obtain mss e where mss: "map (peerMsgs be D (peersName name i) ?pc podInfo networks) (enumerate 0 peers) = map Some mss"
    and ms: "ms = [MsgNewChain ?pc, ruleMsg ?t (cName chain) [counter0, jumpTo (cName ?pc)]] @ concat mss @ e"
    and e: "e = (if peers = [] then [ruleMsg ?t (cName ?pc) (counter0 # setMark be peerRuleMark)] else [])"
    by (rule peersMsgs_parts [OF m])
  have ne: "cName chain \<noteq> cName ?pc" using new by (auto simp: ms)
  have rules: "rsRules R (cName ?pc) = addedRules ?t (cName ?pc) (concat mss) @ addedRules ?t (cName ?pc) e"
    using S ne by (simp add: ms holds_def)
  have mem: "members R (concat mss)" using S by (simp add: ms holds_def members_def)
  have rest: "dp_chain K d R p (addedRules ?t (cName ?pc) e) mk = Some (Returned (if peers = [] then mk OR peerRuleMark else mk))"
    unfolding e by (simp add: chain_break [OF rule_setMark(2)] chain_end)
  from chain_peer_list [OF mss mem reg, of d p "addedRules ?t (cName ?pc) e" mk] show ?thesis
    by (simp add: rules rest peersDecision_def)
qed

lemma chain_jump_rule:
  "dp_chain K (Suc d) R p ([counter0, jumpTo c] # rest) mk =
     (case dp_chain K d R p (rsRules R c) mk of
        Some (Returned mk') \<Rightarrow> dp_chain K (Suc d) R p rest mk' | res \<Rightarrow> res)"
  by (rule chain_jump [OF rule_jump])

lemma chain_markReset: "dp_chain K d R p (markReset be # rest) mk = dp_chain K d R p rest (mk AND NOT matchRuleMark)"
  by (rule chain_break [OF rule_markReset])

lemma chain_markCheck:
  "dp_chain K d R p (markCheck be # rest) mk = (if full mk then Some (Returned mk) else dp_chain K d R p rest mk)"
  using chain_return [of R p "markCheck be" mk "[]" mk d rest] chain_break [of R p "markCheck be" mk mk d rest]
  by (simp add: rule_markCheck full_def split: if_splits)

lemma chain_rule:
  assumes m: "policyRuleMsgs be D name chain podInfo networks (i, rule) = Some ms"
    and S: "holds (cTable chain) R ms" and new: "distinct (cName chain # newChains ms)"
    and reg: "regularRule D podInfo networks rule"
  obtains mk' where "mk' OR matchRuleMark = mk OR matchRuleMark" "\<not> full mk'"
    and "dp_chain K (Suc d) R p (addedRules (cTable chain) (cName chain) ms @ rest) mk =
      after (ruleDecision D podInfo networks (packetProto K p) (packetPort K p)
          (packetAddr K (isIngressChain (peersName name i)) p) rule)
        (Returned (mk OR matchRuleMark)) (dp_chain K (Suc d) R p rest mk')"
proof -
  let ?t = "cTable chain" and ?c = "cName chain"
  obtain a b where a: "portsMsgs be name chain (prPorts rule) i = Some a"
    and b: "peersMsgs be D name chain (prPeers rule) podInfo networks i = Some b"
    and ms: "ms = [ruleMsg ?t ?c (markReset be)] @ a @ b @ [ruleMsg ?t ?c (markCheck be)]"
    by (rule policyRuleMsgs_parts [OF m])
  have Ha: "holds ?t R a"
  proof (rule holds_part)
    show "holds ?t R ([ruleMsg ?t ?c (markReset be)] @ a @ (b @ [ruleMsg ?t ?c (markCheck be)]))" using S by (simp add: ms)
  qed (use new block_peersMsgs [OF b] in \<open>auto simp: ms intro: block_rule block_append\<close>)
  have Hb: "holds ?t R b"
  proof (rule holds_part)
    show "holds ?t R (([ruleMsg ?t ?c (markReset be)] @ a) @ b @ [ruleMsg ?t ?c (markCheck be)])" using S by (simp add: ms)
  qed (use new block_portsMsgs [OF a] in \<open>auto simp: ms intro!: block_rule block_append [of _ _ "[_]", simplified]\<close>)
  have ra: "addedRules ?t ?c a = [[counter0, jumpTo (cName (portsChain name ?t i))]]"
    by (rule ports_jump [OF a]) (use new in \<open>simp add: ms\<close>)
  have rb: "addedRules ?t ?c b = [[counter0, jumpTo (cName (peersChain name ?t i))]]"
    by (rule peers_jump [OF b]) (use new in \<open>simp add: ms\<close>)
  define po where "po = portsAllow (packetProto K p) (packetPort K p) (prPorts rule)"
  define pe where "pe = peersDecision D podInfo networks (packetAddr K (isIngressChain (peersName name i)) p) (prPeers rule)"
  have ports: "dp_chain K d R p (rsRules R (cName (portsChain name ?t i))) m =
      Some (Returned (if po then m OR portRuleMark else m))" for m
    unfolding po_def by (rule chain_ports [OF a Ha]) (use new reg in \<open>simp_all add: ms regularRule_def\<close>)
  have peers: "dp_chain K d R p (rsRules R (cName (peersChain name ?t i))) m =
      after pe (Returned (m OR peerRuleMark)) (Some (Returned m))" for m
    unfolding pe_def by (rule chain_peers [OF b Hb]) (use new reg in \<open>simp_all add: ms regularRule_def\<close>)
  have eval: "dp_chain K (Suc d) R p (addedRules ?t ?c ms @ rest) mk =
      (if pe = DropIt then Some Dropped
       else if po \<and> pe = Grant then Some (Returned (ruleMark po (pe = Grant) mk))
       else dp_chain K (Suc d) R p rest (ruleMark po (pe = Grant) mk))"
    unfolding ms
    by (cases pe; cases po) (simp_all add: ra rb chain_markReset chain_jump_rule ports peers chain_markCheck ruleMark_steps)
  show thesis
  proof (cases "po \<and> pe = Grant")
    case True
    show thesis
      by (rule that [of "ruleMark False False mk"]) (use True in \<open>simp_all add: eval ruleDecision_def ruleMark_both flip: po_def pe_def\<close>)
  next
    case False
    show thesis
      by (rule that [of "ruleMark po (pe = Grant) mk"])
        (use False in \<open>auto simp: eval ruleDecision_def simp flip: po_def pe_def split: decision.split\<close>)
  qed
qed

lemma chain_rules:
  assumes "map (policyRuleMsgs be D name chain podInfo networks) (enumerate n rules) = map Some mss"
    and "holds (cTable chain) R (concat mss)" and "distinct (cName chain # newChains (concat mss))"
    and "list_all (regularRule D podInfo networks) rules"
    and "\<And>j. j < n + length rules \<Longrightarrow> isIngressChain (peersName name j) = ingress"
  shows "\<exists>mk'. mk' OR matchRuleMark = mk OR matchRuleMark \<and> (full mk' \<longrightarrow> full mk \<and> rules = []) \<and>
     dp_chain K (Suc d) R p (addedRules (cTable chain) (cName chain) (concat mss)) mk =
     after (policyDecision D podInfo networks (packetProto K p) (packetPort K p) (packetAddr K ingress p) rules)
       (Returned (mk OR matchRuleMark)) (Some (Returned mk'))"
  using assms
proof (induction rules arbitrary: n mss mk)
  case Nil
  then show ?case by (auto simp: policyDecision_def chain_end)
next
  case (Cons rule rules)
  let ?t = "cTable chain" and ?c = "cName chain"
  from Cons.prems(1) obtain ms mss' where mss: "mss = ms # mss'"
    and ms: "policyRuleMsgs be D name chain podInfo networks (n, rule) = Some ms"
    and rest: "map (policyRuleMsgs be D name chain podInfo networks) (enumerate (Suc n) rules) = map Some mss'"
    by (cases mss) auto
  have H: "holds ?t R ([] @ ms @ concat mss')" "holds ?t R (ms @ concat mss' @ [])" using Cons.prems(2) by (simp_all add: mss)
  have H1: "holds ?t R ms"
    by (rule holds_part [OF H(1)]) (use Cons.prems(3) block_podRules [OF rest] in \<open>auto simp: mss\<close>)
  have H2: "holds ?t R (concat mss')"
    by (rule holds_part [OF H(2)]) (use Cons.prems(3) block_policyRuleMsgs [OF ms] in \<open>auto simp: mss\<close>)
  obtain mk1 where mk1: "mk1 OR matchRuleMark = mk OR matchRuleMark" "\<not> full mk1"
    and e1: "dp_chain K (Suc d) R p (addedRules ?t ?c ms @ addedRules ?t ?c (concat mss')) mk =
      after (ruleDecision D podInfo networks (packetProto K p) (packetPort K p) (packetAddr K ingress p) rule)
        (Returned (mk OR matchRuleMark)) (dp_chain K (Suc d) R p (addedRules ?t ?c (concat mss')) mk1)"
    using chain_rule [OF ms H1, of mk d p "addedRules ?t ?c (concat mss')"] Cons.prems(3,4) Cons.prems(5) [of n]
    by (auto simp: mss)
  obtain mk2 where mk2: "mk2 OR matchRuleMark = mk1 OR matchRuleMark" "full mk2 \<longrightarrow> full mk1 \<and> rules = []"
    and e2: "dp_chain K (Suc d) R p (addedRules ?t ?c (concat mss')) mk1 =
      after (policyDecision D podInfo networks (packetProto K p) (packetPort K p) (packetAddr K ingress p) rules)
        (Returned (mk1 OR matchRuleMark)) (Some (Returned mk2))"
    using Cons.IH [OF rest H2 _ _ Cons.prems(5), of mk1] Cons.prems(3,4) by (auto simp: mss)
  show ?case
    using mk1 mk2 e1 e2
    by (intro exI [of _ mk2]) (auto simp: mss policyDecision_def after_firstOf simp del: firstOf.simps)
qed

lemma chain_interface:
  "dp_chain K (Suc d) R p ([metaLoad (getMetaKeyInterface ch), cmpEq (ifname n), counter0, jumpTo c] # rest) mk =
     (if packetInterface K (isIngressChain ch) p = ifname n
      then (case dp_chain K d R p (rsRules R c) mk of
              Some (Returned mk') \<Rightarrow> dp_chain K (Suc d) R p rest mk' | res \<Rightarrow> res)
      else dp_chain K (Suc d) R p rest mk)"
proof -
  have "take 16 (dp_meta K p (getMetaKeyInterface ch)) = packetInterface K (isIngressChain ch) p"
    by (simp add: packetInterface_def getMetaKeyInterface_def)
  then show ?thesis
    using chain_jump [of R p "[metaLoad (getMetaKeyInterface ch), cmpEq (ifname n), counter0, jumpTo c]" mk c mk d rest]
      chain_break [of R p "[metaLoad (getMetaKeyInterface ch), cmpEq (ifname n), counter0, jumpTo c]" mk mk "Suc d" rest]
    by (simp add: rule_interface split: if_splits)
qed

lemma chain_interfaces:
  assumes "map (interfaceMsgs entry pc networks) ifs = map Some iss"
    and pol: "\<And>mk. \<exists>mk'. mk' OR matchRuleMark = mk OR matchRuleMark \<and> (full mk' \<longrightarrow> full mk) \<and>
      dp_chain K (Suc d) R p (rsRules R (cName pc)) mk = after dec (Returned (mk OR matchRuleMark)) (Some (Returned mk'))"
    and "full mk \<Longrightarrow> dec = Grant"
  shows "let hit = list_ex (interfaceHit (packetInterface K (isIngressChain (cName entry)) p) networks) ifs;
           ev = dp_chain K (Suc (Suc d)) R p (addedRules (cTable entry) (cName entry) (concat iss) @ rest) mk in
     if hit \<and> dec = DropIt then ev = Some Dropped
     else \<exists>mk'. mk' OR matchRuleMark = mk OR matchRuleMark \<and> (full mk' \<longleftrightarrow> full mk \<or> hit \<and> dec = Grant) \<and>
            ev = dp_chain K (Suc (Suc d)) R p rest mk'"
  using assms(1,3)
proof (induction ifs arbitrary: iss mk)
  case Nil
  then show ?case by (auto simp: Let_def)
next
  case (Cons i ifs)
  let ?P = "interfaceHit (packetInterface K (isIngressChain (cName entry)) p) networks"
  from Cons.prems(1) obtain ms iss' where iss: "iss = ms # iss'"
    and ms: "interfaceMsgs entry pc networks i = Some ms"
    and tl: "map (interfaceMsgs entry pc networks) ifs = map Some iss'"
    by (cases iss) auto
  let ?rest = "addedRules (cTable entry) (cName entry) (concat iss') @ rest"
  show ?case
  proof (cases "?P i")
    case False
    then have "dp_chain K (Suc (Suc d)) R p (addedRules (cTable entry) (cName entry) ms @ ?rest) mk =
        dp_chain K (Suc (Suc d)) R p ?rest mk"
      using ms by (auto simp: interfaceMsgs_def interfaceHit_def chain_interface split: if_splits)
    then show ?thesis using Cons.IH [OF tl Cons.prems(2)] False by (simp add: iss Let_def)
  next
    case True
    obtain mk1 where mk1: "mk1 OR matchRuleMark = mk OR matchRuleMark" "full mk1 \<longrightarrow> full mk"
      and e: "dp_chain K (Suc d) R p (rsRules R (cName pc)) mk = after dec (Returned (mk OR matchRuleMark)) (Some (Returned mk1))"
      using pol by blast
    have ev: "dp_chain K (Suc (Suc d)) R p (addedRules (cTable entry) (cName entry) ms @ ?rest) mk =
        (case after dec (Returned (mk OR matchRuleMark)) (Some (Returned mk1)) of
           Some (Returned mk') \<Rightarrow> dp_chain K (Suc (Suc d)) R p ?rest mk' | res \<Rightarrow> res)"
      using ms True chain_interface [of "Suc d" R p "cName entry" "InterfaceName i" "cName pc" ?rest mk]
      by (auto simp: interfaceMsgs_def interfaceHit_def e split: if_splits)
    show ?thesis
    proof (cases dec)
      case DropIt
      with True ev show ?thesis by (simp add: iss Let_def)
    next
      case Grant
      with Cons.IH [OF tl, of "mk OR matchRuleMark"] True ev show ?thesis by (auto simp: iss Let_def or.assoc)
    next
      case Leave
      then have "\<not> full mk" "\<not> full mk1" using Cons.prems(2) mk1(2) by auto
      with Leave Cons.IH [OF tl, of mk1] True ev mk1 show ?thesis by (simp add: iss Let_def)
    qed
  qed
qed

lemma marks_settle:
  assumes "if dec = DropIt then X = Some Dropped
      else \<exists>mk'. mk' OR matchRuleMark = mk OR matchRuleMark \<and> (full mk' \<longleftrightarrow> dec = Grant) \<and>
        X = (if full mk' then Some (Returned mk') else f mk')" and "\<not> full mk"
  obtains mk' where "mk' OR matchRuleMark = mk OR matchRuleMark" "\<not> full mk'" "X = after dec (Returned (mk OR matchRuleMark)) (f mk')"
proof (cases dec)
  case DropIt
  with assms show ?thesis by (intro that [of mk]) simp_all
next
  case Grant
  with assms(1) obtain mk' where "mk' OR matchRuleMark = mk OR matchRuleMark" "full mk'" "X = Some (Returned mk')" by auto
  with Grant assms(2) show ?thesis using full_or_eq [of mk'] by (intro that [of mk]) simp_all
next
  case Leave
  with assms(1) obtain mk' where "mk' OR matchRuleMark = mk OR matchRuleMark" "\<not> full mk'" "X = f mk'" by auto
  with Leave show ?thesis by (intro that [of mk']) simp_all
qed

lemma chain_policy:
  assumes m: "podMsgs be D entry podInfo (ipPolicy pol) (ipNetworks pol) = Some ms"
    and S: "holds (cTable entry) R ms" and new: "distinct (cName entry # newChains ms)"
    and e: "cName entry \<in> {ingressChain, egressChain}" and reg: "regularPolicy D (isIngressChain (cName entry)) podInfo pol"
    and mk: "\<not> full mk"
  obtains mk' where "mk' OR matchRuleMark = mk OR matchRuleMark" "\<not> full mk'"
    and "dp_chain K (Suc (Suc d)) R p (addedRules (cTable entry) (cName entry) ms @ markCheck be # rest) mk =
      after (appliedDecision K D (isIngressChain (cName entry)) podInfo p pol) (Returned (mk OR matchRuleMark))
        (dp_chain K (Suc (Suc d)) R p rest mk')"
proof -
  define ingress where "ingress = isIngressChain (cName entry)"
  define dec where "dec = appliedDecision K D ingress podInfo p pol"
  have dec: "dec = v \<longleftrightarrow> onInterface (packetInterface K ingress p) podInfo (ipNetworks pol) \<and>
      policyDecision D podInfo (ipNetworks pol) (packetProto K p) (packetPort K p) (packetAddr K ingress p)
        (policyRules ingress (ipPolicy pol)) = v" if "v \<noteq> Leave" for v
    using that by (simp add: dec_def appliedDecision_def)
  let ?t = "cTable entry" and ?e = "cName entry" and ?pc = "policyChain entry (ipPolicy pol)"
  let ?name = "policyChainName (cName entry) (ipPolicy pol)" and ?rules = "policyRules ingress (ipPolicy pol)"
  let ?dec = "policyDecision D podInfo (ipNetworks pol) (packetProto K p) (packetPort K p) (packetAddr K ingress p) ?rules"
  obtain iss mss where i: "map (interfaceMsgs entry ?pc (ipNetworks pol)) (piInterfaces podInfo) = map Some iss"
    and r: "map (policyRuleMsgs be D ?name ?pc podInfo (ipNetworks pol)) (enumerate 0 ?rules) = map Some mss"
    and ms: "ms = [MsgNewChain ?pc] @ concat iss @ concat mss"
    by (rule podMsgs_parts [OF m, unfolded directionRules_policyRules [OF e], folded ingress_def])
  have bi: "block ?t {?e} (concat iss)" by (rule block_interfaces [OF i])
  have br: "block ?t {cName ?pc} (concat mss)" using block_podRules [OF r] by simp
  have pc: "rsRules R (cName ?pc) = addedRules ?t (cName ?pc) (concat mss)"
    using S new block_other [OF bi, of "cName ?pc"] by (auto simp: ms holds_def)
  have H: "holds ?t R (concat mss)"
    by (rule holds_part [of _ _ "[MsgNewChain ?pc] @ concat iss" "concat mss" "[]"])
      (use S new bi in \<open>auto simp: ms block_def\<close>)
  have entry: "addedRules ?t ?e ms = addedRules ?t ?e (concat iss)"
    using new block_other [OF br, of ?e] by (auto simp: ms)
  have dir: "isIngressChain (peersName ?name j) = ingress" if "j < 0 + length ?rules" for j
    unfolding ingress_def by (rule isIngress_peersName [OF e]) (use that reg in \<open>simp add: regularPolicy_def ingress_def\<close>)
  have pol: "\<exists>mk'. mk' OR matchRuleMark = mk OR matchRuleMark \<and> (full mk' \<longrightarrow> full mk) \<and>
      dp_chain K (Suc d) R p (rsRules R (cName ?pc)) mk = after ?dec (Returned (mk OR matchRuleMark)) (Some (Returned mk'))" for mk
    using chain_rules [OF r _ _ _ dir, of R mk d p] H new reg pc
    by (auto simp: ms regularPolicy_def ingress_def)
  have "full mk \<Longrightarrow> ?dec = Grant" using mk by simp
  from chain_interfaces [where rest = "markCheck be # rest" and mk = mk, OF i pol this] mk
  have "if dec = DropIt
    then dp_chain K (Suc (Suc d)) R p (addedRules ?t ?e ms @ markCheck be # rest) mk = Some Dropped
    else \<exists>mk'. mk' OR matchRuleMark = mk OR matchRuleMark \<and> (full mk' \<longleftrightarrow> dec = Grant) \<and>
      dp_chain K (Suc (Suc d)) R p (addedRules ?t ?e ms @ markCheck be # rest) mk =
      (if full mk' then Some (Returned mk') else dp_chain K (Suc (Suc d)) R p rest mk')"
    unfolding Let_def chain_markCheck entry dec [OF decision.distinct(3)] dec [OF decision.distinct(5)] onInterface_def ingress_def by (simp only: simp_thms)
  then show thesis by (rule marks_settle [OF _ mk]) (rule that [unfolded ingress_def [symmetric], folded dec_def])
qed

lemma chain_policies:
  assumes "map (\<lambda>q. podMsgs be D entry podInfo (ipPolicy q) (ipNetworks q)) policies = map Some mss"
    and "holds (cTable entry) R (concat mss)" and "distinct (cName entry # newChains (concat mss))"
    and e: "cName entry \<in> {ingressChain, egressChain}"
    and "list_all (regularPolicy D (isIngressChain (cName entry)) podInfo) policies" and "\<not> full mk"
  shows "dp_chain K (Suc (Suc d)) R p (concat (map (\<lambda>ms. addedRules (cTable entry) (cName entry) ms @ [markCheck be]) mss) @
      [[counter0, verdict VerdictDrop]]) mk =
    (if directionDecision K D (isIngressChain (cName entry)) podInfo policies p = Grant
     then Some (Returned (mk OR matchRuleMark)) else Some Dropped)"
  using assms(1-3,5,6)
proof (induction policies arbitrary: mss mk)
  case Nil
  then show ?case by (simp add: directionDecision_def chain_drop [OF rule_drop])
next
  case (Cons pol policies)
  let ?t = "cTable entry" and ?e = "cName entry"
  from Cons.prems(1) obtain ms mss' where mss: "mss = ms # mss'"
    and ms: "podMsgs be D entry podInfo (ipPolicy pol) (ipNetworks pol) = Some ms"
    and rest: "map (\<lambda>q. podMsgs be D entry podInfo (ipPolicy q) (ipNetworks q)) policies = map Some mss'"
    by (cases mss) auto
  have b: "block ?t {?e} (concat mss')"
    by (rule block_concat) (use map_Some_ex [OF rest] block_podMsgs in blast)
  have H: "holds ?t R ([] @ ms @ concat mss')" "holds ?t R (ms @ concat mss' @ [])" using Cons.prems(2) by (simp_all add: mss)
  have H1: "holds ?t R ms" by (rule holds_part [OF H(1)]) (use Cons.prems(3) b in \<open>auto simp: mss\<close>)
  have H2: "holds ?t R (concat mss')"
    by (rule holds_part [OF H(2)]) (use Cons.prems(3) block_podMsgs [OF ms] in \<open>auto simp: mss\<close>)
  let ?rest = "concat (map (\<lambda>ms. addedRules ?t ?e ms @ [markCheck be]) mss') @ [[counter0, verdict VerdictDrop]]"
  let ?dec = "appliedDecision K D (isIngressChain ?e) podInfo p pol"
  have d1: "distinct (cName entry # newChains ms)" and d2: "distinct (cName entry # newChains (concat mss'))"
    and r1: "regularPolicy D (isIngressChain ?e) podInfo pol"
    and r2: "list_all (regularPolicy D (isIngressChain ?e) podInfo) policies"
    using Cons.prems(3,4) by (auto simp: mss)
  obtain mk1 where mk1: "mk1 OR matchRuleMark = mk OR matchRuleMark" "\<not> full mk1"
    and ev: "dp_chain K (Suc (Suc d)) R p (addedRules ?t ?e ms @ markCheck be # ?rest) mk =
      after ?dec (Returned (mk OR matchRuleMark)) (dp_chain K (Suc (Suc d)) R p ?rest mk1)"
    by (rule chain_policy [OF ms H1 d1 e r1 Cons.prems(5)])
  from ev Cons.IH [OF rest H2 d2 r2 mk1(2)] mk1(1) show ?case
    by (cases ?dec) (simp_all add: mss directionDecision_def)
qed

end

subsection \<open>The table that a direction fills\<close>

definition namesDistinct :: "string \<Rightarrow> nft_msg list \<Rightarrow> bool" where
  "namesDistinct e ms \<longleftrightarrow> distinct (e # newChains ms) \<and> distinct (map sName (newSets ms))"

lemma direction_evaluates:
  assumes K: "nft_datapath K be" and ms: "directionMsgs be D entry podInfo policies = Some ms" and "policies \<noteq> []"
    and e: "cName entry \<in> {ingressChain, egressChain}"
    and nd: "namesDistinct (cName entry) ms"
    and reg: "list_all (regularPolicy D (isIngressChain (cName entry)) podInfo) policies" and mk: "\<not> full mk"
  shows "dp_chain K (Suc (Suc d)) (rulesetOf (cTable entry) ms) p (rsRules (rulesetOf (cTable entry) ms) (cName entry)) mk =
     (if directionDecision K D (isIngressChain (cName entry)) podInfo policies p = Grant
      then Some (Returned (mk OR matchRuleMark)) else Some Dropped)"
proof -
  let ?t = "cTable entry" and ?e = "cName entry"
  have names: "distinct (?e # newChains ms)" "distinct (map sName (newSets ms))" using nd by (simp_all add: namesDistinct_def)
  obtain mss where m: "map (\<lambda>q. podMsgs be D entry podInfo (ipPolicy q) (ipNetworks q)) policies = map Some mss"
    and mseq: "ms = concat (map (\<lambda>ps. ps @ [ruleMsg ?t ?e (markCheck be)]) mss) @ [ruleMsg ?t ?e [counter0, verdict VerdictDrop]]"
    by (rule directionMsgs_parts [OF ms assms(3)])
  have b: "block ?t {?e} ms" by (rule block_directionMsgs [OF ms])
  have H: "holds ?t (rulesetOf ?t ms) ms" and R: "rsRules (rulesetOf ?t ms) ?e = addedRules ?t ?e ms"
    using holds_rulesetOf [OF b names] by simp_all
  have parts: "newChains ms = newChains (concat mss)" "filledSets ms = filledSets (concat mss)"
    "addedRules ?t ch ms = (if ch = ?e then concat (map (\<lambda>ps. addedRules ?t ?e ps @ [markCheck be]) mss) @ [[counter0, verdict VerdictDrop]]
       else addedRules ?t ch (concat mss))" for ch
  proof -
    have "newChains (concat (map (\<lambda>ps. ps @ [ruleMsg ?t ?e x]) mss)) = newChains (concat mss) \<and>
        filledSets (concat (map (\<lambda>ps. ps @ [ruleMsg ?t ?e x]) mss)) = filledSets (concat mss) \<and>
        addedRules ?t ch (concat (map (\<lambda>ps. ps @ [ruleMsg ?t ?e x]) mss)) =
          (if ch = ?e then concat (map (\<lambda>ps. addedRules ?t ?e ps @ [x]) mss) else addedRules ?t ch (concat mss))" for x
      by (induction mss) auto
    then show "newChains ms = newChains (concat mss)" "filledSets ms = filledSets (concat mss)"
      "addedRules ?t ch ms = (if ch = ?e then concat (map (\<lambda>ps. addedRules ?t ?e ps @ [markCheck be]) mss) @ [[counter0, verdict VerdictDrop]]
       else addedRules ?t ch (concat mss))"
      by (auto simp: mseq)
  qed
  have H': "holds ?t (rulesetOf ?t ms) (concat mss)"
    using H names(1) unfolding holds_def parts(1,2) by (auto simp: parts(3) parts(1) split: if_splits)
  have d: "distinct (?e # newChains (concat mss))" using names(1) by (simp add: parts(1))
  show ?thesis
    unfolding R parts(3) using nft_datapath.chain_policies [OF K m H' d e reg mk] by simp
qed

lemma applyDirection_evaluates:
  assumes "nft_datapath K (hostBE E)" and "fresh (kern E) (kst (nft n))"
    and "cTable (entry n) = nfilter n" and "cName (entry n) \<in> {ingressChain, egressChain}" and "policies \<noteq> []"
    and "applyDirection E D entry podInfo policies n = (Inr x, n')" and "namesDistinct (cName (entry n)) (sent n n')"
    and "list_all (regularPolicy D (isIngressChain (cName (entry n))) podInfo) policies" and "\<not> full mk"
  shows "let S = rulesetOf (nfilter n) (sent n n') in
    dp_chain K (Suc (Suc d)) S p (rsRules S (cName (entry n))) mk =
     (if directionDecision K D (isIngressChain (cName (entry n))) podInfo policies p = Grant
      then Some (Returned (mk OR matchRuleMark)) else Some Dropped)"
proof -
  obtain ms where ms: "directionMsgs (hostBE E) D (entry n) podInfo policies = Some ms" "extends ms n n'"
    using applyDirection_sends(1) [OF assms(2,3,6)] by blast
  from direction_evaluates [OF assms(1) ms(1) assms(5,4) _ assms(8,9)] assms(3,7) show ?thesis
    by (simp add: extends_sent [OF ms(2)] Let_def)
qed

lemma applyDirection_returns:
  assumes "fresh (kern E) (kst (nft n))" "cTable (entry n) = nfilter n"
    and ms: "directionMsgs (hostBE E) D (entry n) podInfo policies = Some ms" and room: "\<not> no_room n ms"
  obtains n' where "applyDirection E D entry podInfo policies n = (Inr (), n')" "sent n n' = ms"
proof -
  obtain r n' where run: "applyDirection E D entry podInfo policies n = (r, n')" by (cases "applyDirection E D entry podInfo policies n")
  show ?thesis
  proof (cases r)
    case (Inl e)
    from applyDirection_sends(2) [where entry = entry, OF assms(1,2) run [unfolded Inl]] ms room show ?thesis by simp
  next
    case (Inr x)
    from applyDirection_sends(1) [where entry = entry, OF assms(1,2) run [unfolded Inr]] ms have "extends ms n n'" by simp
    then show ?thesis using that [of n'] run Inr by (simp add: extends_sent)
  qed
qed

end
