(* ===== verification/Common.thy ===== *)
theory Common
  imports Enforce
begin

text \<open>
  The rules common to all policies (pkg/server/netfilterrules.go, applyCommonChainRules): what
  is sent to an empty namespace, and which packets the common chains accept before any policy
  is asked.
\<close>

unbundle bit_operations_syntax

subsection \<open>The messages\<close>

definition acceptRule :: "nft_expr list \<Rightarrow> nft_expr list" where
  "acceptRule es = es @ [counter0, verdict VerdictAccept]"

definition icmpMsgs :: "nft_table \<Rightarrow> nft_chain \<Rightarrow> bool \<Rightarrow> nft_msg list option" where
  "icmpMsgs t chain icmpv6 =
     Some [ruleMsg t (cName chain) (acceptRule [metaLoad MetaKeyL4PROTO, cmpEq (if icmpv6 then [IPPROTO_ICMPV6] else [IPPROTO_ICMP])])]"

definition ndpSet :: "nft_table \<Rightarrow> nft_set" where
  "ndpSet t = zero_set\<lparr>sTable := t, sName := ''ndp_set'', sKeyType := ''icmpv6_type'', sCounter := True\<rparr>"

definition ndpMsgs :: "nft_table \<Rightarrow> nft_chain \<Rightarrow> nft_msg list option" where
  "ndpMsgs t chain =
     both (Some (setMsgs (ndpSet t) ndpElements))
       (Some [insertMsg t (cName chain) (acceptRule [metaLoad MetaKeyNFPROTO, cmpEq [NFPROTO_IPV6],
          metaLoad MetaKeyL4PROTO, cmpEq [IPPROTO_ICMPV6], payloadLoad PayloadBaseTransportHeader 0 1, lookup0 (ndpSet t)])])"

definition commonSet :: "nft_table \<Rightarrow> nft_chain \<Rightarrow> bool \<Rightarrow> nft_set" where
  "commonSet t chain isV6 =
     zero_set\<lparr>sTable := t, sName := common @ ''_'' @ (if isV6 then protoIPv6 else protoIPv4) @ ''_'' @ getAddressSuffix (cName chain),
       sKeyType := (if isV6 then ''ipv6_addr'' else ''ipv4_addr''), sInterval := True\<rparr>"

definition commonFamilyMsgs :: "nft_table \<Rightarrow> nft_chain \<Rightarrow> bool \<Rightarrow> set_element list \<Rightarrow> nft_msg list option" where
  "commonFamilyMsgs t chain isV6 els =
     (if 0 < length els then
        both (Some (setMsgs (commonSet t chain isV6) els))
          (Some [ruleMsg t (cName chain) (acceptRule (addrMatch (cName chain) isV6 (commonSet t chain isV6)))])
      else Some [])"

definition commonPrefixMsgs :: "nft_table \<Rightarrow> nft_chain \<Rightarrow> string list \<Rightarrow> nft_msg list option" where
  "commonPrefixMsgs t chain prefixes =
     Option.bind (opt (getPrefixesAsSetInterval prefixes)) (\<lambda>(v4, v6).
       both (commonFamilyMsgs t chain False v4) (commonFamilyMsgs t chain True v6))"

definition ctMsgs :: "bool \<Rightarrow> nft_table \<Rightarrow> nft_chain \<Rightarrow> nft_msg list option" where
  "ctMsgs be t chain =
     Some [ruleMsg t (cName chain) (acceptRule [Ct 1 False CtKeySTATE 0 False,
       bitwise4 be (CtStateBitESTABLISHED OR CtStateBitRELATED) zeroRuleMark, Cmp CmpOpNeq 1 [0, 0, 0, 0]])]"

definition commonMsgs :: "bool \<Rightarrow> nft_table \<Rightarrow> CommonRuleConfig \<Rightarrow> nft_chain \<Rightarrow> nft_chain \<Rightarrow> nft_msg list option" where
  "commonMsgs be t cfg cin ceg =
     both (if AcceptICMPv6 cfg then both (icmpMsgs t cin True) (icmpMsgs t ceg True)
           else both (ndpMsgs t cin) (ndpMsgs t ceg))
    (both (if AcceptICMP cfg then both (icmpMsgs t cin False) (icmpMsgs t ceg False) else Some [])
    (both (if length (AllowSrcPrefix cfg) \<noteq> 0 then commonPrefixMsgs t cin (AllowSrcPrefix cfg) else Some [])
    (both (if length (AllowDstPrefix cfg) \<noteq> 0 then commonPrefixMsgs t ceg (AllowDstPrefix cfg) else Some [])
    (both (ctMsgs be t cin) (ctMsgs be t ceg)))))"

lemma listed_accept [simp]:
  "map listed_expr (acceptRule es) = acceptRule (map listed_expr es)"
  "listed_expr (Ct r s k d b) = Ct r s k d b" "listed_expr (Cmp op r dt) = Cmp op r dt"
  by (simp_all add: acceptRule_def)

lemma renders_allowICMP:
  "renders E ft (allowICMP E chain icmpv6) (icmpMsgs ft chain icmpv6) (\<lambda>_. True)"
  unfolding allowICMP_def icmpMsgs_def Let_def
  by (intro renders_filter renders_then_ret renders_rule') (simp add: acceptRule_def)

lemma renders_insert':
  "es' = map listed_expr es \<Longrightarrow>
   renders E ft (updateRule E (mkRule t ch c es) InsertRule force) (Some [insertMsg t ch es']) (\<lambda>_. True)"
  by (simp add: renders_insert)

lemma renders_allowNeighborDiscovery:
  "renders E ft (allowNeighborDiscovery E chain) (ndpMsgs ft chain) (\<lambda>_. True)"
  unfolding allowNeighborDiscovery_def ndpMsgs_def ndpSet_def
  by (intro renders_filter renders_wrapped_set_rule renders_then_ret renders_wrapped renders_insert')
    (simp_all add: ndpElements_def acceptRule_def listed_lookup)

lemma renders_commonPrefixRule:
  assumes "\<not> sAnonymous s" "sID s = 0" "els \<noteq> []"
  shows "renders E ft (commonPrefixRule E chain s els proto off len)
     (both (Some (setMsgs s els)) (Some [ruleMsg ft (cName chain)
        (acceptRule [metaLoad MetaKeyNFPROTO, cmpEq [proto], payloadLoad PayloadBaseNetworkHeader off len, lookup0 s])])) (\<lambda>_. True)"
  unfolding commonPrefixRule_def
  by (intro renders_wrapped_set_rule [OF assms] renders_filter renders_then_ret renders_rule')
    (simp add: acceptRule_def listed_lookup)

lemma renders_applyCommonPrefixRules:
  "renders E ft (applyCommonPrefixRules E chain prefixes common) (commonPrefixMsgs ft chain prefixes) (\<lambda>_. True)"
  unfolding applyCommonPrefixRules_def commonPrefixMsgs_def Let_def
proof (rule renders_filter, rule renders_wrapped_lift, goal_cases)
  case (1 v)
  obtain v4 v6 where v: "v = (v4, v6)" by (cases v)
  have off: "addrOffset (cName chain) False = (if isIngressChain (cName chain) then IPv4OffSet else IPv4OffSet + IPv4len)"
    "addrOffset (cName chain) True = (if isIngressChain (cName chain) then IPv6OffSet else IPv6OffSet + IPv6len)"
    by (simp_all add: addrOffset_def)
  show ?case
    unfolding v prod.case commonFamilyMsgs_def commonSet_def addrMatch_def off
    by (rule renders_seq [where R = "\<lambda>_. True"])
      (auto simp del: both_simps intro!: renders_ret renders_commonPrefixRule)
qed

lemma renders_allowConntracked:
  "renders E ft (allowConntracked E c) (ctMsgs (hostBE E) ft c) (\<lambda>_. True)"
  unfolding allowConntracked_def ctMsgs_def
  by (intro renders_filter renders_then_ret renders_rule') (simp add: acceptRule_def)

lemma renders_commonRules:
  "renders E ft (commonRules E cfg cin ceg) (commonMsgs (hostBE E) ft cfg cin ceg) (\<lambda>_. True)"
proof -
  have icmp: "renders E ft (seq (wrapped t (allowICMP E c b)) (\<lambda>_. wrapped t' (allowICMP E c' b)))
      (both (icmpMsgs ft c b) (icmpMsgs ft c' b)) (\<lambda>_. True)" for t t' c c' b
    by (rule renders_seq [OF renders_wrapped [OF renders_allowICMP] renders_wrapped [OF renders_allowICMP]])
  have ndp: "renders E ft (seq (wrapped t (allowNeighborDiscovery E c)) (\<lambda>_. wrapped t' (allowNeighborDiscovery E c')))
      (both (ndpMsgs ft c) (ndpMsgs ft c')) (\<lambda>_. True)" for t t' c c'
    by (rule renders_seq [OF renders_wrapped [OF renders_allowNeighborDiscovery] renders_wrapped [OF renders_allowNeighborDiscovery]])
  have if_ret: "renders E ft (if b then m else ret ()) (if b then r else Some []) (\<lambda>_. True)"
    if "renders E ft m r (\<lambda>_. True)" for b m r using that by (simp add: renders_ret)
  have if_else: "renders E ft (if b then m else m') (if b then r else r') (\<lambda>_. True)"
    if "renders E ft m r (\<lambda>_. True)" "renders E ft m' r' (\<lambda>_. True)" for b and m m' :: "('a, unit) stm" and r r' using that by simp
  show ?thesis
    unfolding commonRules_def commonMsgs_def
    by (intro renders_seq [where R = "\<lambda>_. True"] if_ret if_else icmp ndp renders_wrapped
        renders_applyCommonPrefixRules renders_allowConntracked)
qed

lemma applyCommonChainRules_sends:
  assumes "fresh (kern E) (kst (nft n))"
  shows "applyCommonChainRules E cfg n = (Inr x, n') \<Longrightarrow>
      \<exists>ms. commonMsgs (hostBE E) (nfilter n) cfg (commonIngress_ch n) (commonEgress_ch n) = Some ms \<and> extends ms n n'"
    and "applyCommonChainRules E cfg n = (Inl e, n') \<Longrightarrow>
      commonMsgs (hostBE E) (nfilter n) cfg (commonIngress_ch n) (commonEgress_ch n) = None \<or>
      (\<exists>ms. commonMsgs (hostBE E) (nfilter n) cfg (commonIngress_ch n) (commonEgress_ch n) = Some ms \<and> no_room n ms)"
proof -
  have "applyCommonChainRules E cfg n = commonRules E cfg (commonIngress_ch n) (commonEgress_ch n) n"
    by (simp add: applyCommonChainRules_def seq_def gets_def)
  then show "applyCommonChainRules E cfg n = (Inr x, n') \<Longrightarrow>
      \<exists>ms. commonMsgs (hostBE E) (nfilter n) cfg (commonIngress_ch n) (commonEgress_ch n) = Some ms \<and> extends ms n n'"
    and "applyCommonChainRules E cfg n = (Inl e, n') \<Longrightarrow>
      commonMsgs (hostBE E) (nfilter n) cfg (commonIngress_ch n) (commonEgress_ch n) = None \<or>
      (\<exists>ms. commonMsgs (hostBE E) (nfilter n) cfg (commonIngress_ch n) (commonEgress_ch n) = Some ms \<and> no_room n ms)"
    using rendersD [OF renders_commonRules assms refl] by simp_all
qed

subsection \<open>What the common chains accept\<close>

text \<open>
  Neighbor discovery or all of ICMPv6, ICMP when it is enabled, the configured source (or
  destination) prefixes, and packets of established or related connections.
\<close>

definition commonAllows :: "'p datapath \<Rightarrow> CommonRuleConfig \<Rightarrow> bool \<Rightarrow> 'p \<Rightarrow> bool" where
  "commonAllows K cfg ingress p \<longleftrightarrow>
     packetProto K p = [IPPROTO_ICMPV6] \<and>
       (AcceptICMPv6 cfg \<or>
        take 1 (dp_meta K p MetaKeyNFPROTO) = [NFPROTO_IPV6] \<and>
        dp_payload K p PayloadBaseTransportHeader 0 1 \<in> Some ` {[133], [134], [135], [136]}) \<or>
     packetProto K p = [IPPROTO_ICMP] \<and> AcceptICMP cfg \<or>
     (case packetAddr K ingress p of None \<Rightarrow> False
      | Some bs \<Rightarrow> list_ex (\<lambda>s. prefixHit s (addrOf bs)) (if ingress then AllowSrcPrefix cfg else AllowDstPrefix cfg)) \<or>
     dp_ct K p AND (CtStateBitESTABLISHED OR CtStateBitRELATED) \<noteq> 0"

lemma insertMsg_simps [simp]:
  "newChains (insertMsg t ch es # ms) = newChains ms" "addedRules t' ch' (insertMsg t ch es # ms) = addedRules t' ch' ms"
  "insertedRules t' ch' (insertMsg t ch es # ms) = insertedRules t' ch' ms @ (if t = t' \<and> ch = ch' then [es] else [])"
  "insertedRules t' ch' (ruleMsg t ch es # ms) = insertedRules t' ch' ms"
  "setElements t' name (insertMsg t ch es # ms) = setElements t' name ms"
  "setElements t' name (ruleMsg t ch es # ms) = setElements t' name ms"
  "intervalSet t' name (insertMsg t ch es # ms) = intervalSet t' name ms"
  "intervalSet t' name (ruleMsg t ch es # ms) = intervalSet t' name ms"
  by (simp_all add: insertMsg_def ruleMsg_def)

lemma insertedRules_append [simp]: "insertedRules t ch (ms @ ms') = insertedRules t ch ms' @ insertedRules t ch ms"
  by (induction t ch ms rule: insertedRules.induct) simp_all

lemma setElements_append [simp]: "setElements t name (ms @ ms') = setElements t name ms @ setElements t name ms'"
  by (induction t name ms rule: setElements.induct) simp_all

lemma intervalSet_append [simp]: "intervalSet t name (ms @ ms') \<longleftrightarrow> intervalSet t name ms \<or> intervalSet t name ms'"
  by (induction t name ms rule: intervalSet.induct) simp_all

lemma ruleset_setMsgs [simp]:
  "insertedRules t ch (setMsgs s els) = []"
  "setElements t name (setMsgs s els) = (if sTable s = t \<and> shortName (sName s) = name then els else [])"
  "intervalSet t name (setMsgs s els) \<longleftrightarrow> sTable s = t \<and> shortName (sName s) = name \<and> sInterval s"
  by (simp_all add: setMsgs_def shortSet_def)

lemma common_sets [simp]:
  "sTable (ndpSet t) = t" "sName (ndpSet t) = ''ndp_set''" "\<not> sInterval (ndpSet t)"
  "sTable (commonSet t c v) = t" "sInterval (commonSet t c v)"
  by (simp_all add: ndpSet_def commonSet_def zero_set_def)

text \<open>The part of the messages that concerns one address family and direction.\<close>

definition familyRules :: "nft_table \<Rightarrow> nft_chain \<Rightarrow> bool \<Rightarrow> set_element list \<Rightarrow> nft_expr list list" where
  "familyRules t c isV6 els = (if els = [] then [] else [acceptRule (addrMatch (cName c) isV6 (commonSet t c isV6))])"

lemma family_facts:
  assumes "commonFamilyMsgs t c isV6 els = Some ms"
  shows "insertedRules t ch ms = []" "addedRules t ch ms = (if ch = cName c then familyRules t c isV6 els else [])"
    "setElements t name ms = (if shortName (sName (commonSet t c isV6)) = name then els else [])"
    "intervalSet t name ms \<longleftrightarrow> els \<noteq> [] \<and> shortName (sName (commonSet t c isV6)) = name"
  using assms by (auto simp: commonFamilyMsgs_def familyRules_def split: if_splits)

lemma commonPrefixMsgs_Nil: "(if length ps \<noteq> 0 then commonPrefixMsgs t c ps else Some []) = commonPrefixMsgs t c ps"
  by (simp add: commonPrefixMsgs_def getPrefixesAsSetInterval_def commonFamilyMsgs_def)

lemma commonPrefix_parts:
  assumes "commonPrefixMsgs t c ps = Some ms"
  obtains v4 v6 a b where "getPrefixesAsSetInterval ps = Inr (v4, v6)" "ms = a @ b"
    "commonFamilyMsgs t c False v4 = Some a" "commonFamilyMsgs t c True v6 = Some b"
  using assms by (auto simp: commonPrefixMsgs_def Option.bind_eq_Some_conv both_eq_Some opt_def split: sum.splits prod.splits)

definition icmpRule :: "byte \<Rightarrow> nft_expr list" where
  "icmpRule proto = acceptRule [metaLoad MetaKeyL4PROTO, cmpEq [proto]]"

definition ndpRule :: "nft_table \<Rightarrow> nft_expr list" where
  "ndpRule t = acceptRule [metaLoad MetaKeyNFPROTO, cmpEq [NFPROTO_IPV6],
     metaLoad MetaKeyL4PROTO, cmpEq [IPPROTO_ICMPV6], payloadLoad PayloadBaseTransportHeader 0 1, lookup0 (ndpSet t)]"

definition ctRule :: "bool \<Rightarrow> nft_expr list" where
  "ctRule be = acceptRule [Ct 1 False CtKeySTATE 0 False,
     bitwise4 be (CtStateBitESTABLISHED OR CtStateBitRELATED) zeroRuleMark, Cmp CmpOpNeq 1 [0, 0, 0, 0]]"

lemma common_ruleset:
  assumes m: "commonMsgs be t cfg cin ceg = Some ms"
    and names: "cName cin = ingressChain @ ''-'' @ common" "cName ceg = egressChain @ ''-'' @ common"
    and c: "c = (if ingress then cin else ceg)" and ps: "ps = (if ingress then AllowSrcPrefix cfg else AllowDstPrefix cfg)"
  obtains v4 v6 where "getPrefixesAsSetInterval ps = Inr (v4, v6)"
    and "rsRules (rulesetOf t ms) (cName c) =
      (if AcceptICMPv6 cfg then [icmpRule IPPROTO_ICMPV6] else [ndpRule t]) @
      (if AcceptICMP cfg then [icmpRule IPPROTO_ICMP] else []) @
      familyRules t c False v4 @ familyRules t c True v6 @ [ctRule be]"
    and "v4 \<noteq> [] \<longrightarrow> rsMember (rulesetOf t ms) (shortName (sName (commonSet t c False))) = setMatch True v4"
    and "v6 \<noteq> [] \<longrightarrow> rsMember (rulesetOf t ms) (shortName (sName (commonSet t c True))) = setMatch True v6"
    and "\<not> AcceptICMPv6 cfg \<longrightarrow> rsMember (rulesetOf t ms) ''ndp_set'' = setMatch False (ndpElements @ ndpElements)"
proof -
  have n: "cName cin = ''multi-ingress-common''" "cName ceg = ''multi-egress-common''"
    using names by (simp_all add: ingressChain_def egressChain_def common_def)
  have sets: "sName (commonSet t cin v) = (if v then ''common_ipv6_saddrs'' else ''common_ipv4_saddrs'')"
    "sName (commonSet t ceg v) = (if v then ''common_ipv6_daddrs'' else ''common_ipv4_daddrs'')" for v
    by (simp_all add: commonSet_def n common_def protoIPv4_def protoIPv6_def getAddressSuffix_def isIngressChain_def
        HasPrefix_def ingressChain_def sourceAddressSuffix_def destinationAddressSuffix_def)
  define a where "a = (if AcceptICMPv6 cfg then [ruleMsg t (cName cin) (icmpRule IPPROTO_ICMPV6), ruleMsg t (cName ceg) (icmpRule IPPROTO_ICMPV6)]
      else setMsgs (ndpSet t) ndpElements @ [insertMsg t (cName cin) (ndpRule t)] @
           setMsgs (ndpSet t) ndpElements @ [insertMsg t (cName ceg) (ndpRule t)])"
  define b where "b = (if AcceptICMP cfg then [ruleMsg t (cName cin) (icmpRule IPPROTO_ICMP), ruleMsg t (cName ceg) (icmpRule IPPROTO_ICMP)] else [])"
  obtain x y where x: "commonPrefixMsgs t cin (AllowSrcPrefix cfg) = Some x" and y: "commonPrefixMsgs t ceg (AllowDstPrefix cfg) = Some y"
    and ms: "ms = a @ b @ x @ y @ [ruleMsg t (cName cin) (ctRule be), ruleMsg t (cName ceg) (ctRule be)]"
    using m unfolding commonMsgs_def commonPrefixMsgs_Nil
    by (auto simp: both_eq_Some icmpMsgs_def ndpMsgs_def ctMsgs_def a_def b_def icmpRule_def ndpRule_def ctRule_def
        simp del: both_simps split: if_splits)
  obtain v4 v6 x4 x6 where v: "getPrefixesAsSetInterval (AllowSrcPrefix cfg) = Inr (v4, v6)" "x = x4 @ x6"
    "commonFamilyMsgs t cin False v4 = Some x4" "commonFamilyMsgs t cin True v6 = Some x6"
    by (rule commonPrefix_parts [OF x])
  obtain w4 w6 y4 y6 where w: "getPrefixesAsSetInterval (AllowDstPrefix cfg) = Inr (w4, w6)" "y = y4 @ y6"
    "commonFamilyMsgs t ceg False w4 = Some y4" "commonFamilyMsgs t ceg True w6 = Some y6"
    by (rule commonPrefix_parts [OF y])
  note facts = family_facts [OF v(3)] family_facts [OF v(4)] family_facts [OF w(3)] family_facts [OF w(4)]
  show thesis
  proof (cases ingress)
    case True
    show thesis
      by (rule that [of v4 v6]) (use True in \<open>simp_all add: c ps v ms w(2) a_def b_def rulesetOf_def facts n sets\<close>)
  next
    case False
    show thesis
      by (rule that [of w4 w6]) (use False in \<open>simp_all add: c ps w ms v(2) a_def b_def rulesetOf_def facts n sets\<close>)
  qed
qed

context nft_datapath
begin

lemma chain_accept_if:
  assumes "dp_rule K (rsMember R) p r (\<lambda>_. []) mk = (if h then Stop VerdictAccept [] mk else Break mk)"
  shows "dp_chain K d R p (r # rest) mk = (if h then Some Accepted else dp_chain K d R p rest mk)"
  using assms chain_accept [of R p r mk "[]" mk d rest] chain_break [of R p r mk mk d rest] by (cases h) simp_all

lemma rule_accept: "dp_rule K S p [counter0, verdict VerdictAccept] reg mk = Stop VerdictAccept [] mk"
  by (simp add: expr_defs expr_laws)

lemma rule_icmp:
  "dp_rule K S p (icmpRule proto) reg mk = (if packetProto K p = [proto] then Stop VerdictAccept [] mk else Break mk)"
  by (simp add: icmpRule_def acceptRule_def expr_defs expr_laws packetProto_def)

lemma rule_ndp:
  "dp_rule K S p (ndpRule t) reg mk =
     (if take 1 (dp_meta K p MetaKeyNFPROTO) = [NFPROTO_IPV6] \<and> packetProto K p = [IPPROTO_ICMPV6] \<and>
         (\<exists>bs. dp_payload K p PayloadBaseTransportHeader 0 1 = Some bs \<and> S ''ndp_set'' bs)
      then Stop VerdictAccept [] mk else Break mk)"
  by (simp add: ndpRule_def acceptRule_def expr_defs expr_laws packetProto_def lookup0_def split: option.split)

lemma rule_ct:
  "dp_rule K S p (ctRule be) reg mk =
     (if dp_ct K p AND (CtStateBitESTABLISHED OR CtStateBitRELATED) \<noteq> 0 then Stop VerdictAccept [] mk else Break mk)"
proof -
  have "[0, 0, 0, 0] = NativeEndian_PutUint32 be 0"
    by (simp add: NativeEndian_PutUint32_def BigEndian_PutUint32_def)
  then show ?thesis
    by (simp add: ctRule_def acceptRule_def expr_defs expr_laws zeroRuleMark_def
        bitwiseBytes_PutUint32 [where x = 0, simplified])
qed

lemma chain_family:
  assumes "els \<noteq> [] \<longrightarrow> rsMember R (shortName (sName (commonSet t c isV6))) = setMatch True els"
  shows "dp_chain K d R p (familyRules t c isV6 els @ rest) mk =
     (if addrHit K (isIngressChain (cName c)) isV6 p (setMatch True els) then Some Accepted else dp_chain K d R p rest mk)"
proof (cases "els = []")
  case True
  then show ?thesis by (simp add: familyRules_def addrHit_def setMatch_def interval_match_def)
next
  case False
  have "dp_rule K (rsMember R) p (acceptRule (addrMatch (cName c) isV6 (commonSet t c isV6))) (\<lambda>_. []) mk =
      (if addrHit K (isIngressChain (cName c)) isV6 p (setMatch True els) then Stop VerdictAccept [] mk else Break mk)"
    unfolding acceptRule_def rule_addr [OF rule_accept] using assms False by simp
  from chain_accept_if [OF this] False show ?thesis by (simp add: familyRules_def)
qed

lemma common_addr:
  assumes v: "getPrefixesAsSetInterval ps = Inr (v4, v6)" and dis: "disjointPrefixes ps"
  shows "addrHit K ingress False p (setMatch True v4) \<or> addrHit K ingress True p (setMatch True v6) \<longleftrightarrow>
     (case packetAddr K ingress p of None \<Rightarrow> False | Some bs \<Rightarrow> list_ex (\<lambda>s. prefixHit s (addrOf bs)) ps)"
proof (cases "packetAddr K ingress p")
  case (Some bs)
  then show ?thesis
    using packetAddr_length [OF Some] prefixes_hit [OF v dis, of bs] by (auto simp: addrHit_def)
qed (simp add: addrHit_def)

lemma ndp_types:
  "(\<exists>bs. pl = Some bs \<and> setMatch False (ndpElements @ ndpElements) bs) \<longleftrightarrow> pl \<in> Some ` {[133], [134], [135], [136]}"
  by (cases pl) (auto simp: setMatch_def ndpElements_def elem_def)

lemma chain_icmpv6:
  assumes ndp: "\<not> AcceptICMPv6 cfg \<longrightarrow> rsMember R ''ndp_set'' = setMatch False (ndpElements @ ndpElements)"
  shows "dp_chain K d R p ((if AcceptICMPv6 cfg then [icmpRule IPPROTO_ICMPV6] else [ndpRule t]) @ rest) mk =
     (if packetProto K p = [IPPROTO_ICMPV6] \<and> (AcceptICMPv6 cfg \<or>
          take 1 (dp_meta K p MetaKeyNFPROTO) = [NFPROTO_IPV6] \<and>
          dp_payload K p PayloadBaseTransportHeader 0 1 \<in> Some ` {[133], [134], [135], [136]})
      then Some Accepted else dp_chain K d R p rest mk)"
proof (cases "AcceptICMPv6 cfg")
  case True
  then show ?thesis using chain_accept_if [OF rule_icmp] by simp
next
  case False
  from chain_accept_if [OF rule_ndp [where S = "rsMember R"]] False show ?thesis
    unfolding ndp [rule_format, OF False] ndp_types by (simp add: conj_commute conj_left_commute)
qed

lemma chain_common:
  assumes m: "commonMsgs be t cfg cin ceg = Some ms"
    and names: "cName cin = ingressChain @ ''-'' @ common" "cName ceg = egressChain @ ''-'' @ common"
    and dis: "disjointPrefixes (if ingress then AllowSrcPrefix cfg else AllowDstPrefix cfg)"
  shows "dp_chain K d (rulesetOf t ms) p (rsRules (rulesetOf t ms) (cName (if ingress then cin else ceg))) mk =
     (if commonAllows K cfg ingress p then Some Accepted else Some (Returned mk))"
proof -
  let ?c = "if ingress then cin else ceg" and ?ps = "if ingress then AllowSrcPrefix cfg else AllowDstPrefix cfg"
  let ?R = "rulesetOf t ms"
  obtain v4 v6 where v: "getPrefixesAsSetInterval ?ps = Inr (v4, v6)"
    and rs: "rsRules ?R (cName ?c) =
      (if AcceptICMPv6 cfg then [icmpRule IPPROTO_ICMPV6] else [ndpRule t]) @
      (if AcceptICMP cfg then [icmpRule IPPROTO_ICMP] else []) @
      familyRules t ?c False v4 @ familyRules t ?c True v6 @ [ctRule be]"
    and m4: "v4 \<noteq> [] \<longrightarrow> rsMember ?R (shortName (sName (commonSet t ?c False))) = setMatch True v4"
    and m6: "v6 \<noteq> [] \<longrightarrow> rsMember ?R (shortName (sName (commonSet t ?c True))) = setMatch True v6"
    and ndp: "\<not> AcceptICMPv6 cfg \<longrightarrow> rsMember ?R ''ndp_set'' = setMatch False (ndpElements @ ndpElements)"
    by (rule common_ruleset [where ingress = ingress, OF m names refl refl])
  have dir: "isIngressChain (cName ?c) = ingress"
    by (simp add: names isIngressChain_def HasPrefix_def ingressChain_def egressChain_def)
  have second: "dp_chain K d ?R p ((if AcceptICMP cfg then [icmpRule IPPROTO_ICMP] else []) @ rest) mk =
      (if packetProto K p = [IPPROTO_ICMP] \<and> AcceptICMP cfg then Some Accepted else dp_chain K d ?R p rest mk)" for rest
    using chain_accept_if [OF rule_icmp] by simp
  have last: "dp_chain K d ?R p [ctRule be] mk =
      (if dp_ct K p AND (CtStateBitESTABLISHED OR CtStateBitRELATED) \<noteq> 0 then Some Accepted else Some (Returned mk))"
    using chain_accept_if [OF rule_ct] by (simp add: chain_end)
  show ?thesis
    unfolding rs chain_icmpv6 [OF ndp] second chain_family [OF m4] chain_family [OF m6] last dir commonAllows_def common_addr [OF v dis, symmetric]
    by auto
qed

end

lemma applyCommonChainRules_returns:
  assumes "fresh (kern E) (kst (nft n))"
    and ms: "commonMsgs (hostBE E) (nfilter n) cfg (commonIngress_ch n) (commonEgress_ch n) = Some ms" and room: "\<not> no_room n ms"
  obtains n' where "applyCommonChainRules E cfg n = (Inr (), n')" "sent n n' = ms"
proof -
  obtain r n' where run: "applyCommonChainRules E cfg n = (r, n')" by (cases "applyCommonChainRules E cfg n")
  show ?thesis
  proof (cases r)
    case (Inl e)
    from applyCommonChainRules_sends(2) [OF assms(1) run [unfolded Inl]] ms room show ?thesis by simp
  next
    case (Inr x)
    from applyCommonChainRules_sends(1) [OF assms(1) run [unfolded Inr]] ms have "extends ms n n'" by simp
    then show ?thesis using that [of n'] run Inr by (simp add: extends_sent)
  qed
qed

text \<open>
  C3. When applyCommonChainRules has run for an empty namespace, the common ingress (egress)
  chain accepts exactly the packets the configuration allows: neighbor discovery or all of
  ICMPv6, ICMP when enabled, packets from the configured source (to the configured
  destination) prefixes, and packets of established or related connections. Every other packet
  returns, with its mark unchanged, to the policies.
\<close>

theorem applyCommonChainRules_accepts:
  assumes "nft_datapath K (hostBE E)" and "fresh (kern E) (kst (nft n))"
    and "cName (commonIngress_ch n) = ingressChain @ ''-'' @ common" and "cName (commonEgress_ch n) = egressChain @ ''-'' @ common"
    and "applyCommonChainRules E cfg n = (Inr x, n')"
    and "disjointPrefixes (if ingress then AllowSrcPrefix cfg else AllowDstPrefix cfg)"
  shows "let S = rulesetOf (nfilter n) (sent n n') in
    dp_chain K d S p (rsRules S (cName (if ingress then commonIngress_ch n else commonEgress_ch n))) mk =
     (if commonAllows K cfg ingress p then Some Accepted else Some (Returned mk))"
proof -
  obtain ms where ms: "commonMsgs (hostBE E) (nfilter n) cfg (commonIngress_ch n) (commonEgress_ch n) = Some ms" "extends ms n n'"
    using applyCommonChainRules_sends(1) [OF assms(2,5)] by blast
  from nft_datapath.chain_common [OF assms(1) ms(1) assms(3,4,6)] show ?thesis
    by (simp add: extends_sent [OF ms(2)] Let_def)
qed

definition lan_config :: CommonRuleConfig where
  "lan_config = \<lparr>AcceptICMPv6 = False, AcceptICMP = False, AllowSrcPrefix = [''10.0.0.0/8''], AllowDstPrefix = []\<rparr>"

definition lan_state :: "mem nftState" where
  "lan_state = (new_nftState (new_conn mem_empty) filterTable natTable)
     \<lparr>commonIngress_ch := plainChain (ingressChain @ ''-'' @ common) filterTable,
      commonEgress_ch := plainChain (egressChain @ ''-'' @ common) filterTable\<rparr>"

definition lan_packet :: packet where
  "lan_packet = \<lparr>iifname = ''e1'', oifname = ''e1'', nfproto = 2, l4proto = 6, ctState = 8,
     networkHeader = replicate 12 0 @ [10, 1, 2, 3] @ [10, 0, 0, 1], transportHeader = [4, 0, 0, 80]\<rparr>"

lemma lan_sends:
  "case commonMsgs False filterTable lan_config (plainChain (ingressChain @ ''-'' @ common) filterTable)
      (plainChain (egressChain @ ''-'' @ common) filterTable) of Some ms \<Rightarrow> length ms < 100 | None \<Rightarrow> False"
  by code_simp

lemma lan_run:
  obtains n' where "applyCommonChainRules memE lan_config lan_state = (Inr (), n')"
proof -
  obtain ms where ms: "commonMsgs False filterTable lan_config (plainChain (ingressChain @ ''-'' @ common) filterTable)
      (plainChain (egressChain @ ''-'' @ common) filterTable) = Some ms" "length ms < 100"
    using lan_sends by (auto split: option.splits)
  have "fresh (kern memE) (kst (nft lan_state))" "\<not> no_room lan_state ms"
    using ms(2) by (simp_all add: lan_state_def fresh_def memE_def memK_def new_nftState_def new_conn_def mem_empty_def found_def no_room_def)
  from applyCommonChainRules_returns [OF this(1) _ this(2), of lan_config] ms(1) that show ?thesis
    by (auto simp: lan_state_def memE_def new_nftState_def)
qed

theorem applyCommonChainRules_accepts_witness:
  "\<exists>n'. applyCommonChainRules memE lan_config lan_state = (Inr (), n') \<and>
     (let S = rulesetOf filterTable (sent lan_state n') in
      refChain False 0 S lan_packet (rsRules S (ingressChain @ ''-'' @ common)) 0 = Some Accepted \<and>
      refChain False 0 S lan_packet (rsRules S (egressChain @ ''-'' @ common)) 0 = Some (Returned 0))"
proof -
  obtain n' where n': "applyCommonChainRules memE lan_config lan_state = (Inr (), n')" by (rule lan_run)
  have st: "fresh (kern memE) (kst (nft lan_state))" "nfilter lan_state = filterTable"
    "cName (commonIngress_ch lan_state) = ingressChain @ ''-'' @ common" "cName (commonEgress_ch lan_state) = egressChain @ ''-'' @ common"
    by (simp_all add: lan_state_def fresh_def memE_def memK_def new_nftState_def new_conn_def mem_empty_def found_def plainChain_def)
  have "commonAllows (refPath False) lan_config True lan_packet" "\<not> commonAllows (refPath False) lan_config False lan_packet"
    by code_simp+
  moreover have "disjointPrefixes (AllowSrcPrefix lan_config)" "disjointPrefixes (AllowDstPrefix lan_config)"
    by (simp_all add: lan_config_def disjointPrefixes_def)
  moreover have "nft_datapath (refPath False) (hostBE memE)" by (simp add: memE_def refPath.nft_datapath_axioms)
  ultimately show ?thesis
    using n' applyCommonChainRules_accepts [of "refPath False" memE lan_state lan_config "()" n' True 0 lan_packet 0]
      applyCommonChainRules_accepts [of "refPath False" memE lan_state lan_config "()" n' False 0 lan_packet 0]
    by (simp add: st Let_def)
qed

end
