(* ===== verification/Spec2Isabelle.thy ===== *)
theory Spec2Isabelle
  imports Daemon Stale Selection Common
begin

text \<open>
  A verification of the multi-networkpolicy-nftables daemon, which enforces Kubernetes
  MultiNetworkPolicy objects on the secondary networks of pods. On every node the daemon
  watches pods, policies, network definitions and namespaces; for each pod of the node it
  renders the policies that select the pod into nftables rules inside the pod's network
  namespace, deletes what an earlier run left behind, and removes everything at shutdown.

  \<^bold>\<open>Modelling.\<close> A Go method that mutates its receiver and may return an error is a function
  from a state to a result and a new state (theory Prelude); the state reached is kept on
  the error path as well, as in Go, so a message that was buffered before an error stays
  buffered. Loops over slices are the recursions for_each and for_acc of Prelude. Go maps are
  functions to option, or association lists where the iteration order matters; the order itself
  is then a parameter. Bytes, marks and netlink constants are words of their width. The kernel
  is a parameter: the record kernel of theory Nft has its list and get requests and the commit
  of a batch. What is assumed of it is stated in locales and always discharged for an
  executable in-memory kernel (theory Kernel). The other parameters are the container runtime,
  the API server, the JSON decoder, label syntax, gob type numbers, byte order of the host, and
  the order in which Go visits a map.

  \<^bold>\<open>Theories and sources\<close> (file names below src/).
  \<^item> Prelude, GoLib: computations, their invariant rules, and the parts of Go's standard library
    the results depend on (UTF-8, number formats, the FNV-1a hash, the gob wire format).
  \<^item> Nft, Kernel: the vendored google/nftables connection and the kernel interface. Locales
    \<open>netlink_reads\<close> (reads return what was asked for) and \<open>guarded_batches\<close> (batches of allowed
    messages keep an invariant).
  \<^item> Names, NftState, SetChain, Guards: pkg/server/netfilterrules.go and encoder.go, the primitive
    updates updateRule, updateSet, addChain and the naming of objects. Updates are idempotent,
    forced updates keep counters, set differences are exact and minimal (locale \<open>keyed_diff\<close>),
    names are valid and bounded.
  \<^item> Addr, Elements: net/netip, net and netipx as far as used; convertPrefixToSet,
    getPrefixesAsSetInterval, validatePortSpec. The interval elements contain exactly the
    addresses and ports asked for.
  \<^item> Objects, Policy, Bootstrap, Cleanup, Legacy, Server: the remaining rule generation of
    netfilterrules.go and server.go, up to ApplyPolicyRulesForPodAndFamily.
  \<^item> Ownership, Legacy, Stale: what a run touches (only the two managed tables and objects of
    older daemon versions, locale \<open>owned_render\<close>) and what the cleanup deletes (exactly what the
    run did not record).
  \<^item> Rendering, Packet, Installed, Decision, Enforce, Common: what the generated rules do to
    packets, see below.
  \<^item> NodeInfo, Watch, Reconciler, NodeRuns, Selection: pkg/controllers and pkg/controller, from
    watch events over the lookup of namespaces to the reconciliation of all pods of a node.
    Reconciliations are isolated per pod, independent of map orders, and keep foreign objects;
    every event leads to one reconciliation of the node or to none.
  \<^item> Shutdown, Options, Health, Daemon: the cleanup at shutdown (locale \<open>table_deletions\<close>), the
    command line, the readiness handlers as interleaved goroutines, and main. The goroutines of
    the end of the process terminate under every schedule.

  \<^bold>\<open>From rules to packets.\<close> Rendering relates applyDirection and applyCommonChainRules to the
  list of messages they buffer on a namespace without objects of the daemon (\<open>fresh\<close>): a
  run that succeeds has buffered exactly this list, and a run fails only when the list does not
  exist or the transaction IDs do not last for it. Packet turns a message list into a ruleset and states, in the locale \<open>nft_datapath\<close>, the
  documented behaviour of the nftables expressions and verdicts the daemon uses. The packet path
  is a parameter of that locale; refPath is an executable one that satisfies it. Decision says on
  the policy objects what should happen to a packet, and Enforce proves that the chains do it. Its
  theorems assume that the generated names of a direction are distinct (names over 31 bytes are
  replaced by a 32-bit hash, so this cannot be proved), that the exceptions of one address block
  and the port ranges of one rule do not overlap, and that no address collected for a selector is
  an IPv4-mapped IPv6 address. Common does the same for the rules common to all policies.

  \<^bold>\<open>Bounds and fuel.\<close> Chain evaluation takes the number of nested jumps that are left; the rules
  of a direction need two, and the theorems hold for every larger number, so the bound is no
  restriction. A policy has fewer than \<open>2 ^ 63\<close> rules, as Go's int requires. Set IDs are 32-bit
  words; running out of them is an error of the model. Every other function is total by
  structural recursion or has a termination proof. The loop that waits for the runtime connection
  runs over the list of states observed until its timeout of 30 seconds.

  \<^bold>\<open>Composition.\<close> Daemon composes options, reconciliations, readiness and cleanup into main. The
  properties below compose rule generation with the packet path for one direction.

  \<^bold>\<open>Not modelled.\<close>
  \<^item> The evaluation of a ruleset over a namespace that already holds daemon objects: the rules
    then depend on what the kernel lists, for which NftState, SetChain and Stale have the
    per-object properties. The base chains and entry jumps are modelled (Bootstrap) but not
    evaluated on packets.
  \<^item> pkg/nftest, the fake connections of the Go tests.
  \<^item> applier_other.go and cleanup_other.go, stubs for systems without nftables.
  \<^item> scheme.go and the registration with the manager's cache: calls into controller-runtime with
    no decision of their own.
  \<^item> Logging, klog and debugLog, and the text of error messages beyond the wrapping prefix.
  \<^item> GetHostname of pkg/utils/node.go, which asks the operating system.
  \<^item> Work queue rate limits and the delay before a failed request is repeated.
\<close>

unbundle bit_operations_syntax

subsection \<open>A pod with one policy\<close>

definition web_block :: "string \<Rightarrow> string list \<Rightarrow> policyPeer" where
  "web_block cidr exs = \<lparr>peerPodSelector = None, peerNsSelector = None, peerIPBlock = Some \<lparr>ipCIDR = cidr, ipExcept = exs\<rparr>\<rparr>"

definition web_port :: policyPort where
  "web_port = \<lparr>ppProtocol = Some ''TCP'', ppPort = Some (IntVal 80), ppEndPort = None\<rparr>"

definition web_policy :: "policyRule list \<Rightarrow> internalPolicy" where
  "web_policy rules = \<lparr>ipPolicy = \<lparr>polName = ''a'', polNamespace = ''d'', polAnnotations = [], polGeneration = 1,
     polSpec = \<lparr>spPodSelector = \<lparr>matchLabels = [], matchExpressions = []\<rparr>, spIngress = Some rules, spEgress = None,
       spPolicyTypes = []\<rparr>\<rparr>, ipNetworks = [''d/a'']\<rparr>"

definition web_allow :: internalPolicy where
  "web_allow = web_policy [\<lparr>prPorts = [web_port], prPeers = [web_block ''10.0.0.0/8'' []]\<rparr>]"

definition web_except :: internalPolicy where
  "web_except = web_policy [\<lparr>prPorts = [web_port], prPeers = [web_block ''10.0.0.0/8'' [''10.1.0.0/16'']]\<rparr>,
     \<lparr>prPorts = [], prPeers = []\<rparr>]"

definition web_state :: "mem nftState" where
  "web_state = (new_nftState (new_conn mem_empty) filterTable natTable)\<lparr>ingress_ch := plainChain ingressChain filterTable\<rparr>"

definition web_packet :: "string \<Rightarrow> packet" where
  "web_packet i = \<lparr>iifname = i, oifname = [], nfproto = 2, l4proto = 6, ctState = 8,
     networkHeader = replicate 12 0 @ [10, 1, 2, 3] @ [10, 0, 0, 1], transportHeader = [4, 0, 0, 80]\<rparr>"

lemma web_fresh: "fresh (kern memE) (kst (nft web_state))" "cTable (ingress_ch web_state) = nfilter web_state"
  "cName (ingress_ch web_state) = ingressChain" "isIngressChain ingressChain" "nfilter web_state = filterTable"
  by (simp_all add: web_state_def fresh_def memE_def memK_def new_nftState_def new_conn_def mem_empty_def plainChain_def
      isIngressChain_def HasPrefix_def found_def)

lemma web_regular:
  "regularPolicy D True podInfo web_allow" "regularPolicy D True podInfo web_except"
  by (simp_all add: regularPolicy_def web_allow_def web_except_def web_policy_def policyRules_def regularRule_def
      web_port_def web_block_def regularPeer_def disjointPrefixes_def portRange_def defaultPort_def portProto_def portNumber_def apart_def)

lemma web_run:
  assumes "\<exists>ms. directionMsgs False demo_deps (plainChain ingressChain filterTable) demo_info policies = Some ms \<and>
      length ms < 100 \<and> newChains ms = cs \<and> map sName (newSets ms) = ss"
    and "distinct (ingressChain # cs)" "distinct ss"
  obtains n' where "applyDirection memE demo_deps ingress_ch demo_info policies web_state = (Inr (), n')"
    and "namesDistinct (cName (ingress_ch web_state)) (sent web_state n')"
proof -
  obtain ms where ms: "directionMsgs False demo_deps (plainChain ingressChain filterTable) demo_info policies = Some ms"
    "length ms < 100" "newChains ms = cs" "map sName (newSets ms) = ss" using assms(1) by (elim exE conjE)
  have "hostBE memE = False" "ingress_ch web_state = plainChain ingressChain filterTable" "\<not> no_room web_state ms"
    using ms(2) by (simp_all add: memE_def web_state_def no_room_def new_nftState_def new_conn_def)
  then have d: "directionMsgs (hostBE memE) demo_deps (ingress_ch web_state) demo_info policies = Some ms" "\<not> no_room web_state ms"
    using ms(1) by simp_all
  obtain n' where n': "applyDirection memE demo_deps ingress_ch demo_info policies web_state = (Inr (), n')" "sent web_state n' = ms"
    by (rule applyDirection_returns [where entry = ingress_ch, OF web_fresh(1,2) d])
  show ?thesis by (rule that [OF n'(1)]) (use assms(2,3) ms(3,4) in \<open>simp add: n'(2) web_fresh(3) namesDistinct_def\<close>)
qed

lemma nftNameWithSuffix_short:
  assumes "valid_nft_name (b @ sep @ suf)" "length (b @ sep @ suf) \<le> 255" "sep @ suf \<noteq> []" "b \<noteq> []"
  shows "nftNameWithSuffix b sep suf = b @ sep @ suf"
proof -
  have "truncateNftName b (255 - int (length sep + length suf)) = b"
    using assms by (intro truncateNftName_short) auto
  with assms show ?thesis by (auto simp: nftNameWithSuffix_def Let_def sanitize_id nftNameMaxLen_def truncateNftName_short)
qed

lemma web_hashes:
  "shortName ''multi-ingress-d-a-peers-0_peer_ipblock_ipv4_saddrs_0'' = ''ee4099f6''"
  "shortName ''multi-ingress-d-a-peers-0_peer_ipblock_except_ipv4_saddrs_0'' = ''29874030''"
  by code_simp+

lemma web_elements:
  "getPrefixesAsSetInterval [''10.0.0.0/8''] = Inr ([elem_end [0, 0, 0, 0], elem [10, 0, 0, 0], elem_end [11, 0, 0, 0]], [])"
  "getPrefixesAsSetInterval [''10.1.0.0/16''] = Inr ([elem_end [0, 0, 0, 0], elem [10, 1, 0, 0], elem_end [10, 2, 0, 0]], [])"
  "getPrefixesAsSetInterval [] = Inr ([], [])"
  "collectPorts [web_port] [] [] [] = Inr ([elem [0, 80], elem_end [0, 81]], [], [])"
  "collectPorts [] [] [] [] = Inr ([], [], [])"
  by code_simp+

lemma fmt_d_small: "fmt_d 0 = ''0''" "fmt_d (Suc 0) = ''1''"
  by code_simp+

lemma policyChainName_web: "policyChainName ingressChain (ipPolicy (web_policy rules)) = ''multi-ingress-d-a''"
  by (simp add: policyChainName_def web_policy_def policyRuleNamespacedName_def truncateNftName_short nft_char_def
      nftNameMaxLen_def ingressChain_def)

lemma web_names:
  "nftNameWithSuffix ''multi-ingress-d-a'' ''-'' ''ports-0'' = ''multi-ingress-d-a-ports-0''"
  "nftNameWithSuffix ''multi-ingress-d-a'' ''-'' ''peers-0'' = ''multi-ingress-d-a-peers-0''"
  "nftNameWithSuffix ''multi-ingress-d-a'' ''-'' ''ports-1'' = ''multi-ingress-d-a-ports-1''"
  "nftNameWithSuffix ''multi-ingress-d-a'' ''-'' ''peers-1'' = ''multi-ingress-d-a-peers-1''"
  "nftNameWithSuffix ''multi_ingress_d_a_ports_0'' ''_'' ''tcp'' = ''multi_ingress_d_a_ports_0_tcp''"
  by (simp_all add: nftNameWithSuffix_short nft_char_def)

lemma web_parts:
  "getSetName ''multi-ingress-d-a-ports-0'' = ''multi_ingress_d_a_ports_0''" "length (setMsgs s els) = 2"
  "ipNetworks (web_policy rules) = [''d/a'']" "spIngress (polSpec (ipPolicy (web_policy rules))) = Some rules"
  "peerIPBlock (web_block c xs) = Some \<lparr>ipCIDR = c, ipExcept = xs\<rparr>"
  "piInterfaces demo_info = [\<lparr>NetattachName = ''d/a'', InterfaceName = ''e1'', InterfaceType = ''mv'', IPs = [''10.0.0.1'']\<rparr>]"
  by (code_simp, simp_all add: web_policy_def web_block_def demo_info_def setMsgs_def)

lemmas web_defs = directionMsgs_def podMsgs_def policyRuleMsgs_def portsMsgs_def peersMsgs_def peerMsgs_def blockMsgs_def
  prefixMsgs_def protoMsgs_def jumpMsgs_def interfaceMsgs_def directionRules_def policyChain_def portsChain_def peersChain_def
  peersName_def shortChain_def plainChain_def shortSet_def getInetSet_def blockSet_def exceptSet_def zero_set_def
  portsChainSuffix_def peersChainSuffix_def peerIPBlockPrefix_def peerIPBlockExceptPrefix_def protoIPv4_def
  getAddressSuffix_def sourceAddressSuffix_def getProtocolInfo_def intf_CheckPolicyNetwork_def

lemma web_installs:
  "\<exists>ms. directionMsgs False demo_deps (plainChain ingressChain filterTable) demo_info [web_allow] = Some ms \<and>
     length ms < 100 \<and>
     newChains ms = [''multi-ingress-d-a'', ''multi-ingress-d-a-ports-0'', ''multi-ingress-d-a-peers-0''] \<and>
     map sName (newSets ms) = [''multi_ingress_d_a_ports_0_tcp'', ''ee4099f6'']"
proof -
  have ing: "isIngressChain ''multi-ingress-d-a''" "isIngressChain ''multi-ingress-d-a-peers-0''"
    by (simp_all add: isIngressChain_def HasPrefix_def ingressChain_def)
  show ?thesis
    by (simp add: web_defs Let_def web_allow_def policyChainName_web web_parts ing web_elements web_names web_hashes fmt_d_small
        del: collectPorts.simps)
qed

lemma web_installs_except:
  "\<exists>ms. directionMsgs False demo_deps (plainChain ingressChain filterTable) demo_info [web_except] = Some ms \<and>
     length ms < 100 \<and>
     newChains ms = [''multi-ingress-d-a'', ''multi-ingress-d-a-ports-0'', ''multi-ingress-d-a-peers-0'',
       ''multi-ingress-d-a-ports-1'', ''multi-ingress-d-a-peers-1''] \<and>
     map sName (newSets ms) = [''multi_ingress_d_a_ports_0_tcp'', ''29874030'', ''ee4099f6'']"
proof -
  have ing: "isIngressChain ''multi-ingress-d-a''" "isIngressChain ''multi-ingress-d-a-peers-0''"
    by (simp_all add: isIngressChain_def HasPrefix_def ingressChain_def)
  show ?thesis
    by (simp add: web_defs Let_def web_except_def policyChainName_web web_parts ing web_elements web_names web_hashes fmt_d_small
        del: collectPorts.simps)
qed

lemma web_run_allow:
  obtains n' where "applyDirection memE demo_deps ingress_ch demo_info [web_allow] web_state = (Inr (), n')"
    and "namesDistinct (cName (ingress_ch web_state)) (sent web_state n')"
  by (rule web_run [OF web_installs]) (simp_all add: ingressChain_def)

lemma web_run_except:
  obtains n' where "applyDirection memE demo_deps ingress_ch demo_info [web_except] web_state = (Inr (), n')"
    and "namesDistinct (cName (ingress_ch web_state)) (sent web_state n')"
  by (rule web_run [OF web_installs_except]) (simp_all add: ingressChain_def)

lemma web_datapath: "nft_datapath (refPath False) (hostBE memE)"
  by (simp add: memE_def refPath.nft_datapath_axioms)





text \<open>
  C25. A direction that has a policy drops every packet of an interface that no policy of the
  direction targets.
\<close>

theorem untargeted_interface_dropped:
  assumes "nft_datapath K (hostBE E)" and "fresh (kern E) (kst (nft n))"
    and "cTable (entry n) = nfilter n" and "cName (entry n) \<in> {ingressChain, egressChain}" and "policies \<noteq> []"
    and "applyDirection E D entry podInfo policies n = (Inr x, n')" and "namesDistinct (cName (entry n)) (sent n n')"
    and "list_all (regularPolicy D (isIngressChain (cName (entry n))) podInfo) policies" and "\<not> full mk"
    and "\<And>pol. pol \<in> set policies \<Longrightarrow>
      \<not> onInterface (packetInterface K (isIngressChain (cName (entry n))) p) podInfo (ipNetworks pol)"
  shows "let S = rulesetOf (nfilter n) (sent n n') in
    dp_chain K (Suc (Suc d)) S p (rsRules S (cName (entry n))) mk = Some Dropped"
proof -
  have "map (appliedDecision K D (isIngressChain (cName (entry n))) podInfo p) policies = map (\<lambda>_. Leave) policies"
    using assms(10) by (simp add: appliedDecision_def)
  moreover have "firstOf (map (\<lambda>_. Leave) policies) = Leave" by (induction policies) simp_all
  ultimately have "directionDecision K D (isIngressChain (cName (entry n))) podInfo policies p = Leave"
    by (simp only: directionDecision_def)
  with applyDirection_evaluates [OF assms(1-9), of d p] show ?thesis by simp
qed

theorem untargeted_interface_dropped_witness:
  "\<exists>n'. applyDirection memE demo_deps ingress_ch demo_info [web_allow] web_state = (Inr (), n') \<and>
     (let S = rulesetOf filterTable (sent web_state n') in
      refChain False 2 S (web_packet ''e2'') (rsRules S ingressChain) 0 = Some Dropped)"
proof -
  obtain n' where n': "applyDirection memE demo_deps ingress_ch demo_info [web_allow] web_state = (Inr (), n')"
    "namesDistinct (cName (ingress_ch web_state)) (sent web_state n')"
    by (rule web_run_allow)
  have "\<not> onInterface (packetInterface (refPath False) True (web_packet ''e2'')) demo_info (ipNetworks web_allow)" by code_simp
  moreover have "\<not> full 0" by code_simp
  ultimately show ?thesis
    using n' untargeted_interface_dropped [OF web_datapath web_fresh(1), of ingress_ch "[web_allow]" demo_deps demo_info "()" n' 0 "web_packet ''e2''" 0]
    by (simp add: web_fresh web_regular numeral_2_eq_2)
qed

end
